theory Spec2Isabelle
  imports Main "HOL-Library.Word"
begin

unbundle bit_operations_syntax

section \<open>Machine integers\<close>

text \<open>
  The decoder is compiled for two kinds of target: those on which \<^verbatim>\<open>size_t\<close> has 32 bits
  (\<^verbatim>\<open>_M_IX86\<close>, \<^verbatim>\<open>_M_ARM\<close>, \<^verbatim>\<open>_M_HYBRID_X86_ARM64\<close>) and those on which it has 64.
  The source distinguishes them with \<^verbatim>\<open>#if\<close>; the model carries the target as a value.
  Values of type \<^verbatim>\<open>size_t\<close> and \<^verbatim>\<open>uint64_t\<close> are natural numbers, with the
  wrap-around of every arithmetic operation written out.
\<close>

datatype arch = Arch32 | Arch64

fun size_bits :: "arch \<Rightarrow> nat" where
  "size_bits Arch32 = 32"
| "size_bits Arch64 = 64"

definition size_t :: "arch \<Rightarrow> nat \<Rightarrow> nat" where
  "size_t a x = x mod 2 ^ size_bits a"

text \<open>\<^verbatim>\<open>size_t(-1)\<close>, the out-of-range marker returned by \<^verbatim>\<open>ComputeIndex\<close>.\<close>

definition SIZE_T_MINUS_1 :: "arch \<Rightarrow> nat" where
  "SIZE_T_MINUS_1 a = 2 ^ size_bits a - 1"

definition u64 :: "nat \<Rightarrow> nat" where
  "u64 x = x mod 2 ^ 64"

definition UINT32_MAX :: nat where
  "UINT32_MAX = 4294967295"

section \<open>Texture metadata\<close>

text \<open>\<^verbatim>\<open>enum TEX_DIMENSION\<close>, kept numeric because the code switches on it with a default case.\<close>

definition TEX_DIMENSION_TEXTURE1D :: nat where "TEX_DIMENSION_TEXTURE1D = 2"
definition TEX_DIMENSION_TEXTURE2D :: nat where "TEX_DIMENSION_TEXTURE2D = 3"
definition TEX_DIMENSION_TEXTURE3D :: nat where "TEX_DIMENSION_TEXTURE3D = 4"

record TexMetadata =
  width :: nat
  height :: nat
  depth :: nat
  arraySize :: nat
  mipLevels :: nat
  miscFlags :: "32 word"
  miscFlags2 :: "32 word"
  format :: nat
  dimension :: nat

subsection \<open>\<^verbatim>\<open>TexMetadata::ComputeIndex\<close>\<close>

text \<open>
  The loop \<^verbatim>\<open>for (level = 0; level < mip; ++level) { index += d; if (d > 1) d >>= 1; }\<close>
  runs \<open>mip\<close> times; the first argument counts the iterations that remain.
\<close>

fun ComputeIndex_levels :: "arch \<Rightarrow> nat \<Rightarrow> nat \<Rightarrow> nat \<Rightarrow> nat \<times> nat" where
  "ComputeIndex_levels a 0 index d = (index, d)"
| "ComputeIndex_levels a (Suc n) index d =
     ComputeIndex_levels a n (size_t a (index + d)) (if d > 1 then d div 2 else d)"

definition ComputeIndex :: "arch \<Rightarrow> TexMetadata \<Rightarrow> nat \<Rightarrow> nat \<Rightarrow> nat \<Rightarrow> nat" where
  "ComputeIndex a md mip item slice_no =
     (if mip \<ge> mipLevels md then SIZE_T_MINUS_1 a
      else if dimension md = TEX_DIMENSION_TEXTURE1D \<or> dimension md = TEX_DIMENSION_TEXTURE2D then
        (if slice_no > 0 then SIZE_T_MINUS_1 a
         else if item \<ge> arraySize md then SIZE_T_MINUS_1 a
         else size_t a (size_t a (item * mipLevels md) + mip))
      else if dimension md = TEX_DIMENSION_TEXTURE3D then
        (if item > 0 then SIZE_T_MINUS_1 a
         else (case ComputeIndex_levels a mip 0 (depth md) of
                 (index, d) \<Rightarrow>
                   if slice_no \<ge> d then SIZE_T_MINUS_1 a else size_t a (index + slice_no)))
      else SIZE_T_MINUS_1 a)"

text \<open>
  The depth of a volume at a mip level as the specification words it: the base depth
  halved once per level, rounding down, never below 1.
\<close>

definition mip_depth :: "nat \<Rightarrow> nat \<Rightarrow> nat" where
  "mip_depth d level = ((\<lambda>x. max 1 (x div 2)) ^^ level) d"

section \<open>Mip chain length\<close>

text \<open>
  \<^verbatim>\<open>CountMips\<close>: the while loop as a recursive function on the loop variables. The
  counter cannot overflow: each round halves a dimension that is above 1.
\<close>

function CountMips_loop :: "nat \<Rightarrow> nat \<Rightarrow> nat \<Rightarrow> nat" where
  "CountMips_loop w h levels =
     (if h > 1 \<or> w > 1
      then CountMips_loop (if w > 1 then w div 2 else w)
                          (if h > 1 then h div 2 else h)
                          (levels + 1)
      else levels)"
  by pat_completeness auto
termination
  by (relation "measure (\<lambda>(w, h, levels). w + h)") auto

declare CountMips_loop.simps [simp del]

definition CountMips :: "nat \<Rightarrow> nat \<Rightarrow> nat" where
  "CountMips w h = CountMips_loop w h 1"

text \<open>
  One step down the mip chain as the specification words it: both dimensions halved,
  rounding down, never below 1.
\<close>

definition halve_dims :: "nat \<times> nat \<Rightarrow> nat \<times> nat" where
  "halve_dims p = (max 1 (fst p div 2), max 1 (snd p div 2))"

text \<open>Two small textures used to instantiate the indexing theorems.\<close>

definition demo_volume :: TexMetadata where
  "demo_volume = \<lparr>width = 8, height = 8, depth = 4, arraySize = 1, mipLevels = 4,
     miscFlags = 0, miscFlags2 = 0, format = 28, dimension = TEX_DIMENSION_TEXTURE3D\<rparr>"

definition demo_array :: TexMetadata where
  "demo_array = \<lparr>width = 4, height = 4, depth = 1, arraySize = 2, mipLevels = 3,
     miscFlags = 0, miscFlags2 = 0, format = 28, dimension = TEX_DIMENSION_TEXTURE2D\<rparr>"

text \<open>
  Metadata at the edge of \<^verbatim>\<open>size_t\<close>: a volume whose depth is the largest 64-bit value,
  a volume of depth 0, an array of 3 items with \<open>2 ^ 63\<close> levels, and an array of
  \<open>2 ^ 32 - 1\<close> items with \<open>2 ^ 32 - 1\<close> levels.
\<close>

definition demo_deep_volume :: TexMetadata where
  "demo_deep_volume = \<lparr>width = 1, height = 1, depth = 2 ^ 64 - 1, arraySize = 1, mipLevels = 2,
     miscFlags = 0, miscFlags2 = 0, format = 28, dimension = TEX_DIMENSION_TEXTURE3D\<rparr>"

definition demo_flat_volume :: TexMetadata where
  "demo_flat_volume = \<lparr>width = 1, height = 1, depth = 0, arraySize = 1, mipLevels = 2,
     miscFlags = 0, miscFlags2 = 0, format = 28, dimension = TEX_DIMENSION_TEXTURE3D\<rparr>"



section \<open>Pixel formats\<close>

text \<open>
  \<^verbatim>\<open>DXGI_FORMAT\<close> is an enumeration with numeric identity: the header decoder reads it
  from the file as a 32-bit number and \<^verbatim>\<open>IsValid\<close> compares it with bounds, so a format
  is a natural number here. The enumerators below carry the values of the platform header
  \<^verbatim>\<open>dxgiformat.h\<close> (\<^verbatim>\<open>#include <dxgi.h>\<close>); the last ten are the ones the source file
  defines itself.
\<close>

named_theorems dxgi \<open>values of the DXGI_FORMAT enumerators\<close>

definition DXGI_FORMAT_UNKNOWN :: nat where [dxgi]: "DXGI_FORMAT_UNKNOWN = 0"
definition DXGI_FORMAT_R32G32B32A32_TYPELESS :: nat where [dxgi]: "DXGI_FORMAT_R32G32B32A32_TYPELESS = 1"
definition DXGI_FORMAT_R32G32B32A32_FLOAT :: nat where [dxgi]: "DXGI_FORMAT_R32G32B32A32_FLOAT = 2"
definition DXGI_FORMAT_R32G32B32A32_UINT :: nat where [dxgi]: "DXGI_FORMAT_R32G32B32A32_UINT = 3"
definition DXGI_FORMAT_R32G32B32A32_SINT :: nat where [dxgi]: "DXGI_FORMAT_R32G32B32A32_SINT = 4"
definition DXGI_FORMAT_R32G32B32_TYPELESS :: nat where [dxgi]: "DXGI_FORMAT_R32G32B32_TYPELESS = 5"
definition DXGI_FORMAT_R32G32B32_FLOAT :: nat where [dxgi]: "DXGI_FORMAT_R32G32B32_FLOAT = 6"
definition DXGI_FORMAT_R32G32B32_UINT :: nat where [dxgi]: "DXGI_FORMAT_R32G32B32_UINT = 7"
definition DXGI_FORMAT_R32G32B32_SINT :: nat where [dxgi]: "DXGI_FORMAT_R32G32B32_SINT = 8"
definition DXGI_FORMAT_R16G16B16A16_TYPELESS :: nat where [dxgi]: "DXGI_FORMAT_R16G16B16A16_TYPELESS = 9"
definition DXGI_FORMAT_R16G16B16A16_FLOAT :: nat where [dxgi]: "DXGI_FORMAT_R16G16B16A16_FLOAT = 10"
definition DXGI_FORMAT_R16G16B16A16_UNORM :: nat where [dxgi]: "DXGI_FORMAT_R16G16B16A16_UNORM = 11"
definition DXGI_FORMAT_R16G16B16A16_UINT :: nat where [dxgi]: "DXGI_FORMAT_R16G16B16A16_UINT = 12"
definition DXGI_FORMAT_R16G16B16A16_SNORM :: nat where [dxgi]: "DXGI_FORMAT_R16G16B16A16_SNORM = 13"
definition DXGI_FORMAT_R16G16B16A16_SINT :: nat where [dxgi]: "DXGI_FORMAT_R16G16B16A16_SINT = 14"
definition DXGI_FORMAT_R32G32_TYPELESS :: nat where [dxgi]: "DXGI_FORMAT_R32G32_TYPELESS = 15"
definition DXGI_FORMAT_R32G32_FLOAT :: nat where [dxgi]: "DXGI_FORMAT_R32G32_FLOAT = 16"
definition DXGI_FORMAT_R32G32_UINT :: nat where [dxgi]: "DXGI_FORMAT_R32G32_UINT = 17"
definition DXGI_FORMAT_R32G32_SINT :: nat where [dxgi]: "DXGI_FORMAT_R32G32_SINT = 18"
definition DXGI_FORMAT_R32G8X24_TYPELESS :: nat where [dxgi]: "DXGI_FORMAT_R32G8X24_TYPELESS = 19"
definition DXGI_FORMAT_D32_FLOAT_S8X24_UINT :: nat where [dxgi]: "DXGI_FORMAT_D32_FLOAT_S8X24_UINT = 20"
definition DXGI_FORMAT_R32_FLOAT_X8X24_TYPELESS :: nat where [dxgi]: "DXGI_FORMAT_R32_FLOAT_X8X24_TYPELESS = 21"
definition DXGI_FORMAT_X32_TYPELESS_G8X24_UINT :: nat where [dxgi]: "DXGI_FORMAT_X32_TYPELESS_G8X24_UINT = 22"
definition DXGI_FORMAT_R10G10B10A2_TYPELESS :: nat where [dxgi]: "DXGI_FORMAT_R10G10B10A2_TYPELESS = 23"
definition DXGI_FORMAT_R10G10B10A2_UNORM :: nat where [dxgi]: "DXGI_FORMAT_R10G10B10A2_UNORM = 24"
definition DXGI_FORMAT_R10G10B10A2_UINT :: nat where [dxgi]: "DXGI_FORMAT_R10G10B10A2_UINT = 25"
definition DXGI_FORMAT_R11G11B10_FLOAT :: nat where [dxgi]: "DXGI_FORMAT_R11G11B10_FLOAT = 26"
definition DXGI_FORMAT_R8G8B8A8_TYPELESS :: nat where [dxgi]: "DXGI_FORMAT_R8G8B8A8_TYPELESS = 27"
definition DXGI_FORMAT_R8G8B8A8_UNORM :: nat where [dxgi]: "DXGI_FORMAT_R8G8B8A8_UNORM = 28"
definition DXGI_FORMAT_R8G8B8A8_UNORM_SRGB :: nat where [dxgi]: "DXGI_FORMAT_R8G8B8A8_UNORM_SRGB = 29"
definition DXGI_FORMAT_R8G8B8A8_UINT :: nat where [dxgi]: "DXGI_FORMAT_R8G8B8A8_UINT = 30"
definition DXGI_FORMAT_R8G8B8A8_SNORM :: nat where [dxgi]: "DXGI_FORMAT_R8G8B8A8_SNORM = 31"
definition DXGI_FORMAT_R8G8B8A8_SINT :: nat where [dxgi]: "DXGI_FORMAT_R8G8B8A8_SINT = 32"
definition DXGI_FORMAT_R16G16_TYPELESS :: nat where [dxgi]: "DXGI_FORMAT_R16G16_TYPELESS = 33"
definition DXGI_FORMAT_R16G16_FLOAT :: nat where [dxgi]: "DXGI_FORMAT_R16G16_FLOAT = 34"
definition DXGI_FORMAT_R16G16_UNORM :: nat where [dxgi]: "DXGI_FORMAT_R16G16_UNORM = 35"
definition DXGI_FORMAT_R16G16_UINT :: nat where [dxgi]: "DXGI_FORMAT_R16G16_UINT = 36"
definition DXGI_FORMAT_R16G16_SNORM :: nat where [dxgi]: "DXGI_FORMAT_R16G16_SNORM = 37"
definition DXGI_FORMAT_R16G16_SINT :: nat where [dxgi]: "DXGI_FORMAT_R16G16_SINT = 38"
definition DXGI_FORMAT_R32_TYPELESS :: nat where [dxgi]: "DXGI_FORMAT_R32_TYPELESS = 39"
definition DXGI_FORMAT_D32_FLOAT :: nat where [dxgi]: "DXGI_FORMAT_D32_FLOAT = 40"
definition DXGI_FORMAT_R32_FLOAT :: nat where [dxgi]: "DXGI_FORMAT_R32_FLOAT = 41"
definition DXGI_FORMAT_R32_UINT :: nat where [dxgi]: "DXGI_FORMAT_R32_UINT = 42"
definition DXGI_FORMAT_R32_SINT :: nat where [dxgi]: "DXGI_FORMAT_R32_SINT = 43"
definition DXGI_FORMAT_R24G8_TYPELESS :: nat where [dxgi]: "DXGI_FORMAT_R24G8_TYPELESS = 44"
definition DXGI_FORMAT_D24_UNORM_S8_UINT :: nat where [dxgi]: "DXGI_FORMAT_D24_UNORM_S8_UINT = 45"
definition DXGI_FORMAT_R24_UNORM_X8_TYPELESS :: nat where [dxgi]: "DXGI_FORMAT_R24_UNORM_X8_TYPELESS = 46"
definition DXGI_FORMAT_X24_TYPELESS_G8_UINT :: nat where [dxgi]: "DXGI_FORMAT_X24_TYPELESS_G8_UINT = 47"
definition DXGI_FORMAT_R8G8_TYPELESS :: nat where [dxgi]: "DXGI_FORMAT_R8G8_TYPELESS = 48"
definition DXGI_FORMAT_R8G8_UNORM :: nat where [dxgi]: "DXGI_FORMAT_R8G8_UNORM = 49"
definition DXGI_FORMAT_R8G8_UINT :: nat where [dxgi]: "DXGI_FORMAT_R8G8_UINT = 50"
definition DXGI_FORMAT_R8G8_SNORM :: nat where [dxgi]: "DXGI_FORMAT_R8G8_SNORM = 51"
definition DXGI_FORMAT_R8G8_SINT :: nat where [dxgi]: "DXGI_FORMAT_R8G8_SINT = 52"
definition DXGI_FORMAT_R16_TYPELESS :: nat where [dxgi]: "DXGI_FORMAT_R16_TYPELESS = 53"
definition DXGI_FORMAT_R16_FLOAT :: nat where [dxgi]: "DXGI_FORMAT_R16_FLOAT = 54"
definition DXGI_FORMAT_D16_UNORM :: nat where [dxgi]: "DXGI_FORMAT_D16_UNORM = 55"
definition DXGI_FORMAT_R16_UNORM :: nat where [dxgi]: "DXGI_FORMAT_R16_UNORM = 56"
definition DXGI_FORMAT_R16_UINT :: nat where [dxgi]: "DXGI_FORMAT_R16_UINT = 57"
definition DXGI_FORMAT_R16_SNORM :: nat where [dxgi]: "DXGI_FORMAT_R16_SNORM = 58"
definition DXGI_FORMAT_R16_SINT :: nat where [dxgi]: "DXGI_FORMAT_R16_SINT = 59"
definition DXGI_FORMAT_R8_TYPELESS :: nat where [dxgi]: "DXGI_FORMAT_R8_TYPELESS = 60"
definition DXGI_FORMAT_R8_UNORM :: nat where [dxgi]: "DXGI_FORMAT_R8_UNORM = 61"
definition DXGI_FORMAT_R8_UINT :: nat where [dxgi]: "DXGI_FORMAT_R8_UINT = 62"
definition DXGI_FORMAT_R8_SNORM :: nat where [dxgi]: "DXGI_FORMAT_R8_SNORM = 63"
definition DXGI_FORMAT_R8_SINT :: nat where [dxgi]: "DXGI_FORMAT_R8_SINT = 64"
definition DXGI_FORMAT_A8_UNORM :: nat where [dxgi]: "DXGI_FORMAT_A8_UNORM = 65"
definition DXGI_FORMAT_R1_UNORM :: nat where [dxgi]: "DXGI_FORMAT_R1_UNORM = 66"
definition DXGI_FORMAT_R9G9B9E5_SHAREDEXP :: nat where [dxgi]: "DXGI_FORMAT_R9G9B9E5_SHAREDEXP = 67"
definition DXGI_FORMAT_R8G8_B8G8_UNORM :: nat where [dxgi]: "DXGI_FORMAT_R8G8_B8G8_UNORM = 68"
definition DXGI_FORMAT_G8R8_G8B8_UNORM :: nat where [dxgi]: "DXGI_FORMAT_G8R8_G8B8_UNORM = 69"
definition DXGI_FORMAT_BC1_TYPELESS :: nat where [dxgi]: "DXGI_FORMAT_BC1_TYPELESS = 70"
definition DXGI_FORMAT_BC1_UNORM :: nat where [dxgi]: "DXGI_FORMAT_BC1_UNORM = 71"
definition DXGI_FORMAT_BC1_UNORM_SRGB :: nat where [dxgi]: "DXGI_FORMAT_BC1_UNORM_SRGB = 72"
definition DXGI_FORMAT_BC2_TYPELESS :: nat where [dxgi]: "DXGI_FORMAT_BC2_TYPELESS = 73"
definition DXGI_FORMAT_BC2_UNORM :: nat where [dxgi]: "DXGI_FORMAT_BC2_UNORM = 74"
definition DXGI_FORMAT_BC2_UNORM_SRGB :: nat where [dxgi]: "DXGI_FORMAT_BC2_UNORM_SRGB = 75"
definition DXGI_FORMAT_BC3_TYPELESS :: nat where [dxgi]: "DXGI_FORMAT_BC3_TYPELESS = 76"
definition DXGI_FORMAT_BC3_UNORM :: nat where [dxgi]: "DXGI_FORMAT_BC3_UNORM = 77"
definition DXGI_FORMAT_BC3_UNORM_SRGB :: nat where [dxgi]: "DXGI_FORMAT_BC3_UNORM_SRGB = 78"
definition DXGI_FORMAT_BC4_TYPELESS :: nat where [dxgi]: "DXGI_FORMAT_BC4_TYPELESS = 79"
definition DXGI_FORMAT_BC4_UNORM :: nat where [dxgi]: "DXGI_FORMAT_BC4_UNORM = 80"
definition DXGI_FORMAT_BC4_SNORM :: nat where [dxgi]: "DXGI_FORMAT_BC4_SNORM = 81"
definition DXGI_FORMAT_BC5_TYPELESS :: nat where [dxgi]: "DXGI_FORMAT_BC5_TYPELESS = 82"
definition DXGI_FORMAT_BC5_UNORM :: nat where [dxgi]: "DXGI_FORMAT_BC5_UNORM = 83"
definition DXGI_FORMAT_BC5_SNORM :: nat where [dxgi]: "DXGI_FORMAT_BC5_SNORM = 84"
definition DXGI_FORMAT_B5G6R5_UNORM :: nat where [dxgi]: "DXGI_FORMAT_B5G6R5_UNORM = 85"
definition DXGI_FORMAT_B5G5R5A1_UNORM :: nat where [dxgi]: "DXGI_FORMAT_B5G5R5A1_UNORM = 86"
definition DXGI_FORMAT_B8G8R8A8_UNORM :: nat where [dxgi]: "DXGI_FORMAT_B8G8R8A8_UNORM = 87"
definition DXGI_FORMAT_B8G8R8X8_UNORM :: nat where [dxgi]: "DXGI_FORMAT_B8G8R8X8_UNORM = 88"
definition DXGI_FORMAT_R10G10B10_XR_BIAS_A2_UNORM :: nat where [dxgi]: "DXGI_FORMAT_R10G10B10_XR_BIAS_A2_UNORM = 89"
definition DXGI_FORMAT_B8G8R8A8_TYPELESS :: nat where [dxgi]: "DXGI_FORMAT_B8G8R8A8_TYPELESS = 90"
definition DXGI_FORMAT_B8G8R8A8_UNORM_SRGB :: nat where [dxgi]: "DXGI_FORMAT_B8G8R8A8_UNORM_SRGB = 91"
definition DXGI_FORMAT_B8G8R8X8_TYPELESS :: nat where [dxgi]: "DXGI_FORMAT_B8G8R8X8_TYPELESS = 92"
definition DXGI_FORMAT_B8G8R8X8_UNORM_SRGB :: nat where [dxgi]: "DXGI_FORMAT_B8G8R8X8_UNORM_SRGB = 93"
definition DXGI_FORMAT_BC6H_TYPELESS :: nat where [dxgi]: "DXGI_FORMAT_BC6H_TYPELESS = 94"
definition DXGI_FORMAT_BC6H_UF16 :: nat where [dxgi]: "DXGI_FORMAT_BC6H_UF16 = 95"
definition DXGI_FORMAT_BC6H_SF16 :: nat where [dxgi]: "DXGI_FORMAT_BC6H_SF16 = 96"
definition DXGI_FORMAT_BC7_TYPELESS :: nat where [dxgi]: "DXGI_FORMAT_BC7_TYPELESS = 97"
definition DXGI_FORMAT_BC7_UNORM :: nat where [dxgi]: "DXGI_FORMAT_BC7_UNORM = 98"
definition DXGI_FORMAT_BC7_UNORM_SRGB :: nat where [dxgi]: "DXGI_FORMAT_BC7_UNORM_SRGB = 99"
definition DXGI_FORMAT_AYUV :: nat where [dxgi]: "DXGI_FORMAT_AYUV = 100"
definition DXGI_FORMAT_Y410 :: nat where [dxgi]: "DXGI_FORMAT_Y410 = 101"
definition DXGI_FORMAT_Y416 :: nat where [dxgi]: "DXGI_FORMAT_Y416 = 102"
definition DXGI_FORMAT_NV12 :: nat where [dxgi]: "DXGI_FORMAT_NV12 = 103"
definition DXGI_FORMAT_P010 :: nat where [dxgi]: "DXGI_FORMAT_P010 = 104"
definition DXGI_FORMAT_P016 :: nat where [dxgi]: "DXGI_FORMAT_P016 = 105"
definition DXGI_FORMAT_420_OPAQUE :: nat where [dxgi]: "DXGI_FORMAT_420_OPAQUE = 106"
definition DXGI_FORMAT_YUY2 :: nat where [dxgi]: "DXGI_FORMAT_YUY2 = 107"
definition DXGI_FORMAT_Y210 :: nat where [dxgi]: "DXGI_FORMAT_Y210 = 108"
definition DXGI_FORMAT_Y216 :: nat where [dxgi]: "DXGI_FORMAT_Y216 = 109"
definition DXGI_FORMAT_NV11 :: nat where [dxgi]: "DXGI_FORMAT_NV11 = 110"
definition DXGI_FORMAT_AI44 :: nat where [dxgi]: "DXGI_FORMAT_AI44 = 111"
definition DXGI_FORMAT_IA44 :: nat where [dxgi]: "DXGI_FORMAT_IA44 = 112"
definition DXGI_FORMAT_P8 :: nat where [dxgi]: "DXGI_FORMAT_P8 = 113"
definition DXGI_FORMAT_A8P8 :: nat where [dxgi]: "DXGI_FORMAT_A8P8 = 114"
definition DXGI_FORMAT_B4G4R4A4_UNORM :: nat where [dxgi]: "DXGI_FORMAT_B4G4R4A4_UNORM = 115"

definition XBOX_DXGI_FORMAT_R10G10B10_7E3_A2_FLOAT :: nat where [dxgi]: "XBOX_DXGI_FORMAT_R10G10B10_7E3_A2_FLOAT = 116"
definition XBOX_DXGI_FORMAT_R10G10B10_6E4_A2_FLOAT :: nat where [dxgi]: "XBOX_DXGI_FORMAT_R10G10B10_6E4_A2_FLOAT = 117"
definition XBOX_DXGI_FORMAT_D16_UNORM_S8_UINT :: nat where [dxgi]: "XBOX_DXGI_FORMAT_D16_UNORM_S8_UINT = 118"
definition XBOX_DXGI_FORMAT_R16_UNORM_X8_TYPELESS :: nat where [dxgi]: "XBOX_DXGI_FORMAT_R16_UNORM_X8_TYPELESS = 119"
definition XBOX_DXGI_FORMAT_X16_TYPELESS_G8_UINT :: nat where [dxgi]: "XBOX_DXGI_FORMAT_X16_TYPELESS_G8_UINT = 120"
definition WIN10_DXGI_FORMAT_P208 :: nat where [dxgi]: "WIN10_DXGI_FORMAT_P208 = 130"
definition WIN10_DXGI_FORMAT_V208 :: nat where [dxgi]: "WIN10_DXGI_FORMAT_V208 = 131"
definition WIN10_DXGI_FORMAT_V408 :: nat where [dxgi]: "WIN10_DXGI_FORMAT_V408 = 132"
definition XBOX_DXGI_FORMAT_R10G10B10_SNORM_A2_UNORM :: nat where [dxgi]: "XBOX_DXGI_FORMAT_R10G10B10_SNORM_A2_UNORM = 189"
definition XBOX_DXGI_FORMAT_R4G4_UNORM :: nat where [dxgi]: "XBOX_DXGI_FORMAT_R4G4_UNORM = 190"

subsection \<open>Format predicates\<close>

definition IsValid :: "nat \<Rightarrow> bool" where
  "IsValid fmt = (fmt \<ge> 1 \<and> fmt \<le> 190)"

definition IsPalettized :: "nat \<Rightarrow> bool" where
  "IsPalettized fmt = (fmt \<in> set
        [DXGI_FORMAT_AI44, DXGI_FORMAT_IA44, DXGI_FORMAT_P8, DXGI_FORMAT_A8P8])"

definition IsCompressed :: "nat \<Rightarrow> bool" where
  "IsCompressed fmt = (fmt \<in> set
        [DXGI_FORMAT_BC1_TYPELESS, DXGI_FORMAT_BC1_UNORM, DXGI_FORMAT_BC1_UNORM_SRGB,
         DXGI_FORMAT_BC2_TYPELESS, DXGI_FORMAT_BC2_UNORM, DXGI_FORMAT_BC2_UNORM_SRGB,
         DXGI_FORMAT_BC3_TYPELESS, DXGI_FORMAT_BC3_UNORM, DXGI_FORMAT_BC3_UNORM_SRGB,
         DXGI_FORMAT_BC4_TYPELESS, DXGI_FORMAT_BC4_UNORM, DXGI_FORMAT_BC4_SNORM,
         DXGI_FORMAT_BC5_TYPELESS, DXGI_FORMAT_BC5_UNORM, DXGI_FORMAT_BC5_SNORM,
         DXGI_FORMAT_BC6H_TYPELESS, DXGI_FORMAT_BC6H_UF16, DXGI_FORMAT_BC6H_SF16,
         DXGI_FORMAT_BC7_TYPELESS, DXGI_FORMAT_BC7_UNORM, DXGI_FORMAT_BC7_UNORM_SRGB])"

definition IsPacked :: "nat \<Rightarrow> bool" where
  "IsPacked fmt = (fmt \<in> set
        [DXGI_FORMAT_R8G8_B8G8_UNORM, DXGI_FORMAT_G8R8_G8B8_UNORM, DXGI_FORMAT_YUY2,
         DXGI_FORMAT_Y210, DXGI_FORMAT_Y216])"

definition IsPlanar :: "nat \<Rightarrow> bool" where
  "IsPlanar fmt = (fmt \<in> set
        [DXGI_FORMAT_NV12, DXGI_FORMAT_P010, DXGI_FORMAT_P016, DXGI_FORMAT_420_OPAQUE,
         DXGI_FORMAT_NV11, WIN10_DXGI_FORMAT_P208, WIN10_DXGI_FORMAT_V208,
         WIN10_DXGI_FORMAT_V408, XBOX_DXGI_FORMAT_D16_UNORM_S8_UINT,
         XBOX_DXGI_FORMAT_R16_UNORM_X8_TYPELESS, XBOX_DXGI_FORMAT_X16_TYPELESS_G8_UINT])"

text \<open>\<^verbatim>\<open>BitsPerPixel\<close>: the switch, one branch per group of case labels, 0 by default.\<close>

definition BitsPerPixel :: "nat \<Rightarrow> nat" where
  "BitsPerPixel fmt =
     (if fmt \<in> set
          [DXGI_FORMAT_R32G32B32A32_TYPELESS, DXGI_FORMAT_R32G32B32A32_FLOAT,
           DXGI_FORMAT_R32G32B32A32_UINT, DXGI_FORMAT_R32G32B32A32_SINT] then 128
      else
     (if fmt \<in> set
          [DXGI_FORMAT_R32G32B32_TYPELESS, DXGI_FORMAT_R32G32B32_FLOAT,
           DXGI_FORMAT_R32G32B32_UINT, DXGI_FORMAT_R32G32B32_SINT] then 96
      else
     (if fmt \<in> set
          [DXGI_FORMAT_R16G16B16A16_TYPELESS, DXGI_FORMAT_R16G16B16A16_FLOAT,
           DXGI_FORMAT_R16G16B16A16_UNORM, DXGI_FORMAT_R16G16B16A16_UINT,
           DXGI_FORMAT_R16G16B16A16_SNORM, DXGI_FORMAT_R16G16B16A16_SINT,
           DXGI_FORMAT_R32G32_TYPELESS, DXGI_FORMAT_R32G32_FLOAT, DXGI_FORMAT_R32G32_UINT,
           DXGI_FORMAT_R32G32_SINT, DXGI_FORMAT_R32G8X24_TYPELESS,
           DXGI_FORMAT_D32_FLOAT_S8X24_UINT, DXGI_FORMAT_R32_FLOAT_X8X24_TYPELESS,
           DXGI_FORMAT_X32_TYPELESS_G8X24_UINT, DXGI_FORMAT_Y416, DXGI_FORMAT_Y210,
           DXGI_FORMAT_Y216] then 64
      else
     (if fmt \<in> set
          [DXGI_FORMAT_R10G10B10A2_TYPELESS, DXGI_FORMAT_R10G10B10A2_UNORM,
           DXGI_FORMAT_R10G10B10A2_UINT, DXGI_FORMAT_R11G11B10_FLOAT,
           DXGI_FORMAT_R8G8B8A8_TYPELESS, DXGI_FORMAT_R8G8B8A8_UNORM,
           DXGI_FORMAT_R8G8B8A8_UNORM_SRGB, DXGI_FORMAT_R8G8B8A8_UINT,
           DXGI_FORMAT_R8G8B8A8_SNORM, DXGI_FORMAT_R8G8B8A8_SINT,
           DXGI_FORMAT_R16G16_TYPELESS, DXGI_FORMAT_R16G16_FLOAT, DXGI_FORMAT_R16G16_UNORM,
           DXGI_FORMAT_R16G16_UINT, DXGI_FORMAT_R16G16_SNORM, DXGI_FORMAT_R16G16_SINT,
           DXGI_FORMAT_R32_TYPELESS, DXGI_FORMAT_D32_FLOAT, DXGI_FORMAT_R32_FLOAT,
           DXGI_FORMAT_R32_UINT, DXGI_FORMAT_R32_SINT, DXGI_FORMAT_R24G8_TYPELESS,
           DXGI_FORMAT_D24_UNORM_S8_UINT, DXGI_FORMAT_R24_UNORM_X8_TYPELESS,
           DXGI_FORMAT_X24_TYPELESS_G8_UINT, DXGI_FORMAT_R9G9B9E5_SHAREDEXP,
           DXGI_FORMAT_R8G8_B8G8_UNORM, DXGI_FORMAT_G8R8_G8B8_UNORM,
           DXGI_FORMAT_B8G8R8A8_UNORM, DXGI_FORMAT_B8G8R8X8_UNORM,
           DXGI_FORMAT_R10G10B10_XR_BIAS_A2_UNORM, DXGI_FORMAT_B8G8R8A8_TYPELESS,
           DXGI_FORMAT_B8G8R8A8_UNORM_SRGB, DXGI_FORMAT_B8G8R8X8_TYPELESS,
           DXGI_FORMAT_B8G8R8X8_UNORM_SRGB, DXGI_FORMAT_AYUV, DXGI_FORMAT_Y410,
           DXGI_FORMAT_YUY2, XBOX_DXGI_FORMAT_R10G10B10_7E3_A2_FLOAT,
           XBOX_DXGI_FORMAT_R10G10B10_6E4_A2_FLOAT,
           XBOX_DXGI_FORMAT_R10G10B10_SNORM_A2_UNORM] then 32
      else
     (if fmt \<in> set
          [DXGI_FORMAT_P010, DXGI_FORMAT_P016, XBOX_DXGI_FORMAT_D16_UNORM_S8_UINT,
           XBOX_DXGI_FORMAT_R16_UNORM_X8_TYPELESS, XBOX_DXGI_FORMAT_X16_TYPELESS_G8_UINT,
           WIN10_DXGI_FORMAT_V408] then 24
      else
     (if fmt \<in> set
          [DXGI_FORMAT_R8G8_TYPELESS, DXGI_FORMAT_R8G8_UNORM, DXGI_FORMAT_R8G8_UINT,
           DXGI_FORMAT_R8G8_SNORM, DXGI_FORMAT_R8G8_SINT, DXGI_FORMAT_R16_TYPELESS,
           DXGI_FORMAT_R16_FLOAT, DXGI_FORMAT_D16_UNORM, DXGI_FORMAT_R16_UNORM,
           DXGI_FORMAT_R16_UINT, DXGI_FORMAT_R16_SNORM, DXGI_FORMAT_R16_SINT,
           DXGI_FORMAT_B5G6R5_UNORM, DXGI_FORMAT_B5G5R5A1_UNORM, DXGI_FORMAT_A8P8,
           DXGI_FORMAT_B4G4R4A4_UNORM, WIN10_DXGI_FORMAT_P208, WIN10_DXGI_FORMAT_V208] then 16
      else
     (if fmt \<in> set
          [DXGI_FORMAT_NV12, DXGI_FORMAT_420_OPAQUE, DXGI_FORMAT_NV11] then 12
      else
     (if fmt \<in> set
          [DXGI_FORMAT_R8_TYPELESS, DXGI_FORMAT_R8_UNORM, DXGI_FORMAT_R8_UINT,
           DXGI_FORMAT_R8_SNORM, DXGI_FORMAT_R8_SINT, DXGI_FORMAT_A8_UNORM,
           DXGI_FORMAT_BC2_TYPELESS, DXGI_FORMAT_BC2_UNORM, DXGI_FORMAT_BC2_UNORM_SRGB,
           DXGI_FORMAT_BC3_TYPELESS, DXGI_FORMAT_BC3_UNORM, DXGI_FORMAT_BC3_UNORM_SRGB,
           DXGI_FORMAT_BC5_TYPELESS, DXGI_FORMAT_BC5_UNORM, DXGI_FORMAT_BC5_SNORM,
           DXGI_FORMAT_BC6H_TYPELESS, DXGI_FORMAT_BC6H_UF16, DXGI_FORMAT_BC6H_SF16,
           DXGI_FORMAT_BC7_TYPELESS, DXGI_FORMAT_BC7_UNORM, DXGI_FORMAT_BC7_UNORM_SRGB,
           DXGI_FORMAT_AI44, DXGI_FORMAT_IA44, DXGI_FORMAT_P8, XBOX_DXGI_FORMAT_R4G4_UNORM] then 8
      else
     (if fmt \<in> set
          [DXGI_FORMAT_R1_UNORM] then 1
      else
     (if fmt \<in> set
          [DXGI_FORMAT_BC1_TYPELESS, DXGI_FORMAT_BC1_UNORM, DXGI_FORMAT_BC1_UNORM_SRGB,
           DXGI_FORMAT_BC4_TYPELESS, DXGI_FORMAT_BC4_UNORM, DXGI_FORMAT_BC4_SNORM] then 4
      else 0))))))))))"

section \<open>Pitch computation\<close>

text \<open>
  \<^verbatim>\<open>HRESULT\<close> is a signed 32-bit number; \<^verbatim>\<open>FAILED(hr)\<close> tests its sign. The codes are
  those of the platform headers.
\<close>

type_synonym HRESULT = int

definition S_OK :: HRESULT where "S_OK = 0"
definition E_FAIL :: HRESULT where "E_FAIL = - 2147467259"
definition E_INVALIDARG :: HRESULT where "E_INVALIDARG = - 2147024809"
definition E_OUTOFMEMORY :: HRESULT where "E_OUTOFMEMORY = - 2147024882"
definition HRESULT_E_ARITHMETIC_OVERFLOW :: HRESULT where
  "HRESULT_E_ARITHMETIC_OVERFLOW = - 2147024362"

definition FAILED :: "HRESULT \<Rightarrow> bool" where
  "FAILED hr = (hr < 0)"

text \<open>\<^verbatim>\<open>enum CP_FLAGS : unsigned long\<close>, a bit mask.\<close>

type_synonym CP_FLAGS = "32 word"

definition CP_FLAGS_NONE :: CP_FLAGS where "CP_FLAGS_NONE = 0x0"
definition CP_FLAGS_LEGACY_DWORD :: CP_FLAGS where "CP_FLAGS_LEGACY_DWORD = 0x1"
definition CP_FLAGS_PARAGRAPH :: CP_FLAGS where "CP_FLAGS_PARAGRAPH = 0x2"
definition CP_FLAGS_YMM :: CP_FLAGS where "CP_FLAGS_YMM = 0x4"
definition CP_FLAGS_ZMM :: CP_FLAGS where "CP_FLAGS_ZMM = 0x8"
definition CP_FLAGS_PAGE4K :: CP_FLAGS where "CP_FLAGS_PAGE4K = 0x200"
definition CP_FLAGS_BAD_DXTN_TAILS :: CP_FLAGS where "CP_FLAGS_BAD_DXTN_TAILS = 0x1000"
definition CP_FLAGS_24BPP :: CP_FLAGS where "CP_FLAGS_24BPP = 0x10000"
definition CP_FLAGS_16BPP :: CP_FLAGS where "CP_FLAGS_16BPP = 0x20000"
definition CP_FLAGS_8BPP :: CP_FLAGS where "CP_FLAGS_8BPP = 0x40000"

text \<open>\<^verbatim>\<open>flags & F\<close> used as a condition.\<close>

definition has_flag :: "32 word \<Rightarrow> 32 word \<Rightarrow> bool" where
  "has_flag flags f = (flags AND f \<noteq> 0)"

text \<open>
  The block-compressed branches of \<^verbatim>\<open>ComputePitch\<close> differ only in the number of bytes
  per block (8 or 16), which is the first argument here. All arithmetic is in
  \<^verbatim>\<open>uint64_t\<close>, so every sum and product is reduced by \<open>u64\<close>.
\<close>

definition bc_pitch :: "nat \<Rightarrow> nat \<Rightarrow> nat \<Rightarrow> CP_FLAGS \<Rightarrow> nat \<times> nat" where
  "bc_pitch bytes w h flags =
     (if has_flag flags CP_FLAGS_BAD_DXTN_TAILS then
        (let nbw = w div 4;
             nbh = h div 4;
             pitch = max 1 (u64 (u64 nbw * bytes));
             slc = max 1 (u64 (pitch * u64 nbh))
         in (pitch, slc))
      else
        (let nbw = max 1 (u64 (u64 w + 3) div 4);
             nbh = max 1 (u64 (u64 h + 3) div 4);
             pitch = u64 (nbw * bytes);
             slc = u64 (pitch * nbh)
         in (pitch, slc)))"

text \<open>The default branch: linear formats, with the bits per pixel and the row alignment
  selected by the flags.\<close>

definition linear_pitch :: "nat \<Rightarrow> nat \<Rightarrow> nat \<Rightarrow> CP_FLAGS \<Rightarrow> HRESULT + nat \<times> nat" where
  "linear_pitch fmt w h flags =
     (let bpp = (if has_flag flags CP_FLAGS_24BPP then 24
                 else if has_flag flags CP_FLAGS_16BPP then 16
                 else if has_flag flags CP_FLAGS_8BPP then 8
                 else BitsPerPixel fmt)
      in if bpp = 0 then Inl E_INVALIDARG
         else if has_flag flags (CP_FLAGS_LEGACY_DWORD OR CP_FLAGS_PARAGRAPH OR CP_FLAGS_YMM OR
                                 CP_FLAGS_ZMM OR CP_FLAGS_PAGE4K) then
           (if has_flag flags CP_FLAGS_PAGE4K then
              (let pitch = u64 ((u64 (u64 (u64 w * bpp) + 32767) div 32768) * 4096)
               in Inr (pitch, u64 (pitch * u64 h)))
            else if has_flag flags CP_FLAGS_ZMM then
              (let pitch = u64 ((u64 (u64 (u64 w * bpp) + 511) div 512) * 64)
               in Inr (pitch, u64 (pitch * u64 h)))
            else if has_flag flags CP_FLAGS_YMM then
              (let pitch = u64 ((u64 (u64 (u64 w * bpp) + 255) div 256) * 32)
               in Inr (pitch, u64 (pitch * u64 h)))
            else if has_flag flags CP_FLAGS_PARAGRAPH then
              (let pitch = u64 ((u64 (u64 (u64 w * bpp) + 127) div 128) * 16)
               in Inr (pitch, u64 (pitch * u64 h)))
            else
              (let pitch = u64 ((u64 (u64 (u64 w * bpp) + 31) div 32) * 4)
               in Inr (pitch, u64 (pitch * u64 h))))
         else
           (let pitch = u64 (u64 (u64 w * bpp) + 7) div 8
            in Inr (pitch, u64 (pitch * u64 h))))"

text \<open>
  The switch of \<^verbatim>\<open>ComputePitch\<close>: the 64-bit \<^verbatim>\<open>pitch\<close> and \<^verbatim>\<open>slice\<close> it leaves
  behind, or the early \<^verbatim>\<open>return E_INVALIDARG\<close>.
\<close>

definition ComputePitch_switch :: "nat \<Rightarrow> nat \<Rightarrow> nat \<Rightarrow> CP_FLAGS \<Rightarrow> HRESULT + nat \<times> nat" where
  "ComputePitch_switch fmt w h flags =
     (if fmt \<in> set
          [DXGI_FORMAT_BC1_TYPELESS, DXGI_FORMAT_BC1_UNORM, DXGI_FORMAT_BC1_UNORM_SRGB,
           DXGI_FORMAT_BC4_TYPELESS, DXGI_FORMAT_BC4_UNORM, DXGI_FORMAT_BC4_SNORM] then
        Inr (bc_pitch 8 w h flags)
      else if fmt \<in> set
          [DXGI_FORMAT_BC2_TYPELESS, DXGI_FORMAT_BC2_UNORM, DXGI_FORMAT_BC2_UNORM_SRGB,
           DXGI_FORMAT_BC3_TYPELESS, DXGI_FORMAT_BC3_UNORM, DXGI_FORMAT_BC3_UNORM_SRGB,
           DXGI_FORMAT_BC5_TYPELESS, DXGI_FORMAT_BC5_UNORM, DXGI_FORMAT_BC5_SNORM,
           DXGI_FORMAT_BC6H_TYPELESS, DXGI_FORMAT_BC6H_UF16, DXGI_FORMAT_BC6H_SF16,
           DXGI_FORMAT_BC7_TYPELESS, DXGI_FORMAT_BC7_UNORM, DXGI_FORMAT_BC7_UNORM_SRGB] then
        Inr (bc_pitch 16 w h flags)
      else if fmt \<in> set
          [DXGI_FORMAT_R8G8_B8G8_UNORM, DXGI_FORMAT_G8R8_G8B8_UNORM, DXGI_FORMAT_YUY2] then
        (let pitch = u64 ((u64 (u64 w + 1) div 2) * 4)
         in Inr (pitch, u64 (pitch * u64 h)))
      else if fmt \<in> set
          [DXGI_FORMAT_Y210, DXGI_FORMAT_Y216] then
        (let pitch = u64 ((u64 (u64 w + 1) div 2) * 8)
         in Inr (pitch, u64 (pitch * u64 h)))
      else if fmt \<in> set
          [DXGI_FORMAT_NV12, DXGI_FORMAT_420_OPAQUE] then
        (let pitch = u64 ((u64 (u64 w + 1) div 2) * 2)
         in Inr (pitch, u64 (pitch * u64 (u64 h + (u64 (u64 h + 1) div 2)))))
      else if fmt \<in> set
          [DXGI_FORMAT_P010, DXGI_FORMAT_P016, XBOX_DXGI_FORMAT_D16_UNORM_S8_UINT,
           XBOX_DXGI_FORMAT_R16_UNORM_X8_TYPELESS, XBOX_DXGI_FORMAT_X16_TYPELESS_G8_UINT] then
        (let pitch = u64 ((u64 (u64 w + 1) div 2) * 4)
         in Inr (pitch, u64 (pitch * u64 (u64 h + (u64 (u64 h + 1) div 2)))))
      else if fmt \<in> set
          [DXGI_FORMAT_NV11] then
        (let pitch = u64 ((u64 (u64 w + 3) div 4) * 4)
         in Inr (pitch, u64 (u64 (pitch * u64 h) * 2)))
      else if fmt \<in> set
          [WIN10_DXGI_FORMAT_P208] then
        (let pitch = u64 ((u64 (u64 w + 1) div 2) * 2)
         in Inr (pitch, u64 (u64 (pitch * u64 h) * 2)))
      else if fmt \<in> set
          [WIN10_DXGI_FORMAT_V208] then
        (let pitch = u64 w
         in Inr (pitch, u64 (pitch * u64 (u64 h + u64 ((u64 (u64 h + 1) div 2) * 2)))))
      else if fmt \<in> set
          [WIN10_DXGI_FORMAT_V408] then
        (let pitch = u64 w
         in Inr (pitch, u64 (pitch * u64 (u64 h + u64 (u64 (h div 2) * 4)))))
      else linear_pitch fmt w h flags)"

text \<open>
  \<^verbatim>\<open>ComputePitch\<close>. The source returns an \<^verbatim>\<open>HRESULT\<close> and writes \<^verbatim>\<open>rowPitch\<close> and
  \<^verbatim>\<open>slicePitch\<close> through references; here a failure is \<open>Inl\<close> of the code and success
  is \<open>Inr\<close> of the two pitches. Only a 32-bit target compiles the overflow test.
\<close>

definition ComputePitch :: "arch \<Rightarrow> nat \<Rightarrow> nat \<Rightarrow> nat \<Rightarrow> CP_FLAGS \<Rightarrow> HRESULT + nat \<times> nat" where
  "ComputePitch a fmt w h flags =
     (case ComputePitch_switch fmt w h flags of
        Inl hr \<Rightarrow> Inl hr
      | Inr (pitch, slc) \<Rightarrow>
          if a = Arch32 \<and> (pitch > UINT32_MAX \<or> slc > UINT32_MAX)
          then Inl HRESULT_E_ARITHMETIC_OVERFLOW
          else Inr (size_t a pitch, size_t a slc))"

text \<open>
  The pitches as the specification means them: the formulas of section 4.2 over the
  natural numbers, where no sum or product is reduced modulo \<open>2 ^ 64\<close>. They are the
  reference against which the overflow behaviour of \<^verbatim>\<open>ComputePitch\<close> is stated. The
  floors of 1 on the block counts, and under the bad-tails policy on the pitches, are
  those of the code.
\<close>

definition bc_exact :: "nat \<Rightarrow> nat \<Rightarrow> nat \<Rightarrow> CP_FLAGS \<Rightarrow> nat \<times> nat" where
  "bc_exact bytes w h flags =
     (if has_flag flags CP_FLAGS_BAD_DXTN_TAILS then
        (let pitch = max 1 ((w div 4) * bytes)
         in (pitch, max 1 (pitch * (h div 4))))
      else
        (let pitch = max 1 ((w + 3) div 4) * bytes
         in (pitch, pitch * max 1 ((h + 3) div 4))))"

definition linear_exact :: "nat \<Rightarrow> nat \<Rightarrow> nat \<Rightarrow> CP_FLAGS \<Rightarrow> HRESULT + nat \<times> nat" where
  "linear_exact fmt w h flags =
     (let bpp = (if has_flag flags CP_FLAGS_24BPP then 24
                 else if has_flag flags CP_FLAGS_16BPP then 16
                 else if has_flag flags CP_FLAGS_8BPP then 8
                 else BitsPerPixel fmt)
      in if bpp = 0 then Inl E_INVALIDARG
         else
           (let pitch =
                  (if has_flag flags CP_FLAGS_PAGE4K then ((w * bpp + 32767) div 32768) * 4096
                   else if has_flag flags CP_FLAGS_ZMM then ((w * bpp + 511) div 512) * 64
                   else if has_flag flags CP_FLAGS_YMM then ((w * bpp + 255) div 256) * 32
                   else if has_flag flags CP_FLAGS_PARAGRAPH then ((w * bpp + 127) div 128) * 16
                   else if has_flag flags CP_FLAGS_LEGACY_DWORD then ((w * bpp + 31) div 32) * 4
                   else (w * bpp + 7) div 8)
            in Inr (pitch, pitch * h)))"

definition exact_pitch :: "nat \<Rightarrow> nat \<Rightarrow> nat \<Rightarrow> CP_FLAGS \<Rightarrow> HRESULT + nat \<times> nat" where
  "exact_pitch fmt w h flags =
     (if fmt \<in> set
          [DXGI_FORMAT_BC1_TYPELESS, DXGI_FORMAT_BC1_UNORM, DXGI_FORMAT_BC1_UNORM_SRGB,
           DXGI_FORMAT_BC4_TYPELESS, DXGI_FORMAT_BC4_UNORM, DXGI_FORMAT_BC4_SNORM] then
        Inr (bc_exact 8 w h flags)
      else if fmt \<in> set
          [DXGI_FORMAT_BC2_TYPELESS, DXGI_FORMAT_BC2_UNORM, DXGI_FORMAT_BC2_UNORM_SRGB,
           DXGI_FORMAT_BC3_TYPELESS, DXGI_FORMAT_BC3_UNORM, DXGI_FORMAT_BC3_UNORM_SRGB,
           DXGI_FORMAT_BC5_TYPELESS, DXGI_FORMAT_BC5_UNORM, DXGI_FORMAT_BC5_SNORM,
           DXGI_FORMAT_BC6H_TYPELESS, DXGI_FORMAT_BC6H_UF16, DXGI_FORMAT_BC6H_SF16,
           DXGI_FORMAT_BC7_TYPELESS, DXGI_FORMAT_BC7_UNORM, DXGI_FORMAT_BC7_UNORM_SRGB] then
        Inr (bc_exact 16 w h flags)
      else if fmt \<in> set
          [DXGI_FORMAT_R8G8_B8G8_UNORM, DXGI_FORMAT_G8R8_G8B8_UNORM, DXGI_FORMAT_YUY2] then
        Inr (((w + 1) div 2) * 4, ((w + 1) div 2) * 4 * h)
      else if fmt \<in> set
          [DXGI_FORMAT_Y210, DXGI_FORMAT_Y216] then
        Inr (((w + 1) div 2) * 8, ((w + 1) div 2) * 8 * h)
      else if fmt \<in> set
          [DXGI_FORMAT_NV12, DXGI_FORMAT_420_OPAQUE] then
        Inr (((w + 1) div 2) * 2, ((w + 1) div 2) * 2 * (h + (h + 1) div 2))
      else if fmt \<in> set
          [DXGI_FORMAT_P010, DXGI_FORMAT_P016, XBOX_DXGI_FORMAT_D16_UNORM_S8_UINT,
           XBOX_DXGI_FORMAT_R16_UNORM_X8_TYPELESS, XBOX_DXGI_FORMAT_X16_TYPELESS_G8_UINT] then
        Inr (((w + 1) div 2) * 4, ((w + 1) div 2) * 4 * (h + (h + 1) div 2))
      else if fmt \<in> set
          [DXGI_FORMAT_NV11] then
        Inr (((w + 3) div 4) * 4, ((w + 3) div 4) * 4 * h * 2)
      else if fmt \<in> set
          [WIN10_DXGI_FORMAT_P208] then
        Inr (((w + 1) div 2) * 2, ((w + 1) div 2) * 2 * h * 2)
      else if fmt \<in> set
          [WIN10_DXGI_FORMAT_V208] then
        Inr (w, w * (h + ((h + 1) div 2) * 2))
      else if fmt \<in> set
          [WIN10_DXGI_FORMAT_V408] then
        Inr (w, w * (h + (h div 2) * 4))
      else linear_exact fmt w h flags)"

text \<open>
  The size of one block of a block-compressed format as the specification gives it:
  8 bytes for BC1 and BC4, 16 for BC2, BC3, BC5, BC6H and BC7.
\<close>

definition block_bytes :: "nat \<Rightarrow> nat" where
  "block_bytes fmt =
     (if fmt \<in> set [DXGI_FORMAT_BC1_TYPELESS, DXGI_FORMAT_BC1_UNORM, DXGI_FORMAT_BC1_UNORM_SRGB,
                     DXGI_FORMAT_BC4_TYPELESS, DXGI_FORMAT_BC4_UNORM, DXGI_FORMAT_BC4_SNORM]
      then 8 else 16)"

section \<open>Image layout\<close>

text \<open>
  \<^verbatim>\<open>struct Image\<close>. The field \<open>pixels\<close> is a pointer into the pixel buffer; it is
  modelled as the byte offset from the start of that buffer. The fields that share a name
  with \<^verbatim>\<open>TexMetadata\<close> carry the prefix \<open>img_\<close>.
\<close>

record Image =
  img_width :: nat
  img_height :: nat
  img_format :: nat
  rowPitch :: nat
  slicePitch :: nat
  pixels :: nat

text \<open>One step down a mip chain, as the loops write it: \<^verbatim>\<open>if (x > 1) x >>= 1;\<close>\<close>

definition next_mip :: "nat \<Rightarrow> nat" where
  "next_mip x = (if x > 1 then x div 2 else x)"

subsection \<open>\<^verbatim>\<open>DetermineImageArray\<close>\<close>

text \<open>
  The loops of \<^verbatim>\<open>DetermineImageArray\<close>, innermost first. Each takes the number of
  iterations that remain and the loop state: the running \<^verbatim>\<open>uint64_t totalPixelSize\<close> and the
  \<^verbatim>\<open>size_t nimages\<close>. A failing \<^verbatim>\<open>ComputePitch\<close> ends the function with \<open>None\<close>.
\<close>

fun Determine_mips ::
  "arch \<Rightarrow> nat \<Rightarrow> CP_FLAGS \<Rightarrow> nat \<Rightarrow> nat \<Rightarrow> nat \<Rightarrow> nat \<Rightarrow> nat \<Rightarrow> (nat \<times> nat) option" where
  "Determine_mips a fmt flags 0 w h totalSize n = Some (totalSize, n)"
| "Determine_mips a fmt flags (Suc k) w h totalSize n =
     (case ComputePitch a fmt w h flags of
        Inl hr \<Rightarrow> None
      | Inr (rp, sp) \<Rightarrow>
          Determine_mips a fmt flags k (next_mip w) (next_mip h)
            (u64 (totalSize + u64 sp)) (size_t a (n + 1)))"

fun Determine_items ::
  "arch \<Rightarrow> nat \<Rightarrow> CP_FLAGS \<Rightarrow> nat \<Rightarrow> nat \<Rightarrow> nat \<Rightarrow> nat \<Rightarrow> nat \<Rightarrow> nat \<Rightarrow> (nat \<times> nat) option" where
  "Determine_items a fmt flags 0 levels w h totalSize n = Some (totalSize, n)"
| "Determine_items a fmt flags (Suc k) levels w h totalSize n =
     (case Determine_mips a fmt flags levels w h totalSize n of
        None \<Rightarrow> None
      | Some (totalSize', n') \<Rightarrow> Determine_items a fmt flags k levels w h totalSize' n')"

fun Determine_slices :: "arch \<Rightarrow> nat \<Rightarrow> nat \<Rightarrow> nat \<Rightarrow> nat \<Rightarrow> nat \<times> nat" where
  "Determine_slices a 0 sp totalSize n = (totalSize, n)"
| "Determine_slices a (Suc k) sp totalSize n =
     Determine_slices a k sp (u64 (totalSize + u64 sp)) (size_t a (n + 1))"

fun Determine_volume ::
  "arch \<Rightarrow> nat \<Rightarrow> CP_FLAGS \<Rightarrow> nat \<Rightarrow> nat \<Rightarrow> nat \<Rightarrow> nat \<Rightarrow> nat \<Rightarrow> nat \<Rightarrow> (nat \<times> nat) option" where
  "Determine_volume a fmt flags 0 w h d totalSize n = Some (totalSize, n)"
| "Determine_volume a fmt flags (Suc k) w h d totalSize n =
     (case ComputePitch a fmt w h flags of
        Inl hr \<Rightarrow> None
      | Inr (rp, sp) \<Rightarrow>
          (case Determine_slices a d sp totalSize n of
             (totalSize', n') \<Rightarrow>
               Determine_volume a fmt flags k (next_mip w) (next_mip h) (next_mip d) totalSize' n'))"

text \<open>
  \<^verbatim>\<open>DetermineImageArray\<close> returns \<^verbatim>\<open>false\<close> (here \<open>None\<close>) or \<^verbatim>\<open>true\<close> with
  \<^verbatim>\<open>nImages\<close> and \<^verbatim>\<open>pixelSize\<close> set (here \<open>Some (nImages, pixelSize)\<close>). Only a 32-bit
  target compiles the test of the total against \<^verbatim>\<open>UINT32_MAX\<close>.
\<close>

definition DetermineImageArray :: "arch \<Rightarrow> TexMetadata \<Rightarrow> CP_FLAGS \<Rightarrow> (nat \<times> nat) option" where
  "DetermineImageArray a md cpFlags =
     (case (if dimension md = TEX_DIMENSION_TEXTURE1D \<or> dimension md = TEX_DIMENSION_TEXTURE2D
            then Determine_items a (format md) cpFlags (arraySize md) (mipLevels md)
                   (width md) (height md) 0 0
            else if dimension md = TEX_DIMENSION_TEXTURE3D
            then Determine_volume a (format md) cpFlags (mipLevels md)
                   (width md) (height md) (depth md) 0 0
            else None) of
        None \<Rightarrow> None
      | Some (totalPixelSize, nimages) \<Rightarrow>
          if a = Arch32 \<and> totalPixelSize > UINT32_MAX then None
          else Some (nimages, size_t a totalPixelSize))"

subsection \<open>\<^verbatim>\<open>SetupImageArray\<close>\<close>

text \<open>
  The loops of \<^verbatim>\<open>SetupImageArray\<close>. The state is the \<^verbatim>\<open>index\<close>, the cursor
  \<^verbatim>\<open>pixels\<close> (an offset from \<^verbatim>\<open>pMemory\<close>, so \<^verbatim>\<open>pEndBits\<close> is \<^verbatim>\<open>pixelSize\<close>) and the
  caller's array \<^verbatim>\<open>images\<close> of \<^verbatim>\<open>nImages\<close> descriptors, which the loop fills in place.
  Every \<^verbatim>\<open>return false\<close> is \<open>None\<close>.
\<close>

definition write_image :: "Image list \<Rightarrow> nat \<Rightarrow> nat \<Rightarrow> nat \<Rightarrow> nat \<Rightarrow> nat \<Rightarrow> nat \<Rightarrow> nat \<Rightarrow> Image list" where
  "write_image images index w h fmt rp sp px =
     images[index := \<lparr>img_width = w, img_height = h, img_format = fmt,
                       rowPitch = rp, slicePitch = sp, pixels = px\<rparr>]"

fun Setup_mips ::
  "arch \<Rightarrow> nat \<Rightarrow> CP_FLAGS \<Rightarrow> nat \<Rightarrow> nat \<Rightarrow> nat \<Rightarrow> nat \<Rightarrow> nat \<Rightarrow>
   nat \<Rightarrow> nat \<Rightarrow> Image list \<Rightarrow> (nat \<times> nat \<times> Image list) option" where
  "Setup_mips a fmt flags nImages pEndBits 0 w h index px images = Some (index, px, images)"
| "Setup_mips a fmt flags nImages pEndBits (Suc k) w h index px images =
     (if index \<ge> nImages then None
      else case ComputePitch a fmt w h flags of
        Inl hr \<Rightarrow> None
      | Inr (rp, sp) \<Rightarrow>
          (let images' = write_image images index w h fmt rp sp px;
               index' = size_t a (index + 1);
               px' = px + sp
           in if px' > pEndBits then None
              else Setup_mips a fmt flags nImages pEndBits k (next_mip w) (next_mip h)
                     index' px' images'))"

fun Setup_items ::
  "arch \<Rightarrow> nat \<Rightarrow> CP_FLAGS \<Rightarrow> nat \<Rightarrow> nat \<Rightarrow> nat \<Rightarrow> nat \<Rightarrow> nat \<Rightarrow> nat \<Rightarrow>
   nat \<Rightarrow> nat \<Rightarrow> Image list \<Rightarrow> (nat \<times> nat \<times> Image list) option" where
  "Setup_items a fmt flags nImages pEndBits 0 levels w h index px images =
     Some (index, px, images)"
| "Setup_items a fmt flags nImages pEndBits (Suc k) levels w h index px images =
     (case Setup_mips a fmt flags nImages pEndBits levels w h index px images of
        None \<Rightarrow> None
      | Some (index', px', images') \<Rightarrow>
          Setup_items a fmt flags nImages pEndBits k levels w h index' px' images')"

fun Setup_slices ::
  "arch \<Rightarrow> nat \<Rightarrow> nat \<Rightarrow> nat \<Rightarrow> nat \<Rightarrow> nat \<Rightarrow> nat \<Rightarrow> nat \<Rightarrow> nat \<Rightarrow>
   nat \<Rightarrow> nat \<Rightarrow> Image list \<Rightarrow> (nat \<times> nat \<times> Image list) option" where
  "Setup_slices a fmt nImages pEndBits 0 w h rp sp index px images = Some (index, px, images)"
| "Setup_slices a fmt nImages pEndBits (Suc k) w h rp sp index px images =
     (if index \<ge> nImages then None
      else
        (let images' = write_image images index w h fmt rp sp px;
             index' = size_t a (index + 1);
             px' = px + sp
         in if px' > pEndBits then None
            else Setup_slices a fmt nImages pEndBits k w h rp sp index' px' images'))"

fun Setup_volume ::
  "arch \<Rightarrow> nat \<Rightarrow> CP_FLAGS \<Rightarrow> nat \<Rightarrow> nat \<Rightarrow> nat \<Rightarrow> nat \<Rightarrow> nat \<Rightarrow> nat \<Rightarrow>
   nat \<Rightarrow> nat \<Rightarrow> Image list \<Rightarrow> (nat \<times> nat \<times> Image list) option" where
  "Setup_volume a fmt flags nImages pEndBits 0 w h d index px images =
     Some (index, px, images)"
| "Setup_volume a fmt flags nImages pEndBits (Suc k) w h d index px images =
     (case ComputePitch a fmt w h flags of
        Inl hr \<Rightarrow> None
      | Inr (rp, sp) \<Rightarrow>
          (case Setup_slices a fmt nImages pEndBits d w h rp sp index px images of
             None \<Rightarrow> None
           | Some (index', px', images') \<Rightarrow>
               Setup_volume a fmt flags nImages pEndBits k (next_mip w) (next_mip h)
                 (next_mip d) index' px' images'))"

text \<open>
  \<^verbatim>\<open>SetupImageArray(pMemory, pixelSize, metadata, cpFlags, images, nImages)\<close>: \<open>None\<close>
  for \<^verbatim>\<open>false\<close>, and for \<^verbatim>\<open>true\<close> the array as the function leaves it. Pointers are
  modelled by what they point to, so the test \<^verbatim>\<open>if (!images)\<close> has no counterpart.
\<close>

definition SetupImageArray ::
  "arch \<Rightarrow> nat \<Rightarrow> TexMetadata \<Rightarrow> CP_FLAGS \<Rightarrow> Image list \<Rightarrow> nat \<Rightarrow> Image list option" where
  "SetupImageArray a pixelSize md cpFlags images nImages =
     (if dimension md = TEX_DIMENSION_TEXTURE1D \<or> dimension md = TEX_DIMENSION_TEXTURE2D then
        (if arraySize md = 0 \<or> mipLevels md = 0 then None
         else case Setup_items a (format md) cpFlags nImages pixelSize (arraySize md)
                     (mipLevels md) (width md) (height md) 0 0 images of
                None \<Rightarrow> None
              | Some (index, px, images') \<Rightarrow> Some images')
      else if dimension md = TEX_DIMENSION_TEXTURE3D then
        (if mipLevels md = 0 \<or> depth md = 0 then None
         else case Setup_volume a (format md) cpFlags nImages pixelSize (mipLevels md)
                     (width md) (height md) (depth md) 0 0 images of
                None \<Rightarrow> None
              | Some (index, px, images') \<Rightarrow> Some images')
      else None)"

text \<open>
  The invariants of \<open>ImageMetadata\<close> in the specification that the layout needs: every
  dimension and count at least 1, width and height at most 16384, at most 15 mip
  levels, array size and depth at most 2048 (the bounds \<^verbatim>\<open>DecodeDDSHeader\<close> enforces).
\<close>

definition valid_metadata :: "TexMetadata \<Rightarrow> bool" where
  "valid_metadata md =
     (1 \<le> width md \<and> width md \<le> 16384 \<and> 1 \<le> height md \<and> height md \<le> 16384 \<and>
      1 \<le> depth md \<and> depth md \<le> 2048 \<and> 1 \<le> arraySize md \<and> arraySize md \<le> 2048 \<and>
      1 \<le> mipLevels md \<and> mipLevels md \<le> 15)"

text \<open>
  The loop invariant of \<^verbatim>\<open>SetupImageArray\<close>, for the metadata's format, the policy
  flags and the top-level width \<open>W\<close> and height \<open>H\<close>: the descriptors below \<open>index\<close>
  are written, each with the format, with the pitches \<^verbatim>\<open>ComputePitch\<close> gives for its own
  width and height, and at the offset where the one before it ends, the first one at
  offset 0 with the top-level dimensions; the cursor stands where the last one ends.
\<close>

definition laid_out ::
  "arch \<Rightarrow> nat \<Rightarrow> CP_FLAGS \<Rightarrow> nat \<Rightarrow> nat \<Rightarrow> nat \<Rightarrow> nat \<Rightarrow> Image list \<Rightarrow> bool" where
  "laid_out a fmt flags W H index px images =
     (index \<le> length images \<and>
      px = (\<Sum>j<index. slicePitch (images ! j)) \<and>
      (0 < index \<longrightarrow> img_width (images ! 0) = W \<and> img_height (images ! 0) = H) \<and>
      (\<forall>i<index.
         img_format (images ! i) = fmt \<and>
         ComputePitch a fmt (img_width (images ! i)) (img_height (images ! i)) flags
           = Inr (rowPitch (images ! i), slicePitch (images ! i)) \<and>
         pixels (images ! i) = (\<Sum>j<i. slicePitch (images ! j))))"

text \<open>
  The width or the height of a mip level as the specification words it: the top-level
  value halved once per level, rounding down, never below 1.
\<close>

definition mip_extent :: "nat \<Rightarrow> nat \<Rightarrow> nat" where
  "mip_extent x level = ((\<lambda>y. max 1 (y div 2)) ^^ level) x"

text \<open>A zeroed descriptor, as \<^verbatim>\<open>memset\<close> leaves a fresh array.\<close>

definition blank_image :: Image where
  "blank_image = \<lparr>img_width = 0, img_height = 0, img_format = 0,
                   rowPitch = 0, slicePitch = 0, pixels = 0\<rparr>"

section \<open>Scanline transcoding\<close>

text \<open>
  Pixel memory is a list of bytes. The code reads and writes 16- and 32-bit values
  through cast pointers on little-endian targets; \<open>load16\<close>, \<open>load32\<close> and
  \<open>store32\<close> do the same at a byte offset.
\<close>

type_synonym byte = "8 word"

definition load16 :: "byte list \<Rightarrow> nat \<Rightarrow> 16 word" where
  "load16 mem off = ucast (mem ! off) OR push_bit 8 (ucast (mem ! (off + 1)))"

definition load32 :: "byte list \<Rightarrow> nat \<Rightarrow> 32 word" where
  "load32 mem off =
     ucast (mem ! off) OR push_bit 8 (ucast (mem ! (off + 1))) OR
     push_bit 16 (ucast (mem ! (off + 2))) OR push_bit 24 (ucast (mem ! (off + 3)))"

definition store32 :: "byte list \<Rightarrow> nat \<Rightarrow> 32 word \<Rightarrow> byte list" where
  "store32 mem off v =
     mem[off := ucast v, off + 1 := ucast (drop_bit 8 v),
         off + 2 := ucast (drop_bit 16 v), off + 3 := ucast (drop_bit 24 v)]"

text \<open>\<^verbatim>\<open>memcpy(dst, src, n)\<close> for buffers that hold at least \<open>n\<close> bytes.\<close>

definition memcpy :: "byte list \<Rightarrow> byte list \<Rightarrow> nat \<Rightarrow> byte list" where
  "memcpy dst src n = take n src @ drop n dst"

text \<open>\<^verbatim>\<open>enum TEXP_SCANLINE_FLAGS\<close>\<close>

definition TEXP_SCANLINE_NONE :: "32 word" where "TEXP_SCANLINE_NONE = 0"
definition TEXP_SCANLINE_SETALPHA :: "32 word" where "TEXP_SCANLINE_SETALPHA = 0x1"
definition TEXP_SCANLINE_LEGACY :: "32 word" where "TEXP_SCANLINE_LEGACY = 0x2"

subsection \<open>\<^verbatim>\<open>ExpandScanline\<close>\<close>

text \<open>
  The three loop bodies: one 16-bit source pixel \<open>t\<close> to one 32-bit destination pixel.
  The operands are promoted to 32 bits before the shifts, as in C.
\<close>

definition expand_565 :: "16 word \<Rightarrow> 32 word" where
  "expand_565 t16 =
     (let t = (ucast t16 :: 32 word);
          t1 = drop_bit 8 (t AND 0xf800) OR drop_bit 13 (t AND 0xe000);
          t2 = push_bit 5 (t AND 0x07e0) OR drop_bit 5 (t AND 0x0600);
          t3 = push_bit 19 (t AND 0x001f) OR push_bit 14 (t AND 0x001c)
      in t1 OR t2 OR t3 OR 0xff000000)"

definition expand_5551 :: "32 word \<Rightarrow> 16 word \<Rightarrow> 32 word" where
  "expand_5551 tflags t16 =
     (let t = (ucast t16 :: 32 word);
          t1 = drop_bit 7 (t AND 0x7c00) OR drop_bit 12 (t AND 0x7000);
          t2 = push_bit 6 (t AND 0x03e0) OR push_bit 1 (t AND 0x0380);
          t3 = push_bit 19 (t AND 0x001f) OR push_bit 14 (t AND 0x001c);
          ta = (if has_flag tflags TEXP_SCANLINE_SETALPHA then 0xff000000
                else if t AND 0x8000 \<noteq> 0 then 0xff000000 else 0)
      in t1 OR t2 OR t3 OR ta)"

definition expand_4444 :: "32 word \<Rightarrow> 16 word \<Rightarrow> 32 word" where
  "expand_4444 tflags t16 =
     (let t = (ucast t16 :: 32 word);
          t1 = drop_bit 4 (t AND 0x0f00) OR drop_bit 8 (t AND 0x0f00);
          t2 = push_bit 8 (t AND 0x00f0) OR push_bit 4 (t AND 0x00f0);
          t3 = push_bit 20 (t AND 0x000f) OR push_bit 16 (t AND 0x000f);
          ta = (if has_flag tflags TEXP_SCANLINE_SETALPHA then 0xff000000
                else push_bit 16 (t AND 0xf000) OR push_bit 12 (t AND 0xf000))
      in t1 OR t2 OR t3 OR ta)"

text \<open>
  The loop
  \<^verbatim>\<open>for (ocount = 0, icount = 0; icount < inSize - 1 && ocount < outSize - 3; icount += 2, ocount += 4)\<close>,
  entered only when \<^verbatim>\<open>inSize >= 2 && outSize >= 4\<close>.
\<close>

function expand_loop ::
  "(16 word \<Rightarrow> 32 word) \<Rightarrow> byte list \<Rightarrow> nat \<Rightarrow> nat \<Rightarrow> nat \<Rightarrow> nat \<Rightarrow> byte list \<Rightarrow> byte list" where
  "expand_loop f src inSize outSize icount ocount dst =
     (if icount < inSize - 1 \<and> ocount < outSize - 3
      then expand_loop f src inSize outSize (icount + 2) (ocount + 4)
             (store32 dst ocount (f (load16 src icount)))
      else dst)"
  by pat_completeness auto
termination
  by (relation "measure (\<lambda>(f, src, inSize, outSize, icount, ocount, dst). inSize - icount)") auto

declare expand_loop.simps [simp del]

text \<open>
  \<^verbatim>\<open>ExpandScanline\<close> returns its \<^verbatim>\<open>bool\<close> together with the destination buffer as it
  leaves it.
\<close>

definition ExpandScanline ::
  "byte list \<Rightarrow> nat \<Rightarrow> nat \<Rightarrow> byte list \<Rightarrow> nat \<Rightarrow> nat \<Rightarrow> 32 word \<Rightarrow> bool \<times> byte list" where
  "ExpandScanline dst outSize outFormat src inSize inFormat tflags =
     (if inFormat = DXGI_FORMAT_B5G6R5_UNORM then
        (if outFormat \<noteq> DXGI_FORMAT_R8G8B8A8_UNORM then (False, dst)
         else if inSize \<ge> 2 \<and> outSize \<ge> 4
              then (True, expand_loop expand_565 src inSize outSize 0 0 dst)
         else (False, dst))
      else if inFormat = DXGI_FORMAT_B5G5R5A1_UNORM then
        (if outFormat \<noteq> DXGI_FORMAT_R8G8B8A8_UNORM then (False, dst)
         else if inSize \<ge> 2 \<and> outSize \<ge> 4
              then (True, expand_loop (expand_5551 tflags) src inSize outSize 0 0 dst)
         else (False, dst))
      else if inFormat = DXGI_FORMAT_B4G4R4A4_UNORM then
        (if outFormat \<noteq> DXGI_FORMAT_R8G8B8A8_UNORM then (False, dst)
         else if inSize \<ge> 2 \<and> outSize \<ge> 4
              then (True, expand_loop (expand_4444 tflags) src inSize outSize 0 0 dst)
         else (False, dst))
      else (False, dst))"

subsection \<open>\<^verbatim>\<open>SwizzleScanline\<close>\<close>

text \<open>The three loop bodies: one 32-bit pixel \<open>t\<close> to one 32-bit pixel.\<close>

definition swizzle_1010102 :: "32 word \<Rightarrow> 32 word \<Rightarrow> 32 word" where
  "swizzle_1010102 tflags t =
     (let t1 = drop_bit 20 (t AND 0x3ff00000);
          t2 = push_bit 20 (t AND 0x000003ff);
          t3 = t AND 0x000ffc00;
          ta = (if has_flag tflags TEXP_SCANLINE_SETALPHA then 0xC0000000
                else t AND 0xC0000000)
      in t1 OR t2 OR t3 OR ta)"

definition swizzle_8888 :: "32 word \<Rightarrow> 32 word \<Rightarrow> 32 word" where
  "swizzle_8888 tflags t =
     (let t1 = drop_bit 16 (t AND 0x00ff0000);
          t2 = push_bit 16 (t AND 0x000000ff);
          t3 = t AND 0x0000ff00;
          ta = (if has_flag tflags TEXP_SCANLINE_SETALPHA then 0xff000000
                else t AND 0xFF000000)
      in t1 OR t2 OR t3 OR ta)"

definition swizzle_yuy2 :: "32 word \<Rightarrow> 32 word" where
  "swizzle_yuy2 t =
     (let t1 = push_bit 8 (t AND 0x000000ff);
          t2 = drop_bit 8 (t AND 0x0000ff00);
          t3 = push_bit 8 (t AND 0x00ff0000);
          t4 = drop_bit 8 (t AND 0xff000000)
      in t1 OR t2 OR t3 OR t4)"

text \<open>
  The in-place loop \<^verbatim>\<open>for (count = 0; count < outSize - 3; count += 4)\<close> reads and
  writes through the one pointer; the copying loop reads the source and writes the
  destination up to \<^verbatim>\<open>min(outSize, inSize)\<close>.
\<close>

function swizzle_inplace :: "(32 word \<Rightarrow> 32 word) \<Rightarrow> byte list \<Rightarrow> nat \<Rightarrow> nat \<Rightarrow> byte list" where
  "swizzle_inplace f mem n count =
     (if count < n - 3
      then swizzle_inplace f (store32 mem count (f (load32 mem count))) n (count + 4)
      else mem)"
  by pat_completeness auto
termination
  by (relation "measure (\<lambda>(f, mem, n, count). n - count)") auto

declare swizzle_inplace.simps [simp del]

function swizzle_copy ::
  "(32 word \<Rightarrow> 32 word) \<Rightarrow> byte list \<Rightarrow> byte list \<Rightarrow> nat \<Rightarrow> nat \<Rightarrow> byte list" where
  "swizzle_copy f src dst n count =
     (if count < n - 3
      then swizzle_copy f src (store32 dst count (f (load32 src count))) n (count + 4)
      else dst)"
  by pat_completeness auto
termination
  by (relation "measure (\<lambda>(f, src, dst, n, count). n - count)") auto

declare swizzle_copy.simps [simp del]

text \<open>
  The source pointer is either the destination pointer itself (\<open>None\<close>: the in-place
  call) or another, non-overlapping buffer (\<open>Some src\<close>).
\<close>

definition swizzle_pixels ::
  "(32 word \<Rightarrow> 32 word) \<Rightarrow> byte list \<Rightarrow> nat \<Rightarrow> byte list option \<Rightarrow> nat \<Rightarrow> byte list" where
  "swizzle_pixels f dst outSize src inSize =
     (case src of
        None \<Rightarrow> swizzle_inplace f dst outSize 0
      | Some s \<Rightarrow> swizzle_copy f s dst (min outSize inSize) 0)"

text \<open>The code after the switch: nothing in place, \<^verbatim>\<open>memcpy\<close> otherwise.\<close>

definition swizzle_fallthrough ::
  "byte list \<Rightarrow> nat \<Rightarrow> byte list option \<Rightarrow> nat \<Rightarrow> byte list" where
  "swizzle_fallthrough dst outSize src inSize =
     (case src of
        None \<Rightarrow> dst
      | Some s \<Rightarrow> memcpy dst s (min outSize inSize))"

text \<open>The two groups of case labels whose pixels are swizzled.\<close>

definition swizzle_formats_1010102 :: "nat list" where
  "swizzle_formats_1010102 =
     [DXGI_FORMAT_R10G10B10A2_TYPELESS, DXGI_FORMAT_R10G10B10A2_UNORM,
      DXGI_FORMAT_R10G10B10A2_UINT, DXGI_FORMAT_R10G10B10_XR_BIAS_A2_UNORM,
      XBOX_DXGI_FORMAT_R10G10B10_SNORM_A2_UNORM]"

definition swizzle_formats_8888 :: "nat list" where
  "swizzle_formats_8888 =
     [DXGI_FORMAT_R8G8B8A8_TYPELESS, DXGI_FORMAT_R8G8B8A8_UNORM,
      DXGI_FORMAT_R8G8B8A8_UNORM_SRGB, DXGI_FORMAT_B8G8R8A8_UNORM,
      DXGI_FORMAT_B8G8R8X8_UNORM, DXGI_FORMAT_B8G8R8A8_TYPELESS,
      DXGI_FORMAT_B8G8R8A8_UNORM_SRGB, DXGI_FORMAT_B8G8R8X8_TYPELESS,
      DXGI_FORMAT_B8G8R8X8_UNORM_SRGB]"

definition SwizzleScanline ::
  "byte list \<Rightarrow> nat \<Rightarrow> byte list option \<Rightarrow> nat \<Rightarrow> nat \<Rightarrow> 32 word \<Rightarrow> byte list" where
  "SwizzleScanline dst outSize src inSize fmt tflags =
     (if fmt \<in> set swizzle_formats_1010102 then
        (if inSize \<ge> 4 \<and> outSize \<ge> 4 \<and> has_flag tflags TEXP_SCANLINE_LEGACY
         then swizzle_pixels (swizzle_1010102 tflags) dst outSize src inSize
         else swizzle_fallthrough dst outSize src inSize)
      else if fmt \<in> set swizzle_formats_8888 then
        (if inSize \<ge> 4 \<and> outSize \<ge> 4
         then swizzle_pixels (swizzle_8888 tflags) dst outSize src inSize
         else swizzle_fallthrough dst outSize src inSize)
      else if fmt = DXGI_FORMAT_YUY2 then
        (if inSize \<ge> 4 \<and> outSize \<ge> 4 \<and> has_flag tflags TEXP_SCANLINE_LEGACY
         then swizzle_pixels swizzle_yuy2 dst outSize src inSize
         else swizzle_fallthrough dst outSize src inSize)
      else swizzle_fallthrough dst outSize src inSize)"

text \<open>
  The channels of a pixel as the specification names them. An 8:8:8:8 pixel has four
  byte channels, number 0 the lowest byte (R of RGBA, B of BGRA), number 2 the third,
  number 3 alpha. A 10:10:10:2 pixel has three 10-bit channels and 2 bits of alpha.
\<close>

definition chan8 :: "nat \<Rightarrow> 32 word \<Rightarrow> 8 word" where
  "chan8 k p = ucast (drop_bit (8 * k) p)"

definition chan10 :: "nat \<Rightarrow> 32 word \<Rightarrow> 32 word" where
  "chan10 k p = drop_bit (10 * k) p AND 0x3ff"

definition alpha2 :: "32 word \<Rightarrow> 32 word" where
  "alpha2 p = drop_bit 30 p"

text \<open>
  What a call of \<^verbatim>\<open>SwizzleScanline\<close> reads and how far it goes: the source memory is
  the destination itself in place, and the loops stop at \<^verbatim>\<open>outSize\<close> in place and at
  \<^verbatim>\<open>min(outSize, inSize)\<close> when copying.
\<close>

definition source_memory :: "byte list \<Rightarrow> byte list option \<Rightarrow> byte list" where
  "source_memory dst src = (case src of None \<Rightarrow> dst | Some s \<Rightarrow> s)"

definition swizzle_extent :: "nat \<Rightarrow> byte list option \<Rightarrow> nat \<Rightarrow> nat" where
  "swizzle_extent outSize src inSize =
     (case src of None \<Rightarrow> outSize | Some s \<Rightarrow> min outSize inSize)"

definition source_fits :: "byte list option \<Rightarrow> nat \<Rightarrow> bool" where
  "source_fits src inSize = (case src of None \<Rightarrow> True | Some s \<Rightarrow> inSize \<le> length s)"

section \<open>Header decoding\<close>

subsection \<open>The file structures\<close>

text \<open>
  \<^verbatim>\<open>DDS_PIXELFORMAT\<close>, \<^verbatim>\<open>DDS_HEADER\<close> and \<^verbatim>\<open>DDS_HEADER_DXT10\<close>: records of 32-bit
  fields, read from the byte buffer in little-endian order at the offsets the C layout
  gives them. Field names that clash with \<^verbatim>\<open>TexMetadata\<close> carry a prefix.
\<close>

record DDS_PIXELFORMAT =
  pf_size :: "32 word"
  pf_flags :: "32 word"
  fourCC :: "32 word"
  RGBBitCount :: "32 word"
  RBitMask :: "32 word"
  GBitMask :: "32 word"
  BBitMask :: "32 word"
  ABitMask :: "32 word"

record DDS_HEADER =
  hdr_size :: "32 word"
  hdr_flags :: "32 word"
  hdr_height :: "32 word"
  hdr_width :: "32 word"
  pitchOrLinearSize :: "32 word"
  hdr_depth :: "32 word"
  mipMapCount :: "32 word"
  reserved1 :: "32 word list"
  ddspf :: DDS_PIXELFORMAT
  caps :: "32 word"
  caps2 :: "32 word"
  caps3 :: "32 word"
  caps4 :: "32 word"
  reserved2 :: "32 word"

record DDS_HEADER_DXT10 =
  dxgiFormat :: "32 word"
  resourceDimension :: "32 word"
  miscFlag :: "32 word"
  ext_arraySize :: "32 word"
  ext_miscFlags2 :: "32 word"

definition sizeof_DDS_PIXELFORMAT :: nat where "sizeof_DDS_PIXELFORMAT = 32"
definition sizeof_DDS_HEADER :: nat where "sizeof_DDS_HEADER = 124"
definition sizeof_DDS_HEADER_DXT10 :: nat where "sizeof_DDS_HEADER_DXT10 = 20"
definition sizeof_uint32_t :: nat where "sizeof_uint32_t = 4"

definition MAX_HEADER_SIZE :: nat where
  "MAX_HEADER_SIZE = sizeof_uint32_t + sizeof_DDS_HEADER + sizeof_DDS_HEADER_DXT10"

definition DDS_MAGIC :: "32 word" where "DDS_MAGIC = 0x20534444"

definition read_DDS_PIXELFORMAT :: "byte list \<Rightarrow> nat \<Rightarrow> DDS_PIXELFORMAT" where
  "read_DDS_PIXELFORMAT p off =
     \<lparr>pf_size = load32 p off, pf_flags = load32 p (off + 4), fourCC = load32 p (off + 8),
      RGBBitCount = load32 p (off + 12), RBitMask = load32 p (off + 16),
      GBitMask = load32 p (off + 20), BBitMask = load32 p (off + 24),
      ABitMask = load32 p (off + 28)\<rparr>"

definition read_DDS_HEADER :: "byte list \<Rightarrow> nat \<Rightarrow> DDS_HEADER" where
  "read_DDS_HEADER p off =
     \<lparr>hdr_size = load32 p off, hdr_flags = load32 p (off + 4), hdr_height = load32 p (off + 8),
      hdr_width = load32 p (off + 12), pitchOrLinearSize = load32 p (off + 16),
      hdr_depth = load32 p (off + 20), mipMapCount = load32 p (off + 24),
      reserved1 = map (\<lambda>i. load32 p (off + 28 + 4 * i)) [0..<11],
      ddspf = read_DDS_PIXELFORMAT p (off + 72),
      caps = load32 p (off + 104), caps2 = load32 p (off + 108), caps3 = load32 p (off + 112),
      caps4 = load32 p (off + 116), reserved2 = load32 p (off + 120)\<rparr>"

definition read_DDS_HEADER_DXT10 :: "byte list \<Rightarrow> nat \<Rightarrow> DDS_HEADER_DXT10" where
  "read_DDS_HEADER_DXT10 p off =
     \<lparr>dxgiFormat = load32 p off, resourceDimension = load32 p (off + 4),
      miscFlag = load32 p (off + 8), ext_arraySize = load32 p (off + 12),
      ext_miscFlags2 = load32 p (off + 16)\<rparr>"

subsection \<open>Flags and constants\<close>

definition DDS_FOURCC :: "32 word" where "DDS_FOURCC = 0x00000004"
definition DDS_RGB :: "32 word" where "DDS_RGB = 0x00000040"
definition DDS_RGBA :: "32 word" where "DDS_RGBA = 0x00000041"
definition DDS_LUMINANCE :: "32 word" where "DDS_LUMINANCE = 0x00020000"
definition DDS_LUMINANCEA :: "32 word" where "DDS_LUMINANCEA = 0x00020001"
definition DDS_ALPHAPIXELS :: "32 word" where "DDS_ALPHAPIXELS = 0x00000001"
definition DDS_ALPHA :: "32 word" where "DDS_ALPHA = 0x00000002"
definition DDS_PAL8 :: "32 word" where "DDS_PAL8 = 0x00000020"
definition DDS_PAL8A :: "32 word" where "DDS_PAL8A = 0x00000021"
definition DDS_BUMPDUDV :: "32 word" where "DDS_BUMPDUDV = 0x00080000"

definition CONV_FLAGS_NONE :: "32 word" where "CONV_FLAGS_NONE = 0x0"
definition CONV_FLAGS_EXPAND :: "32 word" where "CONV_FLAGS_EXPAND = 0x1"
definition CONV_FLAGS_NOALPHA :: "32 word" where "CONV_FLAGS_NOALPHA = 0x2"
definition CONV_FLAGS_SWIZZLE :: "32 word" where "CONV_FLAGS_SWIZZLE = 0x4"
definition CONV_FLAGS_PAL8 :: "32 word" where "CONV_FLAGS_PAL8 = 0x8"
definition CONV_FLAGS_888 :: "32 word" where "CONV_FLAGS_888 = 0x10"
definition CONV_FLAGS_565 :: "32 word" where "CONV_FLAGS_565 = 0x20"
definition CONV_FLAGS_5551 :: "32 word" where "CONV_FLAGS_5551 = 0x40"
definition CONV_FLAGS_4444 :: "32 word" where "CONV_FLAGS_4444 = 0x80"
definition CONV_FLAGS_44 :: "32 word" where "CONV_FLAGS_44 = 0x100"
definition CONV_FLAGS_332 :: "32 word" where "CONV_FLAGS_332 = 0x200"
definition CONV_FLAGS_8332 :: "32 word" where "CONV_FLAGS_8332 = 0x400"
definition CONV_FLAGS_A8P8 :: "32 word" where "CONV_FLAGS_A8P8 = 0x800"
definition CONV_FLAGS_DX10 :: "32 word" where "CONV_FLAGS_DX10 = 0x10000"
definition CONV_FLAGS_PMALPHA :: "32 word" where "CONV_FLAGS_PMALPHA = 0x20000"
definition CONV_FLAGS_L8 :: "32 word" where "CONV_FLAGS_L8 = 0x40000"
definition CONV_FLAGS_L16 :: "32 word" where "CONV_FLAGS_L16 = 0x80000"
definition CONV_FLAGS_A8L8 :: "32 word" where "CONV_FLAGS_A8L8 = 0x100000"

definition DDS_RESOURCE_MISC_TEXTURECUBE :: "32 word" where "DDS_RESOURCE_MISC_TEXTURECUBE = 0x4"
definition TEX_MISC_TEXTURECUBE :: "32 word" where "TEX_MISC_TEXTURECUBE = 0x4"
definition TEX_MISC2_ALPHA_MODE_MASK :: "32 word" where "TEX_MISC2_ALPHA_MODE_MASK = 0x7"

definition TEX_ALPHA_MODE_UNKNOWN :: "32 word" where "TEX_ALPHA_MODE_UNKNOWN = 0"
definition TEX_ALPHA_MODE_STRAIGHT :: "32 word" where "TEX_ALPHA_MODE_STRAIGHT = 1"
definition TEX_ALPHA_MODE_PREMULTIPLIED :: "32 word" where "TEX_ALPHA_MODE_PREMULTIPLIED = 2"
definition TEX_ALPHA_MODE_OPAQUE :: "32 word" where "TEX_ALPHA_MODE_OPAQUE = 3"
definition TEX_ALPHA_MODE_CUSTOM :: "32 word" where "TEX_ALPHA_MODE_CUSTOM = 4"

definition DDS_DIMENSION_TEXTURE1D :: "32 word" where "DDS_DIMENSION_TEXTURE1D = 2"
definition DDS_DIMENSION_TEXTURE2D :: "32 word" where "DDS_DIMENSION_TEXTURE2D = 3"
definition DDS_DIMENSION_TEXTURE3D :: "32 word" where "DDS_DIMENSION_TEXTURE3D = 4"

definition DDS_HEIGHT :: "32 word" where "DDS_HEIGHT = 0x00000002"
definition DDS_HEADER_FLAGS_VOLUME :: "32 word" where "DDS_HEADER_FLAGS_VOLUME = 0x00800000"

definition DDS_CUBEMAP_POSITIVEX :: "32 word" where "DDS_CUBEMAP_POSITIVEX = 0x00000600"
definition DDS_CUBEMAP_NEGATIVEX :: "32 word" where "DDS_CUBEMAP_NEGATIVEX = 0x00000a00"
definition DDS_CUBEMAP_POSITIVEY :: "32 word" where "DDS_CUBEMAP_POSITIVEY = 0x00001200"
definition DDS_CUBEMAP_NEGATIVEY :: "32 word" where "DDS_CUBEMAP_NEGATIVEY = 0x00002200"
definition DDS_CUBEMAP_POSITIVEZ :: "32 word" where "DDS_CUBEMAP_POSITIVEZ = 0x00004200"
definition DDS_CUBEMAP_NEGATIVEZ :: "32 word" where "DDS_CUBEMAP_NEGATIVEZ = 0x00008200"

definition DDS_CUBEMAP_ALLFACES :: "32 word" where
  "DDS_CUBEMAP_ALLFACES =
     DDS_CUBEMAP_POSITIVEX OR DDS_CUBEMAP_NEGATIVEX OR DDS_CUBEMAP_POSITIVEY OR
     DDS_CUBEMAP_NEGATIVEY OR DDS_CUBEMAP_POSITIVEZ OR DDS_CUBEMAP_NEGATIVEZ"

definition DDS_CUBEMAP :: "32 word" where "DDS_CUBEMAP = 0x00000200"

text \<open>\<^verbatim>\<open>MAKEFOURCC\<close>: four characters packed into a 32-bit code, the first one lowest.\<close>

definition MAKEFOURCC :: "char \<Rightarrow> char \<Rightarrow> char \<Rightarrow> char \<Rightarrow> 32 word" where
  "MAKEFOURCC c0 c1 c2 c3 =
     of_nat (of_char c0) OR push_bit 8 (of_nat (of_char c1)) OR
     push_bit 16 (of_nat (of_char c2)) OR push_bit 24 (of_nat (of_char c3))"

subsection \<open>The legacy format table\<close>

text \<open>
  A brace initialiser of \<^verbatim>\<open>DDS_PIXELFORMAT\<close> and one of \<^verbatim>\<open>LegacyDDS\<close>, with the fields
  in the order of the C structures.
\<close>

definition pixelformat ::
  "32 word \<Rightarrow> 32 word \<Rightarrow> 32 word \<Rightarrow> 32 word \<Rightarrow> 32 word \<Rightarrow> 32 word \<Rightarrow> 32 word \<Rightarrow> 32 word \<Rightarrow>
   DDS_PIXELFORMAT" where
  "pixelformat sz fl cc bits r g b al =
     \<lparr>pf_size = sz, pf_flags = fl, fourCC = cc, RGBBitCount = bits,
      RBitMask = r, GBitMask = g, BBitMask = b, ABitMask = al\<rparr>"

record LegacyDDS =
  legacy_format :: nat
  legacy_convFlags :: "32 word"
  legacy_ddpf :: DDS_PIXELFORMAT

definition legacy :: "nat \<Rightarrow> 32 word \<Rightarrow> DDS_PIXELFORMAT \<Rightarrow> LegacyDDS" where
  "legacy fmt cf pf = \<lparr>legacy_format = fmt, legacy_convFlags = cf, legacy_ddpf = pf\<rparr>"

definition DDSPF_DXT1 :: DDS_PIXELFORMAT where
  "DDSPF_DXT1 = pixelformat 32 DDS_FOURCC
       (MAKEFOURCC (CHR ''D'') (CHR ''X'') (CHR ''T'') (CHR ''1'')) 0 0 0 0 0"

definition DDSPF_DXT2 :: DDS_PIXELFORMAT where
  "DDSPF_DXT2 = pixelformat 32 DDS_FOURCC
       (MAKEFOURCC (CHR ''D'') (CHR ''X'') (CHR ''T'') (CHR ''2'')) 0 0 0 0 0"

definition DDSPF_DXT3 :: DDS_PIXELFORMAT where
  "DDSPF_DXT3 = pixelformat 32 DDS_FOURCC
       (MAKEFOURCC (CHR ''D'') (CHR ''X'') (CHR ''T'') (CHR ''3'')) 0 0 0 0 0"

definition DDSPF_DXT4 :: DDS_PIXELFORMAT where
  "DDSPF_DXT4 = pixelformat 32 DDS_FOURCC
       (MAKEFOURCC (CHR ''D'') (CHR ''X'') (CHR ''T'') (CHR ''4'')) 0 0 0 0 0"

definition DDSPF_DXT5 :: DDS_PIXELFORMAT where
  "DDSPF_DXT5 = pixelformat 32 DDS_FOURCC
       (MAKEFOURCC (CHR ''D'') (CHR ''X'') (CHR ''T'') (CHR ''5'')) 0 0 0 0 0"

definition DDSPF_BC4_UNORM :: DDS_PIXELFORMAT where
  "DDSPF_BC4_UNORM = pixelformat 32 DDS_FOURCC
       (MAKEFOURCC (CHR ''B'') (CHR ''C'') (CHR ''4'') (CHR ''U'')) 0 0 0 0 0"

definition DDSPF_BC4_SNORM :: DDS_PIXELFORMAT where
  "DDSPF_BC4_SNORM = pixelformat 32 DDS_FOURCC
       (MAKEFOURCC (CHR ''B'') (CHR ''C'') (CHR ''4'') (CHR ''S'')) 0 0 0 0 0"

definition DDSPF_BC5_UNORM :: DDS_PIXELFORMAT where
  "DDSPF_BC5_UNORM = pixelformat 32 DDS_FOURCC
       (MAKEFOURCC (CHR ''B'') (CHR ''C'') (CHR ''5'') (CHR ''U'')) 0 0 0 0 0"

definition DDSPF_BC5_SNORM :: DDS_PIXELFORMAT where
  "DDSPF_BC5_SNORM = pixelformat 32 DDS_FOURCC
       (MAKEFOURCC (CHR ''B'') (CHR ''C'') (CHR ''5'') (CHR ''S'')) 0 0 0 0 0"

definition DDSPF_R8G8_B8G8 :: DDS_PIXELFORMAT where
  "DDSPF_R8G8_B8G8 = pixelformat 32 DDS_FOURCC
       (MAKEFOURCC (CHR ''R'') (CHR ''G'') (CHR ''B'') (CHR ''G'')) 0 0 0 0 0"

definition DDSPF_G8R8_G8B8 :: DDS_PIXELFORMAT where
  "DDSPF_G8R8_G8B8 = pixelformat 32 DDS_FOURCC
       (MAKEFOURCC (CHR ''G'') (CHR ''R'') (CHR ''G'') (CHR ''B'')) 0 0 0 0 0"

definition DDSPF_YUY2 :: DDS_PIXELFORMAT where
  "DDSPF_YUY2 = pixelformat 32 DDS_FOURCC
       (MAKEFOURCC (CHR ''Y'') (CHR ''U'') (CHR ''Y'') (CHR ''2'')) 0 0 0 0 0"

definition DDSPF_UYVY :: DDS_PIXELFORMAT where
  "DDSPF_UYVY = pixelformat 32 DDS_FOURCC
       (MAKEFOURCC (CHR ''U'') (CHR ''Y'') (CHR ''V'') (CHR ''Y'')) 0 0 0 0 0"

definition DDSPF_A8R8G8B8 :: DDS_PIXELFORMAT where
  "DDSPF_A8R8G8B8 = pixelformat 32 DDS_RGBA 0 32 0x00ff0000 0x0000ff00 0x000000ff 0xff000000"

definition DDSPF_X8R8G8B8 :: DDS_PIXELFORMAT where
  "DDSPF_X8R8G8B8 = pixelformat 32 DDS_RGB 0 32 0x00ff0000 0x0000ff00 0x000000ff 0"

definition DDSPF_A8B8G8R8 :: DDS_PIXELFORMAT where
  "DDSPF_A8B8G8R8 = pixelformat 32 DDS_RGBA 0 32 0x000000ff 0x0000ff00 0x00ff0000 0xff000000"

definition DDSPF_X8B8G8R8 :: DDS_PIXELFORMAT where
  "DDSPF_X8B8G8R8 = pixelformat 32 DDS_RGB 0 32 0x000000ff 0x0000ff00 0x00ff0000 0"

definition DDSPF_G16R16 :: DDS_PIXELFORMAT where
  "DDSPF_G16R16 = pixelformat 32 DDS_RGB 0 32 0x0000ffff 0xffff0000 0 0"

definition DDSPF_R5G6B5 :: DDS_PIXELFORMAT where
  "DDSPF_R5G6B5 = pixelformat 32 DDS_RGB 0 16 0xf800 0x07e0 0x001f 0"

definition DDSPF_A1R5G5B5 :: DDS_PIXELFORMAT where
  "DDSPF_A1R5G5B5 = pixelformat 32 DDS_RGBA 0 16 0x7c00 0x03e0 0x001f 0x8000"

definition DDSPF_X1R5G5B5 :: DDS_PIXELFORMAT where
  "DDSPF_X1R5G5B5 = pixelformat 32 DDS_RGB 0 16 0x7c00 0x03e0 0x001f 0"

definition DDSPF_A4R4G4B4 :: DDS_PIXELFORMAT where
  "DDSPF_A4R4G4B4 = pixelformat 32 DDS_RGBA 0 16 0x0f00 0x00f0 0x000f 0xf000"

definition DDSPF_X4R4G4B4 :: DDS_PIXELFORMAT where
  "DDSPF_X4R4G4B4 = pixelformat 32 DDS_RGB 0 16 0x0f00 0x00f0 0x000f 0"

definition DDSPF_R8G8B8 :: DDS_PIXELFORMAT where
  "DDSPF_R8G8B8 = pixelformat 32 DDS_RGB 0 24 0xff0000 0x00ff00 0x0000ff 0"

definition DDSPF_A8R3G3B2 :: DDS_PIXELFORMAT where
  "DDSPF_A8R3G3B2 = pixelformat 32 DDS_RGBA 0 16 0x00e0 0x001c 0x0003 0xff00"

definition DDSPF_R3G3B2 :: DDS_PIXELFORMAT where
  "DDSPF_R3G3B2 = pixelformat 32 DDS_RGB 0 8 0xe0 0x1c 0x03 0"

definition DDSPF_A4L4 :: DDS_PIXELFORMAT where
  "DDSPF_A4L4 = pixelformat 32 DDS_LUMINANCEA 0 8 0x0f 0 0 0xf0"

definition DDSPF_L8 :: DDS_PIXELFORMAT where
  "DDSPF_L8 = pixelformat 32 DDS_LUMINANCE 0 8 0xff 0 0 0"

definition DDSPF_L16 :: DDS_PIXELFORMAT where
  "DDSPF_L16 = pixelformat 32 DDS_LUMINANCE 0 16 0xffff 0 0 0"

definition DDSPF_A8L8 :: DDS_PIXELFORMAT where
  "DDSPF_A8L8 = pixelformat 32 DDS_LUMINANCEA 0 16 0x00ff 0 0 0xff00"

definition DDSPF_A8L8_ALT :: DDS_PIXELFORMAT where
  "DDSPF_A8L8_ALT = pixelformat 32 DDS_LUMINANCEA 0 8 0x00ff 0 0 0xff00"

definition DDSPF_L8_NVTT1 :: DDS_PIXELFORMAT where
  "DDSPF_L8_NVTT1 = pixelformat 32 DDS_RGB 0 8 0xff 0 0 0"

definition DDSPF_L16_NVTT1 :: DDS_PIXELFORMAT where
  "DDSPF_L16_NVTT1 = pixelformat 32 DDS_RGB 0 16 0xffff 0 0 0"

definition DDSPF_A8L8_NVTT1 :: DDS_PIXELFORMAT where
  "DDSPF_A8L8_NVTT1 = pixelformat 32 DDS_RGBA 0 16 0x00ff 0 0 0xff00"

definition DDSPF_A8 :: DDS_PIXELFORMAT where
  "DDSPF_A8 = pixelformat 32 DDS_ALPHA 0 8 0 0 0 0xff"

definition DDSPF_V8U8 :: DDS_PIXELFORMAT where
  "DDSPF_V8U8 = pixelformat 32 DDS_BUMPDUDV 0 16 0x00ff 0xff00 0 0"

definition DDSPF_Q8W8V8U8 :: DDS_PIXELFORMAT where
  "DDSPF_Q8W8V8U8 = pixelformat 32 DDS_BUMPDUDV 0 32 0x000000ff 0x0000ff00 0x00ff0000 0xff000000"

definition DDSPF_V16U16 :: DDS_PIXELFORMAT where
  "DDSPF_V16U16 = pixelformat 32 DDS_BUMPDUDV 0 32 0x0000ffff 0xffff0000 0 0"

definition DDSPF_A2R10G10B10 :: DDS_PIXELFORMAT where
  "DDSPF_A2R10G10B10 = pixelformat 32 DDS_RGBA 0 32 0x000003ff 0x000ffc00 0x3ff00000 0xc0000000"

definition DDSPF_A2B10G10R10 :: DDS_PIXELFORMAT where
  "DDSPF_A2B10G10R10 = pixelformat 32 DDS_RGBA 0 32 0x3ff00000 0x000ffc00 0x000003ff 0xc0000000"

definition DDSPF_DX10 :: DDS_PIXELFORMAT where
  "DDSPF_DX10 = pixelformat 32 DDS_FOURCC
       (MAKEFOURCC (CHR ''D'') (CHR ''X'') (CHR ''1'') (CHR ''0'')) 0 0 0 0 0"

definition g_LegacyDDSMap :: "LegacyDDS list" where
  "g_LegacyDDSMap =
     [legacy DXGI_FORMAT_BC1_UNORM (CONV_FLAGS_NONE) DDSPF_DXT1,
      legacy DXGI_FORMAT_BC2_UNORM (CONV_FLAGS_NONE) DDSPF_DXT3,
      legacy DXGI_FORMAT_BC3_UNORM (CONV_FLAGS_NONE) DDSPF_DXT5,
      legacy DXGI_FORMAT_BC2_UNORM (CONV_FLAGS_PMALPHA) DDSPF_DXT2,
      legacy DXGI_FORMAT_BC3_UNORM (CONV_FLAGS_PMALPHA) DDSPF_DXT4,
      legacy DXGI_FORMAT_BC4_UNORM (CONV_FLAGS_NONE) DDSPF_BC4_UNORM,
      legacy DXGI_FORMAT_BC4_SNORM (CONV_FLAGS_NONE) DDSPF_BC4_SNORM,
      legacy DXGI_FORMAT_BC5_UNORM (CONV_FLAGS_NONE) DDSPF_BC5_UNORM,
      legacy DXGI_FORMAT_BC5_SNORM (CONV_FLAGS_NONE) DDSPF_BC5_SNORM,
      legacy DXGI_FORMAT_BC4_UNORM (CONV_FLAGS_NONE)
        (pixelformat 32 DDS_FOURCC
           (MAKEFOURCC (CHR ''A'') (CHR ''T'') (CHR ''I'') (CHR ''1'')) 0 0 0 0 0),
      legacy DXGI_FORMAT_BC5_UNORM (CONV_FLAGS_NONE)
        (pixelformat 32 DDS_FOURCC
           (MAKEFOURCC (CHR ''A'') (CHR ''T'') (CHR ''I'') (CHR ''2'')) 0 0 0 0 0),
      legacy DXGI_FORMAT_BC6H_UF16 (CONV_FLAGS_NONE)
        (pixelformat 32 DDS_FOURCC
           (MAKEFOURCC (CHR ''B'') (CHR ''C'') (CHR ''6'') (CHR ''H'')) 0 0 0 0 0),
      legacy DXGI_FORMAT_BC7_UNORM (CONV_FLAGS_NONE)
        (pixelformat 32 DDS_FOURCC
           (MAKEFOURCC (CHR ''B'') (CHR ''C'') (CHR ''7'') (CHR ''L'')) 0 0 0 0 0),
      legacy DXGI_FORMAT_BC7_UNORM (CONV_FLAGS_NONE)
        (pixelformat 32 DDS_FOURCC
           (MAKEFOURCC (CHR ''B'') (CHR ''C'') (CHR ''7'') (CHR 0x00)) 0 0 0 0 0),
      legacy DXGI_FORMAT_R8G8_B8G8_UNORM (CONV_FLAGS_NONE) DDSPF_R8G8_B8G8,
      legacy DXGI_FORMAT_G8R8_G8B8_UNORM (CONV_FLAGS_NONE) DDSPF_G8R8_G8B8,
      legacy DXGI_FORMAT_B8G8R8A8_UNORM (CONV_FLAGS_NONE) DDSPF_A8R8G8B8,
      legacy DXGI_FORMAT_B8G8R8X8_UNORM (CONV_FLAGS_NONE) DDSPF_X8R8G8B8,
      legacy DXGI_FORMAT_R8G8B8A8_UNORM (CONV_FLAGS_NONE) DDSPF_A8B8G8R8,
      legacy DXGI_FORMAT_R8G8B8A8_UNORM (CONV_FLAGS_NOALPHA) DDSPF_X8B8G8R8,
      legacy DXGI_FORMAT_R16G16_UNORM (CONV_FLAGS_NONE) DDSPF_G16R16,
      legacy DXGI_FORMAT_R10G10B10A2_UNORM (CONV_FLAGS_SWIZZLE) DDSPF_A2R10G10B10,
      legacy DXGI_FORMAT_R10G10B10A2_UNORM (CONV_FLAGS_NONE) DDSPF_A2B10G10R10,
      legacy DXGI_FORMAT_R8G8B8A8_UNORM (CONV_FLAGS_EXPAND OR CONV_FLAGS_NOALPHA OR CONV_FLAGS_888) DDSPF_R8G8B8,
      legacy DXGI_FORMAT_B5G6R5_UNORM (CONV_FLAGS_565) DDSPF_R5G6B5,
      legacy DXGI_FORMAT_B5G5R5A1_UNORM (CONV_FLAGS_5551) DDSPF_A1R5G5B5,
      legacy DXGI_FORMAT_B5G5R5A1_UNORM (CONV_FLAGS_5551 OR CONV_FLAGS_NOALPHA) DDSPF_X1R5G5B5,
      legacy DXGI_FORMAT_R8G8B8A8_UNORM (CONV_FLAGS_EXPAND OR CONV_FLAGS_8332) DDSPF_A8R3G3B2,
      legacy DXGI_FORMAT_B5G6R5_UNORM (CONV_FLAGS_EXPAND OR CONV_FLAGS_332) DDSPF_R3G3B2,
      legacy DXGI_FORMAT_R8_UNORM (CONV_FLAGS_NONE) DDSPF_L8,
      legacy DXGI_FORMAT_R16_UNORM (CONV_FLAGS_NONE) DDSPF_L16,
      legacy DXGI_FORMAT_R8G8_UNORM (CONV_FLAGS_NONE) DDSPF_A8L8,
      legacy DXGI_FORMAT_R8G8_UNORM (CONV_FLAGS_NONE) DDSPF_A8L8_ALT,
      legacy DXGI_FORMAT_R8_UNORM (CONV_FLAGS_NONE) DDSPF_L8_NVTT1,
      legacy DXGI_FORMAT_R16_UNORM (CONV_FLAGS_NONE) DDSPF_L16_NVTT1,
      legacy DXGI_FORMAT_R8G8_UNORM (CONV_FLAGS_NONE) DDSPF_A8L8_NVTT1,
      legacy DXGI_FORMAT_A8_UNORM (CONV_FLAGS_NONE) DDSPF_A8,
      legacy DXGI_FORMAT_R16G16B16A16_UNORM (CONV_FLAGS_NONE)
        (pixelformat 32 DDS_FOURCC 36 0 0 0 0 0),
      legacy DXGI_FORMAT_R16G16B16A16_SNORM (CONV_FLAGS_NONE)
        (pixelformat 32 DDS_FOURCC 110 0 0 0 0 0),
      legacy DXGI_FORMAT_R16_FLOAT (CONV_FLAGS_NONE) (pixelformat 32 DDS_FOURCC 111 0 0 0 0 0),
      legacy DXGI_FORMAT_R16G16_FLOAT (CONV_FLAGS_NONE)
        (pixelformat 32 DDS_FOURCC 112 0 0 0 0 0),
      legacy DXGI_FORMAT_R16G16B16A16_FLOAT (CONV_FLAGS_NONE)
        (pixelformat 32 DDS_FOURCC 113 0 0 0 0 0),
      legacy DXGI_FORMAT_R32_FLOAT (CONV_FLAGS_NONE) (pixelformat 32 DDS_FOURCC 114 0 0 0 0 0),
      legacy DXGI_FORMAT_R32G32_FLOAT (CONV_FLAGS_NONE)
        (pixelformat 32 DDS_FOURCC 115 0 0 0 0 0),
      legacy DXGI_FORMAT_R32G32B32A32_FLOAT (CONV_FLAGS_NONE)
        (pixelformat 32 DDS_FOURCC 116 0 0 0 0 0),
      legacy DXGI_FORMAT_R32_FLOAT (CONV_FLAGS_NONE)
        (pixelformat 32 DDS_RGB 0 32 0xffffffff 0 0 0),
      legacy DXGI_FORMAT_R8G8B8A8_UNORM (CONV_FLAGS_EXPAND OR CONV_FLAGS_PAL8 OR CONV_FLAGS_A8P8)
        (pixelformat 32 DDS_PAL8A 0 16 0 0 0 0),
      legacy DXGI_FORMAT_R8G8B8A8_UNORM (CONV_FLAGS_EXPAND OR CONV_FLAGS_PAL8)
        (pixelformat 32 DDS_PAL8 0 8 0 0 0 0),
      legacy DXGI_FORMAT_B4G4R4A4_UNORM (CONV_FLAGS_4444) DDSPF_A4R4G4B4,
      legacy DXGI_FORMAT_B4G4R4A4_UNORM (CONV_FLAGS_NOALPHA OR CONV_FLAGS_4444) DDSPF_X4R4G4B4,
      legacy DXGI_FORMAT_B4G4R4A4_UNORM (CONV_FLAGS_EXPAND OR CONV_FLAGS_44) DDSPF_A4L4,
      legacy DXGI_FORMAT_YUY2 (CONV_FLAGS_NONE) DDSPF_YUY2,
      legacy DXGI_FORMAT_YUY2 (CONV_FLAGS_SWIZZLE) DDSPF_UYVY,
      legacy DXGI_FORMAT_R8G8_SNORM (CONV_FLAGS_NONE) DDSPF_V8U8,
      legacy DXGI_FORMAT_R8G8B8A8_SNORM (CONV_FLAGS_NONE) DDSPF_Q8W8V8U8,
      legacy DXGI_FORMAT_R16G16_SNORM (CONV_FLAGS_NONE) DDSPF_V16U16]"

definition MakeSRGB :: "nat \<Rightarrow> nat" where
  "MakeSRGB fmt =
     (if fmt = DXGI_FORMAT_R8G8B8A8_UNORM then DXGI_FORMAT_R8G8B8A8_UNORM_SRGB
      else if fmt = DXGI_FORMAT_BC1_UNORM then DXGI_FORMAT_BC1_UNORM_SRGB
      else if fmt = DXGI_FORMAT_BC2_UNORM then DXGI_FORMAT_BC2_UNORM_SRGB
      else if fmt = DXGI_FORMAT_BC3_UNORM then DXGI_FORMAT_BC3_UNORM_SRGB
      else if fmt = DXGI_FORMAT_B8G8R8A8_UNORM then DXGI_FORMAT_B8G8R8A8_UNORM_SRGB
      else if fmt = DXGI_FORMAT_B8G8R8X8_UNORM then DXGI_FORMAT_B8G8R8X8_UNORM_SRGB
      else if fmt = DXGI_FORMAT_BC7_UNORM then DXGI_FORMAT_BC7_UNORM_SRGB
      else fmt)"

subsection \<open>\<^verbatim>\<open>GetDXGIFormat\<close>\<close>

text \<open>
  The body of the search loop: whether the loop breaks at \<open>entry\<close>. The first argument
  is \<^verbatim>\<open>ddpfFlags\<close>, the flags after the NVTT bits are cleared.
\<close>

definition legacy_matches :: "32 word \<Rightarrow> DDS_PIXELFORMAT \<Rightarrow> LegacyDDS \<Rightarrow> bool" where
  "legacy_matches ddpfFlags pf entry =
     (let e = legacy_ddpf entry in
      if has_flag ddpfFlags DDS_FOURCC \<and> has_flag (pf_flags e) DDS_FOURCC then
        fourCC pf = fourCC e
      else if ddpfFlags = pf_flags e then
        (if has_flag (pf_flags e) DDS_PAL8 then
           RGBBitCount pf = RGBBitCount e
         else if has_flag (pf_flags e) DDS_ALPHA then
           RGBBitCount pf = RGBBitCount e \<and> ABitMask pf = ABitMask e
         else if has_flag (pf_flags e) DDS_LUMINANCE then
           (if has_flag (pf_flags e) DDS_ALPHAPIXELS then
              RGBBitCount pf = RGBBitCount e \<and> RBitMask pf = RBitMask e \<and>
              ABitMask pf = ABitMask e
            else
              RGBBitCount pf = RGBBitCount e \<and> RBitMask pf = RBitMask e)
         else if has_flag (pf_flags e) DDS_BUMPDUDV then
           RGBBitCount pf = RGBBitCount e \<and> RBitMask pf = RBitMask e \<and>
           GBitMask pf = GBitMask e \<and> BBitMask pf = BBitMask e \<and> ABitMask pf = ABitMask e
         else if RGBBitCount pf = RGBBitCount e then
           (if has_flag (pf_flags e) DDS_ALPHAPIXELS then
              RBitMask pf = RBitMask e \<and> GBitMask pf = GBitMask e \<and>
              BBitMask pf = BBitMask e \<and> ABitMask pf = ABitMask e
            else
              RBitMask pf = RBitMask e \<and> GBitMask pf = GBitMask e \<and>
              BBitMask pf = BBitMask e)
         else False)
      else False)"

text \<open>The loop over the table, stopping at the first entry that matches.\<close>

fun find_legacy :: "32 word \<Rightarrow> DDS_PIXELFORMAT \<Rightarrow> LegacyDDS list \<Rightarrow> LegacyDDS option" where
  "find_legacy ddpfFlags pf [] = None"
| "find_legacy ddpfFlags pf (entry # rest) =
     (if legacy_matches ddpfFlags pf entry then Some entry
      else find_legacy ddpfFlags pf rest)"

text \<open>
  \<^verbatim>\<open>GetDXGIFormat\<close> returns the format and leaves \<^verbatim>\<open>convFlags\<close> (passed by reference)
  either untouched or set; the model returns both.
\<close>

definition GetDXGIFormat :: "DDS_HEADER \<Rightarrow> DDS_PIXELFORMAT \<Rightarrow> 32 word \<Rightarrow> nat \<times> 32 word" where
  "GetDXGIFormat hdr pf convFlags =
     (let nvtt = (reserved1 hdr ! 9 = MAKEFOURCC (CHR ''N'') (CHR ''V'') (CHR ''T'') (CHR ''T''));
          ddpfFlags = (if nvtt then pf_flags pf AND NOT 0xC0000000 else pf_flags pf)
      in case find_legacy ddpfFlags pf g_LegacyDDSMap of
           None \<Rightarrow> (DXGI_FORMAT_UNKNOWN, convFlags)
         | Some entry \<Rightarrow>
             (let cflags = legacy_convFlags entry;
                  fmt = legacy_format entry;
                  fmt' = (if nvtt \<and> has_flag (pf_flags pf) 0x40000000 then MakeSRGB fmt else fmt)
              in (fmt', cflags)))"

subsection \<open>\<^verbatim>\<open>DecodeDDSHeader\<close>\<close>

text \<open>\<^verbatim>\<open>memset(&metadata, 0, sizeof(TexMetadata))\<close>\<close>

definition zero_metadata :: TexMetadata where
  "zero_metadata = \<lparr>width = 0, height = 0, depth = 0, arraySize = 0, mipLevels = 0,
     miscFlags = 0, miscFlags2 = 0, format = 0, dimension = 0\<rparr>"

definition SetAlphaMode :: "TexMetadata \<Rightarrow> 32 word \<Rightarrow> TexMetadata" where
  "SetAlphaMode md mode =
     md\<lparr>miscFlags2 := (miscFlags2 md AND NOT TEX_MISC2_ALPHA_MODE_MASK) OR mode\<rparr>"

text \<open>
  The branch for a file with the DX10 extension header. \<open>md\<close> is the metadata so far
  (the mip level count is set), \<open>nbytes\<close> the \<^verbatim>\<open>size\<close> argument.
\<close>

definition decode_dx10 ::
  "arch \<Rightarrow> byte list \<Rightarrow> nat \<Rightarrow> DDS_HEADER \<Rightarrow> TexMetadata \<Rightarrow> 32 word \<Rightarrow>
   (TexMetadata \<times> 32 word) option" where
  "decode_dx10 a pSource nbytes hdr md convFlags =
     (if nbytes < sizeof_DDS_HEADER + sizeof_uint32_t + sizeof_DDS_HEADER_DXT10 then None
      else
        (let d3d10ext = read_DDS_HEADER_DXT10 pSource (sizeof_uint32_t + sizeof_DDS_HEADER);
             convFlags = convFlags OR CONV_FLAGS_DX10;
             md = md\<lparr>arraySize := unat (ext_arraySize d3d10ext)\<rparr>
         in if arraySize md = 0 then None
            else
              (let md = md\<lparr>format := unat (dxgiFormat d3d10ext)\<rparr>
               in if \<not> IsValid (format md) \<or> IsPalettized (format md) then None
                  else
                    (let md = md\<lparr>miscFlags := miscFlag d3d10ext AND NOT TEX_MISC_TEXTURECUBE\<rparr>
                     in case
                          (if resourceDimension d3d10ext = DDS_DIMENSION_TEXTURE1D then
                             (if has_flag (hdr_flags hdr) DDS_HEIGHT \<and> hdr_height hdr \<noteq> 1
                              then None
                              else Some (md\<lparr>width := unat (hdr_width hdr), height := 1,
                                            depth := 1,
                                            dimension := TEX_DIMENSION_TEXTURE1D\<rparr>))
                           else if resourceDimension d3d10ext = DDS_DIMENSION_TEXTURE2D then
                             (let md = (if has_flag (miscFlag d3d10ext)
                                             DDS_RESOURCE_MISC_TEXTURECUBE
                                        then md\<lparr>miscFlags := miscFlags md OR TEX_MISC_TEXTURECUBE,
                                                arraySize := size_t a (arraySize md * 6)\<rparr>
                                        else md)
                              in Some (md\<lparr>width := unat (hdr_width hdr),
                                          height := unat (hdr_height hdr), depth := 1,
                                          dimension := TEX_DIMENSION_TEXTURE2D\<rparr>))
                           else if resourceDimension d3d10ext = DDS_DIMENSION_TEXTURE3D then
                             (if \<not> has_flag (hdr_flags hdr) DDS_HEADER_FLAGS_VOLUME then None
                              else if arraySize md > 1 then None
                              else Some (md\<lparr>width := unat (hdr_width hdr),
                                            height := unat (hdr_height hdr),
                                            depth := unat (hdr_depth hdr),
                                            dimension := TEX_DIMENSION_TEXTURE3D\<rparr>))
                           else None) of
                          None \<Rightarrow> None
                        | Some md \<Rightarrow>
                            Some (md\<lparr>miscFlags2 := ext_miscFlags2 d3d10ext\<rparr>, convFlags)))))"

text \<open>The branch for a legacy file.\<close>

definition decode_legacy ::
  "DDS_HEADER \<Rightarrow> TexMetadata \<Rightarrow> 32 word \<Rightarrow> (TexMetadata \<times> 32 word) option" where
  "decode_legacy hdr md convFlags =
     (let md = md\<lparr>arraySize := 1\<rparr>
      in case
           (if has_flag (hdr_flags hdr) DDS_HEADER_FLAGS_VOLUME then
              Some (md\<lparr>width := unat (hdr_width hdr), height := unat (hdr_height hdr),
                       depth := unat (hdr_depth hdr), dimension := TEX_DIMENSION_TEXTURE3D\<rparr>)
            else
              (case
                 (if has_flag (caps2 hdr) DDS_CUBEMAP then
                    (if caps2 hdr AND DDS_CUBEMAP_ALLFACES \<noteq> DDS_CUBEMAP_ALLFACES then None
                     else Some (md\<lparr>arraySize := 6,
                                   miscFlags := miscFlags md OR TEX_MISC_TEXTURECUBE\<rparr>))
                  else Some md) of
                 None \<Rightarrow> None
               | Some md \<Rightarrow>
                   Some (md\<lparr>width := unat (hdr_width hdr), height := unat (hdr_height hdr),
                            depth := 1, dimension := TEX_DIMENSION_TEXTURE2D\<rparr>))) of
           None \<Rightarrow> None
         | Some md \<Rightarrow>
             (case GetDXGIFormat hdr (ddspf hdr) convFlags of
                (fmt, convFlags) \<Rightarrow>
                  if fmt = DXGI_FORMAT_UNKNOWN then None
                  else Some (md\<lparr>format := fmt\<rparr>, convFlags)))"

text \<open>The common end: the implicit alpha mode and the two range tests.\<close>

definition decode_finish :: "TexMetadata \<Rightarrow> 32 word \<Rightarrow> (TexMetadata \<times> 32 word) option" where
  "decode_finish md convFlags =
     (let md = (if has_flag convFlags CONV_FLAGS_NOALPHA then SetAlphaMode md TEX_ALPHA_MODE_OPAQUE
                else if has_flag convFlags CONV_FLAGS_PMALPHA
                then SetAlphaMode md TEX_ALPHA_MODE_PREMULTIPLIED
                else md)
      in if width md > 16384 \<or> height md > 16384 \<or> mipLevels md > 15 then None
         else if arraySize md > 2048 \<or> depth md > 2048 then None
         else Some (md, convFlags))"

text \<open>
  \<^verbatim>\<open>DecodeDDSHeader(pSource, size, metadata, convFlags)\<close>: \<open>None\<close> for \<^verbatim>\<open>false\<close>, and
  for \<^verbatim>\<open>true\<close> the metadata and the conversion flags it leaves behind. The buffer holds
  at least \<open>nbytes\<close> bytes (the \<^verbatim>\<open>size\<close> argument).
\<close>

definition DecodeDDSHeader ::
  "arch \<Rightarrow> byte list \<Rightarrow> nat \<Rightarrow> 32 word \<Rightarrow> (TexMetadata \<times> 32 word) option" where
  "DecodeDDSHeader a pSource nbytes convFlags =
     (if nbytes < sizeof_DDS_HEADER + sizeof_uint32_t then None
      else if load32 pSource 0 \<noteq> DDS_MAGIC then None
      else
        (let hdr = read_DDS_HEADER pSource sizeof_uint32_t
         in if hdr_size hdr \<noteq> of_nat sizeof_DDS_HEADER \<or>
               pf_size (ddspf hdr) \<noteq> of_nat sizeof_DDS_PIXELFORMAT then None
            else
              (let md = zero_metadata\<lparr>mipLevels := unat (mipMapCount hdr)\<rparr>;
                   md = (if mipLevels md = 0 then md\<lparr>mipLevels := 1\<rparr> else md)
               in case
                    (if has_flag (pf_flags (ddspf hdr)) DDS_FOURCC \<and>
                        MAKEFOURCC (CHR ''D'') (CHR ''X'') (CHR ''1'') (CHR ''0'')
                          = fourCC (ddspf hdr)
                     then decode_dx10 a pSource nbytes hdr md convFlags
                     else decode_legacy hdr md convFlags) of
                    None \<Rightarrow> None
                  | Some (md, convFlags) \<Rightarrow> decode_finish md convFlags)))"

section \<open>The decoded image and the file loader\<close>

subsection \<open>Mip level validation\<close>

function CountMips3D_loop :: "nat \<Rightarrow> nat \<Rightarrow> nat \<Rightarrow> nat \<Rightarrow> nat" where
  "CountMips3D_loop w h d levels =
     (if h > 1 \<or> w > 1 \<or> d > 1
      then CountMips3D_loop (if w > 1 then w div 2 else w)
                            (if h > 1 then h div 2 else h)
                            (if d > 1 then d div 2 else d)
                            (levels + 1)
      else levels)"
  by pat_completeness auto
termination
  by (relation "measure (\<lambda>(w, h, d, levels). w + h + d)") auto

declare CountMips3D_loop.simps [simp del]

definition CountMips3D :: "nat \<Rightarrow> nat \<Rightarrow> nat \<Rightarrow> nat" where
  "CountMips3D w h d = CountMips3D_loop w h d 1"

text \<open>
  \<^verbatim>\<open>CalculateMipLevels\<close> and \<^verbatim>\<open>CalculateMipLevels3D\<close> return \<^verbatim>\<open>false\<close> (\<open>None\<close>) or
  \<^verbatim>\<open>true\<close> with \<^verbatim>\<open>mipLevels\<close>, passed by reference, as they leave it.
\<close>

definition CalculateMipLevels :: "nat \<Rightarrow> nat \<Rightarrow> nat \<Rightarrow> nat option" where
  "CalculateMipLevels w h levels =
     (if levels > 1 then
        (let maxMips = CountMips w h
         in if levels > maxMips then None else Some levels)
      else if levels = 0 then Some (CountMips w h)
      else Some 1)"

definition CalculateMipLevels3D :: "nat \<Rightarrow> nat \<Rightarrow> nat \<Rightarrow> nat \<Rightarrow> nat option" where
  "CalculateMipLevels3D w h d levels =
     (if levels > 1 then
        (let maxMips = CountMips3D w h d
         in if levels > maxMips then None else Some levels)
      else if levels = 0 then Some (CountMips3D w h d)
      else Some 1)"

definition IsCubemap :: "TexMetadata \<Rightarrow> bool" where
  "IsCubemap md = (miscFlags md AND TEX_MISC_TEXTURECUBE \<noteq> 0)"

subsection \<open>\<^verbatim>\<open>ScratchImage\<close>\<close>

text \<open>
  The members of \<^verbatim>\<open>class ScratchImage\<close>. A null \<^verbatim>\<open>m_image\<close> or \<^verbatim>\<open>m_memory\<close> is
  \<open>None\<close>; an allocated one is the array or the buffer it points to.
\<close>

record ScratchImage =
  m_nimages :: nat
  m_size :: nat
  m_metadata :: TexMetadata
  m_image :: "Image list option"
  m_memory :: "byte list option"

definition Release :: "ScratchImage \<Rightarrow> ScratchImage" where
  "Release img = \<lparr>m_nimages = 0, m_size = 0, m_metadata = zero_metadata,
                     m_image = None, m_memory = None\<rparr>"

text \<open>
  What the code cannot decide by itself is a parameter of the model: whether
  \<^verbatim>\<open>new (std::nothrow)\<close> of so many array elements and \<^verbatim>\<open>_aligned_malloc\<close> of so many
  bytes succeed, and what the two pixel passes \<^verbatim>\<open>CopyImage\<close> and
  \<^verbatim>\<open>CopyImageInPlace\<close> do, which are not embedded here: each takes its arguments and
  returns its \<^verbatim>\<open>bool\<close> with the image as it leaves it.
\<close>

record environment =
  new_array_ok :: "nat \<Rightarrow> bool"
  malloc_ok :: "nat \<Rightarrow> bool"
  CopyImage :: "byte list \<Rightarrow> nat \<Rightarrow> TexMetadata \<Rightarrow> CP_FLAGS \<Rightarrow> 32 word \<Rightarrow> byte list option \<Rightarrow>
                ScratchImage \<Rightarrow> bool \<times> ScratchImage"
  CopyImageInPlace :: "32 word \<Rightarrow> ScratchImage \<Rightarrow> bool \<times> ScratchImage"

text \<open>
  The first part of \<^verbatim>\<open>ScratchImage::Initialize\<close>: the validation of the metadata, by
  dimension, which ends with an error code or with the mip level count.
\<close>

definition Initialize_mips :: "TexMetadata \<Rightarrow> HRESULT + nat" where
  "Initialize_mips mdata =
     (if dimension mdata = TEX_DIMENSION_TEXTURE1D then
        (if width mdata = 0 \<or> height mdata \<noteq> 1 \<or> depth mdata \<noteq> 1 \<or> arraySize mdata = 0
         then Inl E_INVALIDARG
         else case CalculateMipLevels (width mdata) 1 (mipLevels mdata) of
                None \<Rightarrow> Inl E_INVALIDARG
              | Some levels \<Rightarrow> Inr levels)
      else if dimension mdata = TEX_DIMENSION_TEXTURE2D then
        (if width mdata = 0 \<or> height mdata = 0 \<or> depth mdata \<noteq> 1 \<or> arraySize mdata = 0
         then Inl E_INVALIDARG
         else if IsCubemap mdata \<and> arraySize mdata mod 6 \<noteq> 0 then Inl E_INVALIDARG
         else case CalculateMipLevels (width mdata) (height mdata) (mipLevels mdata) of
                None \<Rightarrow> Inl E_INVALIDARG
              | Some levels \<Rightarrow> Inr levels)
      else if dimension mdata = TEX_DIMENSION_TEXTURE3D then
        (if width mdata = 0 \<or> height mdata = 0 \<or> depth mdata = 0 \<or> arraySize mdata \<noteq> 1
         then Inl E_INVALIDARG
         else case CalculateMipLevels3D (width mdata) (height mdata) (depth mdata)
                     (mipLevels mdata) of
                None \<Rightarrow> Inl E_INVALIDARG
              | Some levels \<Rightarrow> Inr levels)
      else Inl E_FAIL)"

text \<open>
  \<^verbatim>\<open>ScratchImage::Initialize(mdata, flags)\<close>: the \<^verbatim>\<open>HRESULT\<close> and the object as the call
  leaves it. A fresh pixel buffer is taken to hold zeros.
\<close>

definition Initialize ::
  "arch \<Rightarrow> environment \<Rightarrow> TexMetadata \<Rightarrow> CP_FLAGS \<Rightarrow> ScratchImage \<Rightarrow> HRESULT \<times> ScratchImage" where
  "Initialize a env mdata flags img =
     (if \<not> IsValid (format mdata) then (E_INVALIDARG, img)
      else if IsPalettized (format mdata) then (E_FAIL, img)
      else case Initialize_mips mdata of
        Inl hr \<Rightarrow> (hr, img)
      | Inr levels \<Rightarrow>
          (let img = (Release img)\<lparr>m_metadata := mdata\<lparr>mipLevels := levels\<rparr>\<rparr>
           in case DetermineImageArray a (m_metadata img) flags of
                None \<Rightarrow> (E_FAIL, img)
              | Some (nimages, pixelSize) \<Rightarrow>
                  if \<not> new_array_ok env nimages then (E_OUTOFMEMORY, img)
                  else
                    (let img = img\<lparr>m_image := Some (replicate nimages blank_image),
                                       m_nimages := nimages\<rparr>
                     in if \<not> malloc_ok env pixelSize then (E_OUTOFMEMORY, Release img)
                        else
                          (let img = img\<lparr>m_memory := Some (replicate pixelSize 0),
                                             m_size := pixelSize\<rparr>
                           in case SetupImageArray a pixelSize (m_metadata img) flags
                                     (replicate nimages blank_image) nimages of
                                None \<Rightarrow> (E_FAIL, Release img)
                              | Some images \<Rightarrow> (S_OK, img\<lparr>m_image := Some images\<rparr>)))))"

subsection \<open>\<^verbatim>\<open>LoadFromDDSFile\<close>\<close>

text \<open>
  The conversion of an \<^verbatim>\<open>HRESULT\<close> to the \<^verbatim>\<open>bool\<close> return type of
  \<^verbatim>\<open>LoadFromDDSFile\<close>, which \<^verbatim>\<open>return hr;\<close> performs: every nonzero value is \<^verbatim>\<open>true\<close>.
\<close>

definition HRESULT_to_bool :: "HRESULT \<Rightarrow> bool" where
  "HRESULT_to_bool hr = (hr \<noteq> 0)"

text \<open>
  The palette step: nothing when the palette flag is absent; otherwise the allocation
  of 256 entries and the read of \<open>256 * 4\<close> bytes at the read position, either of which
  can fail. The result is the palette bytes, if any, and the new read position.
\<close>

definition read_palette ::
  "environment \<Rightarrow> byte list \<Rightarrow> 32 word \<Rightarrow> nat \<Rightarrow> (byte list option \<times> nat) option" where
  "read_palette env bytes convFlags offset =
     (if has_flag convFlags CONV_FLAGS_PAL8 then
        (if \<not> new_array_ok env 256 then None
         else if length (drop offset bytes) < 256 * sizeof_uint32_t then None
         else Some (Some (take (256 * sizeof_uint32_t) (drop offset bytes)),
                    offset + 256 * sizeof_uint32_t))
      else Some (None, offset))"

text \<open>
  The part of \<^verbatim>\<open>LoadFromDDSFile\<close> after a successful \<^verbatim>\<open>Initialize\<close>: the pixel data is
  read and passed through \<^verbatim>\<open>CopyImage\<close> or \<^verbatim>\<open>CopyImageInPlace\<close>. The result is the
  \<^verbatim>\<open>bool\<close> returned and the image.
\<close>

definition load_pixels ::
  "environment \<Rightarrow> byte list \<Rightarrow> nat \<Rightarrow> nat \<Rightarrow> TexMetadata \<Rightarrow> 32 word \<Rightarrow> byte list option \<Rightarrow>
   ScratchImage \<Rightarrow> bool \<times> ScratchImage" where
  "load_pixels env bytes offset remaining mdata convFlags pal8 img =
     (if has_flag convFlags CONV_FLAGS_EXPAND then
        (if \<not> malloc_ok env remaining then (False, Release img)
         else if length (drop offset bytes) < remaining then (False, Release img)
         else case CopyImage env (take remaining (drop offset bytes)) remaining mdata
                     CP_FLAGS_NONE convFlags pal8 img of
                (ok, img) \<Rightarrow> if \<not> ok then (False, Release img) else (True, img))
      else
        (if remaining < m_size img then (False, Release img)
         else if m_size img > UINT32_MAX then (False, Release img)
         else if length (drop offset bytes) < m_size img then (False, Release img)
         else
           (let img = img\<lparr>m_memory := Some (take (m_size img) (drop offset bytes))\<rparr>
            in if has_flag convFlags (CONV_FLAGS_SWIZZLE OR CONV_FLAGS_NOALPHA) then
                 (case CopyImageInPlace env convFlags img of
                    (ok, img) \<Rightarrow> if \<not> ok then (False, Release img) else (True, img))
               else (True, img))))"

text \<open>
  \<^verbatim>\<open>LoadFromDDSFile(path, metadata, image)\<close>. The file is its contents, or \<open>None\<close> when
  it cannot be opened. The result is the \<^verbatim>\<open>bool\<close> returned, the metadata written
  through the \<^verbatim>\<open>metadata\<close> pointer (if any was written), and the image.
\<close>

definition LoadFromDDSFile ::
  "arch \<Rightarrow> environment \<Rightarrow> byte list option \<Rightarrow> ScratchImage \<Rightarrow>
   bool \<times> TexMetadata option \<times> ScratchImage" where
  "LoadFromDDSFile a env file img =
     (let img = Release img
      in case file of
           None \<Rightarrow> (False, None, img)
         | Some bytes \<Rightarrow>
             (let len = length bytes
              in if len < sizeof_DDS_HEADER + sizeof_uint32_t then (False, None, img)
                 else
                   (let headerLen = min (size_t a len) MAX_HEADER_SIZE;
                        header = take headerLen bytes @ replicate (MAX_HEADER_SIZE - headerLen) 0
                    in case DecodeDDSHeader a header headerLen 0 of
                         None \<Rightarrow> (False, None, img)
                       | Some (mdata, convFlags) \<Rightarrow>
                           (let offset = (if \<not> has_flag convFlags CONV_FLAGS_DX10
                                          then sizeof_uint32_t + sizeof_DDS_HEADER
                                          else MAX_HEADER_SIZE)
                            in case read_palette env bytes convFlags offset of
                                 None \<Rightarrow> (False, None, img)
                               | Some (pal8, offset) \<Rightarrow>
                                   (let remaining = size_t a (len - offset)
                                    in if remaining = 0 then (False, None, img)
                                       else case Initialize a env mdata CP_FLAGS_NONE img of
                                         (hr, img) \<Rightarrow>
                                           if FAILED hr then (HRESULT_to_bool hr, None, img)
                                           else case load_pixels env bytes offset remaining
                                                       mdata convFlags pal8 img of
                                             (ok, img) \<Rightarrow>
                                               if ok then (True, Some mdata, img)
                                               else (False, None, img))))))"

text \<open>
  A legacy header of 128 bytes: the magic number, a header of size 124 with the volume
  flag, width, height, depth and mip count 0, and the pixel format DXT1. And the metadata
  \<^verbatim>\<open>DecodeDDSHeader\<close> makes of it.
\<close>

definition demo_header :: "byte list" where
  "demo_header =
     [0x44, 0x44, 0x53, 0x20,  0x7C, 0, 0, 0,  0, 0, 0x80, 0] @ replicate 64 0 @
     [0x20, 0, 0, 0,  0x04, 0, 0, 0,  0x44, 0x58, 0x54, 0x31] @ replicate 40 0"

definition demo_metadata :: TexMetadata where
  "demo_metadata = \<lparr>width = 0, height = 0, depth = 0, arraySize = 1, mipLevels = 1,
     miscFlags = 0, miscFlags2 = 0, format = DXGI_FORMAT_BC1_UNORM,
     dimension = TEX_DIMENSION_TEXTURE3D\<rparr>"

section \<open>Properties of the mip chain length\<close>

lemma CountMips_loop_levels:
  "1 \<le> w \<Longrightarrow> 1 \<le> h \<Longrightarrow>
   \<exists>k. CountMips_loop w h m = m + k \<and> (halve_dims ^^ k) (w, h) = (1, 1) \<and>
       (\<forall>j<k. (halve_dims ^^ j) (w, h) \<noteq> (1, 1))"
proof (induction w h m rule: CountMips_loop.induct)
  case (1 w h m)
  show ?case
  proof (cases "h > 1 \<or> w > 1")
    case False
    with 1 have "w = 1" "h = 1" by auto
    then have "CountMips_loop w h m = m + 0" by (simp add: CountMips_loop.simps)
    moreover have "(halve_dims ^^ 0) (w, h) = (1, 1)" using \<open>w = 1\<close> \<open>h = 1\<close> by simp
    ultimately show ?thesis by blast
  next
    case True
    let ?w = "if w > 1 then w div 2 else w"
    let ?h = "if h > 1 then h div 2 else h"
    have step: "halve_dims (w, h) = (?w, ?h)"
      using "1.prems" by (auto simp: halve_dims_def max_def)
    have pos: "1 \<le> ?w" "1 \<le> ?h" using "1.prems" by auto
    from "1.IH"[OF True pos] obtain k where
      k: "CountMips_loop ?w ?h (m + 1) = m + 1 + k"
         "(halve_dims ^^ k) (?w, ?h) = (1, 1)"
         "\<forall>j<k. (halve_dims ^^ j) (?w, ?h) \<noteq> (1, 1)" by blast
    have a: "CountMips_loop w h m = m + Suc k"
      using True k(1) by (subst CountMips_loop.simps) simp
    have b: "(halve_dims ^^ Suc k) (w, h) = (1, 1)"
      using k(2) step by (simp add: funpow_swap1)
    have c: "\<forall>j<Suc k. (halve_dims ^^ j) (w, h) \<noteq> (1, 1)"
    proof (intro allI impI)
      fix j assume j: "j < Suc k"
      show "(halve_dims ^^ j) (w, h) \<noteq> (1, 1)"
      proof (cases j)
        case 0
        then show ?thesis using True by auto
      next
        case (Suc i)
        then have "i < k" using j by simp
        then show ?thesis using k(3) step Suc by (simp add: funpow_swap1)
      qed
    qed
    from a b c show ?thesis by blast
  qed
qed

text \<open>
  Claim C8. For every width and height of at least 1, \<^verbatim>\<open>CountMips\<close> returns a level
  count \<open>v \<ge> 1\<close> such that halving both dimensions \<open>v - 1\<close> times (rounding down,
  never below 1) arrives at \<open>(1, 1)\<close>, and no smaller number of halvings does.
\<close>

theorem CountMips_reaches_unit:
  assumes "1 \<le> w" and "1 \<le> h"
  shows "1 \<le> CountMips w h \<and>
         (halve_dims ^^ (CountMips w h - 1)) (w, h) = (1, 1) \<and>
         (\<forall>j < CountMips w h - 1. (halve_dims ^^ j) (w, h) \<noteq> (1, 1))"
proof -
  from CountMips_loop_levels[OF assms, of 1] obtain k where
    "CountMips_loop w h 1 = 1 + k" "(halve_dims ^^ k) (w, h) = (1, 1)"
    "\<forall>j<k. (halve_dims ^^ j) (w, h) \<noteq> (1, 1)" by blast
  then show ?thesis by (simp add: CountMips_def)
qed

theorem CountMips_reaches_unit_witness:
  "CountMips 5 3 = 3 \<and> (halve_dims ^^ 2) (5, 3) = (1, 1) \<and>
   (halve_dims ^^ 0) (5, 3) \<noteq> (1, 1) \<and> (halve_dims ^^ 1) (5, 3) \<noteq> (1, 1)"
proof -
  have v: "CountMips 5 3 = 3"
    by (simp add: CountMips_def CountMips_loop.simps)
  have e: "(halve_dims ^^ 0) (5, 3) \<noteq> (1, 1)" "(halve_dims ^^ 1) (5, 3) \<noteq> (1, 1)"
    by (simp_all add: halve_dims_def)
  from CountMips_reaches_unit[of 5 3] e show ?thesis
    unfolding v by simp
qed

section \<open>Properties of subresource indexing\<close>

lemma mip_depth_0 [simp]: "mip_depth d 0 = d"
  by (simp add: mip_depth_def)

lemma mip_depth_Suc: "mip_depth d (Suc n) = mip_depth (max 1 (d div 2)) n"
  by (simp only: mip_depth_def funpow_Suc_right o_apply)

lemma mip_depth_pos: "1 \<le> d \<Longrightarrow> 1 \<le> mip_depth d n"
  by (induction n arbitrary: d) (simp_all add: mip_depth_Suc)

lemma mip_depth_le: "1 \<le> d \<Longrightarrow> mip_depth d n \<le> d"
proof (induction n arbitrary: d)
  case 0
  then show ?case by simp
next
  case (Suc n)
  have "mip_depth (max 1 (d div 2)) n \<le> max 1 (d div 2)"
    by (rule Suc.IH) simp
  also have "\<dots> \<le> d" using Suc.prems by simp
  finally show ?case by (simp add: mip_depth_Suc)
qed

lemma sum_mip_depth_le: "1 \<le> d \<Longrightarrow> (\<Sum>l<n. mip_depth d l) \<le> n * d"
proof -
  assume "1 \<le> d"
  then have "(\<Sum>l<n. mip_depth d l) \<le> (\<Sum>l<n. d)"
    by (intro sum_mono mip_depth_le)
  then show ?thesis by simp
qed

lemma sum_mip_depth_Suc:
  "(\<Sum>l<Suc n. mip_depth d l) = d + (\<Sum>l<n. mip_depth (max 1 (d div 2)) l)"
  by (simp add: sum.lessThan_Suc_shift mip_depth_Suc del: sum.lessThan_Suc)

lemma mip_depth_mono: "d \<le> e \<Longrightarrow> mip_depth d n \<le> mip_depth e n"
proof (induction n arbitrary: d e)
  case 0
  then show ?case by simp
next
  case (Suc n)
  have "max 1 (d div 2) \<le> max 1 (e div 2)"
    using div_le_mono[OF Suc.prems, of 2] by (auto simp: max_def)
  then show ?case by (simp only: mip_depth_Suc Suc.IH)
qed

lemma ComputeIndex_levels_closed:
  "1 \<le> d \<Longrightarrow> index + (\<Sum>l<n. mip_depth d l) < 2 ^ size_bits a \<Longrightarrow>
   ComputeIndex_levels a n index d = (index + (\<Sum>l<n. mip_depth d l), mip_depth d n)"
proof (induction n arbitrary: index d)
  case 0
  then show ?case by simp
next
  case (Suc n)
  let ?d = "max 1 (d div 2)"
  have d': "(if d > 1 then d div 2 else d) = ?d" using Suc.prems(1) by auto
  have bound: "(index + d) + (\<Sum>l<n. mip_depth ?d l) < 2 ^ size_bits a"
    using Suc.prems(2) by (simp only: sum_mip_depth_Suc add.assoc)
  then have "index + d < 2 ^ size_bits a" by simp
  then have nowrap: "size_t a (index + d) = index + d"
    by (simp add: size_t_def)
  have "ComputeIndex_levels a (Suc n) index d = ComputeIndex_levels a n (index + d) ?d"
    by (simp only: ComputeIndex_levels.simps d' nowrap)
  also have "\<dots> = (index + d + (\<Sum>l<n. mip_depth ?d l), mip_depth ?d n)"
    by (rule Suc.IH[OF _ bound]) simp
  finally show ?case
    by (simp only: sum_mip_depth_Suc mip_depth_Suc add.assoc)
qed

text \<open>
  The depth the loop arrives at never exceeds the depth of the level, whatever the base
  depth and however the running index wraps.
\<close>

lemma ComputeIndex_levels_depth:
  "snd (ComputeIndex_levels a n index d) \<le> mip_depth d n"
proof (induction n arbitrary: index d)
  case 0
  then show ?case by simp
next
  case (Suc n)
  let ?d = "if d > 1 then d div 2 else d"
  have "snd (ComputeIndex_levels a (Suc n) index d)
          = snd (ComputeIndex_levels a n (size_t a (index + d)) ?d)" by simp
  also have "\<dots> \<le> mip_depth ?d n" by (rule Suc.IH)
  also have "\<dots> \<le> mip_depth (max 1 (d div 2)) n"
    by (rule mip_depth_mono) simp
  finally show ?case by (simp only: mip_depth_Suc)
qed

text \<open>
  Claim C10, as the code has it. For a volume texture \<^verbatim>\<open>ComputeIndex\<close> returns
  \<^verbatim>\<open>size_t(-1)\<close> whenever the mip is not below \<open>mipLevels\<close>, the item is above 0, or the
  slice is not below the depth of that mip level; this holds for every metadata and on
  both targets. When the base depth is at least 1 and the number of slices of all
  levels together is below \<open>2 ^ size_bits\<close>, it returns for every smaller slice the
  number of slices of the earlier levels plus the slice, which is below the total slice
  count and differs from \<^verbatim>\<open>size_t(-1)\<close>.
\<close>

theorem ComputeIndex_volume:
  assumes dim: "dimension md = TEX_DIMENSION_TEXTURE3D"
  shows "(mipLevels md \<le> mip \<or> 0 < item \<or> mip_depth (depth md) mip \<le> slice_no
            \<longrightarrow> ComputeIndex a md mip item slice_no = SIZE_T_MINUS_1 a) \<and>
         (1 \<le> depth md \<and> (\<Sum>l<mipLevels md. mip_depth (depth md) l) < 2 ^ size_bits a \<and>
          mip < mipLevels md \<and> item = 0 \<and> slice_no < mip_depth (depth md) mip
            \<longrightarrow> ComputeIndex a md mip item slice_no
                  = (\<Sum>l<mip. mip_depth (depth md) l) + slice_no \<and>
                ComputeIndex a md mip item slice_no < (\<Sum>l<mipLevels md. mip_depth (depth md) l) \<and>
                ComputeIndex a md mip item slice_no \<noteq> SIZE_T_MINUS_1 a)"
proof -
  have not12: "dimension md \<noteq> TEX_DIMENSION_TEXTURE1D" "dimension md \<noteq> TEX_DIMENSION_TEXTURE2D"
    using dim by (simp_all add: TEX_DIMENSION_TEXTURE1D_def TEX_DIMENSION_TEXTURE2D_def
        TEX_DIMENSION_TEXTURE3D_def)
  have refuse: "ComputeIndex a md mip item slice_no = SIZE_T_MINUS_1 a"
    if "mipLevels md \<le> mip \<or> 0 < item \<or> mip_depth (depth md) mip \<le> slice_no"
  proof (cases "mipLevels md \<le> mip \<or> 0 < item")
    case True
    then show ?thesis using not12 dim by (auto simp: ComputeIndex_def)
  next
    case False
    with that have s: "mip_depth (depth md) mip \<le> slice_no" by simp
    obtain index d where l: "ComputeIndex_levels a mip 0 (depth md) = (index, d)"
      by (cases "ComputeIndex_levels a mip 0 (depth md)")
    from ComputeIndex_levels_depth[of a mip 0 "depth md"] l
    have "d \<le> mip_depth (depth md) mip" by simp
    with s have "d \<le> slice_no" by simp
    then show ?thesis using False not12 dim l by (simp add: ComputeIndex_def)
  qed
  have accept: "ComputeIndex a md mip item slice_no
                  = (\<Sum>l<mip. mip_depth (depth md) l) + slice_no \<and>
                ComputeIndex a md mip item slice_no < (\<Sum>l<mipLevels md. mip_depth (depth md) l) \<and>
                ComputeIndex a md mip item slice_no \<noteq> SIZE_T_MINUS_1 a"
    if d1: "1 \<le> depth md"
      and fits: "(\<Sum>l<mipLevels md. mip_depth (depth md) l) < 2 ^ size_bits a"
      and mip: "mip < mipLevels md" and item: "item = 0"
      and slc: "slice_no < mip_depth (depth md) mip"
  proof -
    let ?S = "\<Sum>l<mip. mip_depth (depth md) l"
    let ?T = "\<Sum>l<mipLevels md. mip_depth (depth md) l"
    have split: "?T = ?S + (\<Sum>l=mip..<mipLevels md. mip_depth (depth md) l)"
      using mip by (simp add: lessThan_atLeast0 sum.atLeastLessThan_concat)
    have "mip_depth (depth md) mip \<le> (\<Sum>l=mip..<mipLevels md. mip_depth (depth md) l)"
      using mip by (simp add: sum.atLeast_Suc_lessThan)
    then have lt: "?S + slice_no < ?T" using slc split by simp
    then have "0 + ?S < 2 ^ size_bits a" using fits by simp
    from ComputeIndex_levels_closed[OF d1 this]
    have loop: "ComputeIndex_levels a mip 0 (depth md) = (?S, mip_depth (depth md) mip)"
      by simp
    have small: "?S + slice_no < 2 ^ size_bits a - 1" using lt fits by simp
    then have "size_t a (?S + slice_no) = ?S + slice_no"
      by (simp add: size_t_def)
    then show ?thesis
      using mip item slc not12 dim loop lt small
      by (simp add: ComputeIndex_def SIZE_T_MINUS_1_def)
  qed
  from refuse accept show ?thesis by blast
qed

text \<open>
  Claim C10 as stated fails in its second half. In a volume of depth \<open>2 ^ 64 - 1\<close> with
  two mip levels, slice 0 of level 1 is below the depth \<open>2 ^ 63 - 1\<close> of that level, yet
  its index \<open>2 ^ 64 - 1\<close> is \<^verbatim>\<open>size_t(-1)\<close> itself. In a volume of depth 0 the loop keeps
  the depth at 0, so slice 0 of level 1 is refused although the depth halved with a
  floor of 1 is 1.
\<close>

theorem ComputeIndex_volume_counterexample:
  "ComputeIndex Arch64 demo_deep_volume 1 0 0 = SIZE_T_MINUS_1 Arch64 \<and>
   (1::nat) < mipLevels demo_deep_volume \<and>
   0 < mip_depth (depth demo_deep_volume) 1 \<and>
   ComputeIndex Arch64 demo_flat_volume 1 0 0 = SIZE_T_MINUS_1 Arch64 \<and>
   (1::nat) < mipLevels demo_flat_volume \<and>
   0 < mip_depth (depth demo_flat_volume) 1"
proof -
  have one: "(1::nat) = Suc 0" by simp
  have m: "mip_depth d (Suc 0) = max 1 (d div 2)" for d
    by (simp add: mip_depth_Suc)
  show ?thesis
    unfolding one
    by (simp add: ComputeIndex_def m demo_deep_volume_def demo_flat_volume_def
        SIZE_T_MINUS_1_def size_t_def TEX_DIMENSION_TEXTURE1D_def TEX_DIMENSION_TEXTURE2D_def
        TEX_DIMENSION_TEXTURE3D_def)
qed

theorem ComputeIndex_volume_witness:
  "ComputeIndex Arch64 demo_volume 2 0 1 = SIZE_T_MINUS_1 Arch64 \<and>
   ComputeIndex Arch64 demo_volume 1 0 1 = 5 \<and>
   ComputeIndex Arch64 demo_volume 1 0 1 \<noteq> SIZE_T_MINUS_1 Arch64"
proof -
  have d1: "mip_depth (depth demo_volume) 1 = 2" unfolding demo_volume_def by code_simp
  have d2: "mip_depth (depth demo_volume) 2 = 1" unfolding demo_volume_def by code_simp
  have s1: "(\<Sum>l<1. mip_depth (depth demo_volume) l) = 4" unfolding demo_volume_def by code_simp
  have s4: "(\<Sum>l<4. mip_depth (depth demo_volume) l) = 8" unfolding demo_volume_def by code_simp
  have m: "mipLevels demo_volume = 4" by (simp add: demo_volume_def)
  have d: "1 \<le> depth demo_volume" by (simp add: demo_volume_def)
  have h: "dimension demo_volume = TEX_DIMENSION_TEXTURE3D"
    by (simp add: demo_volume_def)
  from ComputeIndex_volume[OF h, of 2 0 1 Arch64] ComputeIndex_volume[OF h, of 1 0 1 Arch64] d
  show ?thesis
    unfolding d1 d2 s1 m s4 by simp
qed




section \<open>Properties of the pitch computation\<close>

lemma u64_lt [simp]: "u64 x < 2 ^ 64"
  by (simp add: u64_def)

lemma u64_le: "u64 x \<le> x"
  by (simp add: u64_def)

lemma u64_id: "x < 2 ^ 64 \<Longrightarrow> u64 x = x"
  by (simp add: u64_def)

lemma u64_lt_num [simp]: "u64 x < 18446744073709551616"
  using u64_lt[of x] by simp

lemma u64_div_lt [simp]: "u64 x div k < 2 ^ 64"
  by (rule le_less_trans[OF div_le_dividend u64_lt])

lemma u64_div_lt_num [simp]: "u64 x div k < 18446744073709551616"
  using u64_div_lt[of x k] by simp

lemma size_t_64 [simp]: "x < 2 ^ 64 \<Longrightarrow> size_t Arch64 x = x"
  by (simp add: size_t_def)

lemma size_t_32 [simp]: "x \<le> UINT32_MAX \<Longrightarrow> size_t Arch32 x = x"
  by (simp add: size_t_def UINT32_MAX_def)

lemma bc_pitch_lt: "bc_pitch b w h flags = (p, s) \<Longrightarrow> p < 2 ^ 64 \<and> s < 2 ^ 64"
  by (auto simp: bc_pitch_def Let_def max_def split: if_splits)

lemma linear_pitch_lt: "linear_pitch fmt w h flags = Inr (p, s) \<Longrightarrow> p < 2 ^ 64 \<and> s < 2 ^ 64"
  by (auto simp: linear_pitch_def Let_def split: if_splits)

lemma ComputePitch_switch_lt:
  "ComputePitch_switch fmt w h flags = Inr (p, s) \<Longrightarrow> p < 2 ^ 64 \<and> s < 2 ^ 64"
  unfolding ComputePitch_switch_def Let_def
  by (auto split: if_splits dest: bc_pitch_lt linear_pitch_lt)

lemma u64_small: "x < 2 ^ 40 \<Longrightarrow> u64 x = x"
  by (simp add: u64_def)

lemma u64_mult_left: "u64 (u64 x * y) = u64 (x * y)"
  by (simp add: u64_def mod_mult_left_eq)

lemma dims_nowrap:
  assumes "x < 2 ^ 32"
  shows "u64 x = x"
    "u64 (x + 1) = x + 1"
    "u64 (x + 3) = x + 3"
    "u64 (x div 2) = x div 2"
    "u64 ((x + 1) div 2 * 2) = (x + 1) div 2 * 2"
    "u64 ((x + 1) div 2 * 4) = (x + 1) div 2 * 4"
    "u64 ((x + 1) div 2 * 8) = (x + 1) div 2 * 8"
    "u64 ((x + 3) div 4 * 4) = (x + 3) div 4 * 4"
    "u64 (x div 2 * 4) = x div 2 * 4"
    "u64 (x + (x + 1) div 2) = x + (x + 1) div 2"
    "u64 (x + (x + 1) div 2 * 2) = x + (x + 1) div 2 * 2"
    "u64 (x + x div 2 * 4) = x + x div 2 * 4"
  using assms by (simp_all add: u64_small)

lemma bpp_nowrap:
  assumes w: "w < 2 ^ 32" and b: "bpp \<le> 128"
  shows "u64 (w * bpp) = w * bpp"
    "u64 (w * bpp + 32767) = w * bpp + 32767"
    "u64 (w * bpp + 511) = w * bpp + 511"
    "u64 (w * bpp + 255) = w * bpp + 255"
    "u64 (w * bpp + 127) = w * bpp + 127"
    "u64 (w * bpp + 31) = w * bpp + 31"
    "u64 (w * bpp + 7) = w * bpp + 7"
    "u64 ((w * bpp + 32767) div 32768 * 4096) = (w * bpp + 32767) div 32768 * 4096"
    "u64 ((w * bpp + 511) div 512 * 64) = (w * bpp + 511) div 512 * 64"
    "u64 ((w * bpp + 255) div 256 * 32) = (w * bpp + 255) div 256 * 32"
    "u64 ((w * bpp + 127) div 128 * 16) = (w * bpp + 127) div 128 * 16"
    "u64 ((w * bpp + 31) div 32 * 4) = (w * bpp + 31) div 32 * 4"
proof -
  have "w * bpp \<le> (2 ^ 32 - 1) * 128" using w b by (intro mult_le_mono) simp_all
  then have wb: "w * bpp < 2 ^ 39" by simp
  show "u64 (w * bpp) = w * bpp"
    "u64 (w * bpp + 32767) = w * bpp + 32767"
    "u64 (w * bpp + 511) = w * bpp + 511"
    "u64 (w * bpp + 255) = w * bpp + 255"
    "u64 (w * bpp + 127) = w * bpp + 127"
    "u64 (w * bpp + 31) = w * bpp + 31"
    "u64 (w * bpp + 7) = w * bpp + 7"
    "u64 ((w * bpp + 32767) div 32768 * 4096) = (w * bpp + 32767) div 32768 * 4096"
    "u64 ((w * bpp + 511) div 512 * 64) = (w * bpp + 511) div 512 * 64"
    "u64 ((w * bpp + 255) div 256 * 32) = (w * bpp + 255) div 256 * 32"
    "u64 ((w * bpp + 127) div 128 * 16) = (w * bpp + 127) div 128 * 16"
    "u64 ((w * bpp + 31) div 32 * 4) = (w * bpp + 31) div 32 * 4"
    using wb by (simp_all add: u64_small)
qed

lemma has_flag_or: "has_flag flags (f OR g) \<longleftrightarrow> has_flag flags f \<or> has_flag flags g"
  by (simp add: has_flag_def bit.conj_disj_distrib or_eq_0_iff)

lemma case_sum_if:
  "(case (if c then x else y) of Inl e \<Rightarrow> f e | Inr ps \<Rightarrow> g ps)
     = (if c then (case x of Inl e \<Rightarrow> f e | Inr ps \<Rightarrow> g ps)
        else (case y of Inl e \<Rightarrow> f e | Inr ps \<Rightarrow> g ps))"
  by simp

lemma linear_pitch_exact:
  assumes w: "w < 2 ^ 32" and h: "h < 2 ^ 32"
  shows "linear_pitch fmt w h flags =
           (case linear_exact fmt w h flags of
              Inl e \<Rightarrow> Inl e | Inr (p, s) \<Rightarrow> Inr (p, u64 s))"
proof -
  define bpp where "bpp = (if has_flag flags CP_FLAGS_24BPP then 24
                 else if has_flag flags CP_FLAGS_16BPP then 16
                 else if has_flag flags CP_FLAGS_8BPP then 8
                 else BitsPerPixel fmt)"
  have b: "bpp \<le> 128" by (simp add: bpp_def BitsPerPixel_def)
  note nw = dims_nowrap(1)[OF w] bpp_nowrap[OF w b] dims_nowrap(1)[OF h]
  show ?thesis
    unfolding linear_pitch_def linear_exact_def Let_def bpp_def[symmetric]
    by (simp only: nw) (simp add: has_flag_or)
qed

lemma bc_pitch_exact:
  assumes w: "w < 2 ^ 32" and h: "h < 2 ^ 32" and b: "b = 8 \<or> b = 16"
  shows "Inr (bc_pitch b w h flags) =
           (case bc_exact b w h flags of (p, s) \<Rightarrow> (Inr (p, u64 s) :: HRESULT + nat \<times> nat))"
proof (cases "has_flag flags CP_FLAGS_BAD_DXTN_TAILS")
  case False
  have "u64 (max 1 (u64 (u64 w + 3) div 4) * b) = max 1 ((w + 3) div 4) * b"
    using w b by (auto simp: u64_small max_def)
  moreover have "max 1 (u64 (u64 h + 3) div 4) = max 1 ((h + 3) div 4)"
    using h by (simp add: u64_small)
  ultimately show ?thesis using False
    by (simp add: bc_pitch_def bc_exact_def Let_def)
next
  case True
  let ?p = "max 1 ((w div 4) * b)"
  have p: "max 1 (u64 (u64 (w div 4) * b)) = ?p"
    using w b by (auto simp: u64_small)
  have "?p \<le> 2 ^ 34" using w b by auto
  moreover have "h div 4 \<le> 2 ^ 30 - 1" using h by simp
  ultimately have "?p * (h div 4) \<le> 2 ^ 34 * (2 ^ 30 - 1)" by (rule mult_le_mono)
  then have s: "?p * (h div 4) < 2 ^ 64" by simp
  then have s1: "max 1 (?p * (h div 4)) < 2 ^ 64" by simp
  have hd: "u64 (h div 4) = h div 4" using h by (simp add: u64_small)
  have fin: "max 1 (u64 (?p * (h div 4))) = u64 (max 1 (?p * (h div 4)))"
    using u64_id[OF s] u64_id[OF s1] by simp
  show ?thesis using True
    unfolding bc_pitch_def bc_exact_def Let_def p hd
    by (simp only: fin if_True prod.case)
qed

lemma ComputePitch_switch_exact:
  assumes w: "w < 2 ^ 32" and h: "h < 2 ^ 32"
  shows "ComputePitch_switch fmt w h flags =
           (case exact_pitch fmt w h flags of
              Inl e \<Rightarrow> Inl e | Inr (p, s) \<Rightarrow> Inr (p, u64 s))"
proof -
  note nw = dims_nowrap[OF w] dims_nowrap[OF h]
  have bc: "Inr (bc_pitch 8 w h flags) =
              (case bc_exact 8 w h flags of (p, s) \<Rightarrow> (Inr (p, u64 s) :: HRESULT + nat \<times> nat))"
    "Inr (bc_pitch 16 w h flags) =
              (case bc_exact 16 w h flags of (p, s) \<Rightarrow> (Inr (p, u64 s) :: HRESULT + nat \<times> nat))"
    by (rule bc_pitch_exact[OF w h], simp)+
  show ?thesis
    unfolding ComputePitch_switch_def exact_pitch_def Let_def
    by (simp only: nw bc linear_pitch_exact[OF w h] u64_mult_left case_sum_if sum.case prod.case)
qed

lemma linear_pitch_Inl: "linear_pitch fmt w h flags = Inl e \<Longrightarrow> e = E_INVALIDARG"
  by (auto simp: linear_pitch_def Let_def split: if_splits)

lemma ComputePitch_switch_Inl: "ComputePitch_switch fmt w h flags = Inl e \<Longrightarrow> e = E_INVALIDARG"
  unfolding ComputePitch_switch_def Let_def
  by (auto split: if_splits dest: linear_pitch_Inl)

text \<open>
  Claim C3, as the code has it. Take a width and a height below \<open>2 ^ 32\<close> and let
  \<open>p\<close> and \<open>s\<close> be the exact row pitch and slice pitch. \<^verbatim>\<open>ComputePitch\<close> computes the row
  pitch exactly and the slice pitch modulo \<open>2 ^ 64\<close>. On a 32-bit target it fails with
  \<^verbatim>\<open>HRESULT_E_ARITHMETIC_OVERFLOW\<close> exactly when the row pitch or the wrapped slice pitch
  exceeds \<^verbatim>\<open>UINT32_MAX\<close>; so whenever the row pitch exceeds \<^verbatim>\<open>UINT32_MAX\<close> or the exact
  slice pitch is below \<open>2 ^ 64\<close>, it fails exactly when one of the exact pitches exceeds
  \<^verbatim>\<open>UINT32_MAX\<close> and returns the exact pitches otherwise. On a 64-bit target there is
  no overflow test: it returns the row pitch and the wrapped slice pitch, and for no
  width and height at all does it fail with \<^verbatim>\<open>HRESULT_E_ARITHMETIC_OVERFLOW\<close>.
\<close>

theorem ComputePitch_overflow_check:
  assumes w: "w < 2 ^ 32" and h: "h < 2 ^ 32"
    and ex: "exact_pitch fmt w h flags = Inr (p, s)"
  shows "ComputePitch Arch32 fmt w h flags =
           (if p > UINT32_MAX \<or> s mod 2 ^ 64 > UINT32_MAX
            then Inl HRESULT_E_ARITHMETIC_OVERFLOW else Inr (p, s mod 2 ^ 64)) \<and>
         (p > UINT32_MAX \<or> s < 2 ^ 64 \<longrightarrow>
            ComputePitch Arch32 fmt w h flags =
              (if p > UINT32_MAX \<or> s > UINT32_MAX
               then Inl HRESULT_E_ARITHMETIC_OVERFLOW else Inr (p, s))) \<and>
         ComputePitch Arch64 fmt w h flags = Inr (p, s mod 2 ^ 64) \<and>
         (\<forall>w' h'. ComputePitch Arch64 fmt w' h' flags \<noteq> Inl HRESULT_E_ARITHMETIC_OVERFLOW)"
proof -
  from ComputePitch_switch_exact[OF w h, of fmt flags] ex
  have sw: "ComputePitch_switch fmt w h flags = Inr (p, u64 s)" by simp
  from ComputePitch_switch_lt[OF sw] have lt: "p < 2 ^ 64" "u64 s < 2 ^ 64" by simp_all
  have c1: "ComputePitch Arch32 fmt w h flags =
           (if p > UINT32_MAX \<or> s mod 2 ^ 64 > UINT32_MAX
            then Inl HRESULT_E_ARITHMETIC_OVERFLOW else Inr (p, s mod 2 ^ 64))"
    using sw by (simp add: ComputePitch_def u64_def not_less)
  have c2: "ComputePitch Arch32 fmt w h flags =
              (if p > UINT32_MAX \<or> s > UINT32_MAX
               then Inl HRESULT_E_ARITHMETIC_OVERFLOW else Inr (p, s))"
    if "p > UINT32_MAX \<or> s < 2 ^ 64"
  proof (cases "p > UINT32_MAX")
    case True
    then show ?thesis unfolding c1 by simp
  next
    case False
    with that have "s < 2 ^ 64" by simp
    then have "s mod 2 ^ 64 = s" by simp
    then show ?thesis unfolding c1 by simp
  qed
  have c3: "ComputePitch Arch64 fmt w h flags = Inr (p, s mod 2 ^ 64)"
    using sw lt by (simp add: ComputePitch_def u64_def)
  have c4: "ComputePitch Arch64 fmt w' h' flags \<noteq> Inl HRESULT_E_ARITHMETIC_OVERFLOW" for w' h'
  proof (cases "ComputePitch_switch fmt w' h' flags")
    case (Inl e)
    from ComputePitch_switch_Inl[OF Inl] Inl show ?thesis
      by (simp add: ComputePitch_def E_INVALIDARG_def HRESULT_E_ARITHMETIC_OVERFLOW_def)
  next
    case (Inr ps)
    then show ?thesis by (cases ps) (simp add: ComputePitch_def)
  qed
  from c1 c2 c3 c4 show ?thesis by blast
qed

text \<open>
  Claim C3 as stated fails on both targets. On a 64-bit target a row of \<open>2 ^ 61\<close>
  pixels of 128 bits needs \<open>2 ^ 65\<close> bytes, more than \<^verbatim>\<open>size_t\<close> can hold, and
  \<^verbatim>\<open>ComputePitch\<close> succeeds with the wrapped pitch 0; a BC3 image of \<open>2 ^ 32 - 1\<close> by
  \<open>2 ^ 32 - 1\<close> pixels has a slice of \<open>2 ^ 64\<close> bytes, returned as 0. On a 32-bit target
  an NV12 image of 2863311533 by 4294967291 pixels has a slice of
  \<open>2 ^ 64 + 1431655742\<close> bytes; the 64-bit product wraps to 1431655742, which passes the
  test against \<^verbatim>\<open>UINT32_MAX\<close>, and \<^verbatim>\<open>ComputePitch\<close> succeeds.
\<close>

theorem ComputePitch_overflow_counterexample:
  "ComputePitch Arch64 DXGI_FORMAT_R32G32B32A32_FLOAT (2 ^ 61) 1 CP_FLAGS_NONE = Inr (0, 0) \<and>
   (2 ^ 61 * BitsPerPixel DXGI_FORMAT_R32G32B32A32_FLOAT + 7) div 8 > (2 ^ 64 - 1 :: nat) \<and>
   exact_pitch DXGI_FORMAT_R32G32B32A32_FLOAT (2 ^ 61) 1 CP_FLAGS_NONE = Inr (2 ^ 65, 2 ^ 65) \<and>
   ComputePitch Arch64 DXGI_FORMAT_BC3_UNORM (2 ^ 32 - 1) (2 ^ 32 - 1) CP_FLAGS_NONE
     = Inr (2 ^ 34, 0) \<and>
   exact_pitch DXGI_FORMAT_BC3_UNORM (2 ^ 32 - 1) (2 ^ 32 - 1) CP_FLAGS_NONE
     = Inr (2 ^ 34, 2 ^ 64) \<and>
   ComputePitch Arch32 DXGI_FORMAT_NV12 2863311533 4294967291 CP_FLAGS_NONE
     = Inr (2863311534, 1431655742) \<and>
   exact_pitch DXGI_FORMAT_NV12 2863311533 4294967291 CP_FLAGS_NONE
     = Inr (2863311534, 2 ^ 64 + 1431655742) \<and>
   (2 ^ 64 + 1431655742 :: nat) > UINT32_MAX"
proof -
  have a: "ComputePitch Arch64 DXGI_FORMAT_R32G32B32A32_FLOAT (2 ^ 61) 1 CP_FLAGS_NONE = Inr (0, 0) \<and>
     (2 ^ 61 * BitsPerPixel DXGI_FORMAT_R32G32B32A32_FLOAT + 7) div 8 > (2 ^ 64 - 1 :: nat)"
    by (simp add: ComputePitch_def ComputePitch_switch_def linear_pitch_def BitsPerPixel_def
      has_flag_def CP_FLAGS_NONE_def dxgi u64_def size_t_def)
  have b: "exact_pitch DXGI_FORMAT_R32G32B32A32_FLOAT (2 ^ 61) 1 CP_FLAGS_NONE
             = Inr (2 ^ 65, 2 ^ 65)"
    by (simp add: exact_pitch_def linear_exact_def BitsPerPixel_def
      has_flag_def CP_FLAGS_NONE_def dxgi)
  have c: "ComputePitch Arch64 DXGI_FORMAT_BC3_UNORM (2 ^ 32 - 1) (2 ^ 32 - 1) CP_FLAGS_NONE
     = Inr (2 ^ 34, 0)"
    by (simp add: ComputePitch_def ComputePitch_switch_def bc_pitch_def has_flag_def
      CP_FLAGS_NONE_def CP_FLAGS_BAD_DXTN_TAILS_def dxgi u64_def size_t_def)
  have d: "exact_pitch DXGI_FORMAT_BC3_UNORM (2 ^ 32 - 1) (2 ^ 32 - 1) CP_FLAGS_NONE
     = Inr (2 ^ 34, 2 ^ 64)"
    by (simp add: exact_pitch_def bc_exact_def has_flag_def
      CP_FLAGS_NONE_def CP_FLAGS_BAD_DXTN_TAILS_def dxgi)
  have e: "ComputePitch Arch32 DXGI_FORMAT_NV12 2863311533 4294967291 CP_FLAGS_NONE
     = Inr (2863311534, 1431655742)"
    by (simp add: ComputePitch_def ComputePitch_switch_def dxgi u64_def size_t_def
      UINT32_MAX_def)
  have f: "exact_pitch DXGI_FORMAT_NV12 2863311533 4294967291 CP_FLAGS_NONE
     = Inr (2863311534, 2 ^ 64 + 1431655742)"
    by (simp add: exact_pitch_def dxgi)
  have g: "(2 ^ 64 + 1431655742 :: nat) > UINT32_MAX" by (simp add: UINT32_MAX_def)
  from a b c d e f g show ?thesis by blast
qed

theorem ComputePitch_overflow_check_witness:
  "ComputePitch Arch32 DXGI_FORMAT_R8G8B8A8_UNORM (2 ^ 30) 1 CP_FLAGS_NONE
     = Inl HRESULT_E_ARITHMETIC_OVERFLOW \<and>
   ComputePitch Arch64 DXGI_FORMAT_R8G8B8A8_UNORM (2 ^ 30) 1 CP_FLAGS_NONE
     = Inr (2 ^ 32, 2 ^ 32) \<and>
   ComputePitch Arch32 DXGI_FORMAT_R8G8B8A8_UNORM 16 16 CP_FLAGS_NONE = Inr (64, 1024)"
proof -
  have ex: "exact_pitch DXGI_FORMAT_R8G8B8A8_UNORM (2 ^ 30) 1 CP_FLAGS_NONE
              = Inr (2 ^ 32, 2 ^ 32)"
    by (simp add: exact_pitch_def linear_exact_def BitsPerPixel_def
      has_flag_def CP_FLAGS_NONE_def dxgi)
  have ex2: "exact_pitch DXGI_FORMAT_R8G8B8A8_UNORM 16 16 CP_FLAGS_NONE = Inr (64, 1024)"
    by (simp add: exact_pitch_def linear_exact_def BitsPerPixel_def
      has_flag_def CP_FLAGS_NONE_def dxgi)
  have b: "(2 ^ 30 :: nat) < 2 ^ 32" "(1 :: nat) < 2 ^ 32" "(16 :: nat) < 2 ^ 32" by simp_all
  from ComputePitch_overflow_check[OF b(1) b(2) ex] ComputePitch_overflow_check[OF b(3) b(3) ex2]
  show ?thesis
    by (simp add: UINT32_MAX_def)
qed


lemma u64_leI: "x \<le> y \<Longrightarrow> u64 x \<le> y"
  using u64_le[of x] by simp

lemma max1_leI: "x \<le> y \<Longrightarrow> max (1::nat) x \<le> max 1 y"
  by simp

lemma BitsPerPixel_le: "BitsPerPixel fmt \<le> 128"
  by (simp add: BitsPerPixel_def)

lemma bc_pitch_small:
  assumes "w \<le> 16384" "h \<le> 16384" "b \<le> 16"
  shows "snd (bc_pitch b w h flags) \<le> 2 ^ 38"
  using assms
  apply (simp only: bc_pitch_def Let_def snd_conv split: if_split)
  apply (intro conjI impI)
   apply (rule order_trans,
      (rule u64_leI max1_leI add_le_mono mult_le_mono div_le_mono | assumption | rule le_refl)+,
      simp)+
  done

lemma linear_pitch_small:
  assumes "w \<le> 16384" "h \<le> 16384"
  shows "case linear_pitch fmt w h flags of Inl _ \<Rightarrow> True | Inr (p, s) \<Rightarrow> s \<le> 2 ^ 38"
proof -
  define bpp where "bpp = (if has_flag flags CP_FLAGS_24BPP then 24
                 else if has_flag flags CP_FLAGS_16BPP then 16
                 else if has_flag flags CP_FLAGS_8BPP then 8
                 else BitsPerPixel fmt)"
  have b: "bpp \<le> 128" by (simp add: bpp_def BitsPerPixel_le)
  show ?thesis
    using assms b
    unfolding linear_pitch_def Let_def bpp_def[symmetric]
    apply (simp only: sum.case prod.case split: if_split)
    apply (intro conjI impI TrueI)
         apply (rule order_trans,
        (rule u64_leI max1_leI add_le_mono mult_le_mono div_le_mono | assumption | rule le_refl)+,
        simp)+
    done
qed

lemma ComputePitch_switch_small:
  assumes "w \<le> 16384" "h \<le> 16384"
  shows "case ComputePitch_switch fmt w h flags of Inl _ \<Rightarrow> True | Inr (p, s) \<Rightarrow> s \<le> 2 ^ 38"
proof -
  have bc: "snd (bc_pitch 8 w h flags) \<le> 2 ^ 38" "snd (bc_pitch 16 w h flags) \<le> 2 ^ 38"
    by (rule bc_pitch_small[OF assms], simp)+
  have bc': "(case Inr (bc_pitch b w h flags) :: HRESULT + nat \<times> nat of Inl _ \<Rightarrow> True | Inr (p, s) \<Rightarrow> s \<le> 2 ^ 38)
             = (snd (bc_pitch b w h flags) \<le> 2 ^ 38)" for b
    by (simp add: case_prod_unfold)
  note lin = linear_pitch_small[OF assms, of fmt flags]
  show ?thesis
    using assms bc lin
    unfolding ComputePitch_switch_def Let_def
    apply (simp only: bc' split: if_split)
    apply (simp only: sum.case prod.case)
    apply (intro conjI impI TrueI)
              apply (assumption |
        (rule order_trans,
        (rule u64_leI max1_leI add_le_mono mult_le_mono div_le_mono | assumption | rule le_refl)+,
        simp))+
    done
qed


lemma ComputePitch_Inr_switch:
  assumes "ComputePitch a fmt w h flags = Inr (rp, sp)"
  shows "ComputePitch_switch fmt w h flags = Inr (rp, sp)"
proof (cases "ComputePitch_switch fmt w h flags")
  case (Inl hr)
  with assms show ?thesis by (simp add: ComputePitch_def)
next
  case (Inr ps)
  obtain p s where ps: "ps = (p, s)" by (cases ps)
  from ComputePitch_switch_lt[of fmt w h flags p s] Inr ps
  have lt: "p < 2 ^ 64" "s < 2 ^ 64" by simp_all
  show ?thesis
  proof (cases a)
    case Arch32
    with assms Inr ps show ?thesis
      by (auto simp: ComputePitch_def split: if_splits)
  next
    case Arch64
    with assms Inr ps lt show ?thesis
      by (simp add: ComputePitch_def)
  qed
qed

lemma ComputePitch_switch_compressed:
  "IsCompressed fmt \<Longrightarrow>
   ComputePitch_switch fmt w h flags = Inr (bc_pitch (block_bytes fmt) w h flags)"
  unfolding IsCompressed_def
  by (auto simp: ComputePitch_switch_def block_bytes_def dxgi)

lemma block_bytes_cases: "block_bytes fmt = 8 \<or> block_bytes fmt = 16"
  by (simp add: block_bytes_def)

lemma block_bytes_dvd_u64: "block_bytes fmt dvd u64 (n * block_bytes fmt)"
proof -
  have "block_bytes fmt dvd (2 ^ 64 :: nat)"
    using block_bytes_cases[of fmt] by auto
  then show ?thesis
    unfolding u64_def by (simp add: dvd_mod)
qed

text \<open>
  Claim C4, as the code has it. For every block-compressed format, under the default
  policy, whenever \<^verbatim>\<open>ComputePitch\<close> succeeds the row pitch is a multiple of the block
  size, and the slice pitch is the row pitch times \<open>max 1 (ceil (height / 4))\<close> modulo
  \<open>2 ^ 64\<close>; for a height of at least 1 it is the row pitch times \<open>ceil (height / 4)\<close>
  whenever that product fits 64 bits.
\<close>

theorem ComputePitch_block_compressed:
  assumes bc: "IsCompressed fmt"
    and ok: "ComputePitch a fmt w h CP_FLAGS_NONE = Inr (row_pitch, slice_pitch)"
    and h: "h < 2 ^ size_bits a"
  shows "block_bytes fmt dvd row_pitch \<and>
         (h + 3 < 2 ^ 64 \<longrightarrow> slice_pitch = u64 (row_pitch * max 1 ((h + 3) div 4))) \<and>
         (1 \<le> h \<and> row_pitch * ((h + 3) div 4) < 2 ^ 64
            \<longrightarrow> slice_pitch = row_pitch * ((h + 3) div 4))"
proof -
  let ?B = "block_bytes fmt"
  let ?nbw = "max 1 (u64 (u64 w + 3) div 4)"
  let ?nbh = "max 1 (u64 (u64 h + 3) div 4)"
  have h64: "h < 2 ^ 64"
    using h by (cases a) auto
  from ComputePitch_Inr_switch[OF ok] ComputePitch_switch_compressed[OF bc, of w h CP_FLAGS_NONE]
  have "bc_pitch ?B w h CP_FLAGS_NONE = (row_pitch, slice_pitch)" by simp
  then have rp: "row_pitch = u64 (?nbw * ?B)" and sp: "slice_pitch = u64 (row_pitch * ?nbh)"
    by (auto simp: bc_pitch_def has_flag_def CP_FLAGS_NONE_def Let_def)
  have dvd: "?B dvd row_pitch" unfolding rp by (rule block_bytes_dvd_u64)
  have nbh: "?nbh = max 1 ((h + 3) div 4)" if "h + 3 < 2 ^ 64"
    using that h64 by (simp add: u64_id)
  have second: "slice_pitch = u64 (row_pitch * max 1 ((h + 3) div 4))" if "h + 3 < 2 ^ 64"
    using sp nbh[OF that] by simp
  have third: "slice_pitch = row_pitch * ((h + 3) div 4)"
    if h1: "1 \<le> h" and fit: "row_pitch * ((h + 3) div 4) < 2 ^ 64"
  proof (cases "row_pitch = 0")
    case True
    then show ?thesis using sp by (simp add: u64_def)
  next
    case False
    then have "?B \<le> row_pitch" using dvd by (simp add: dvd_imp_le)
    moreover have "8 \<le> ?B" using block_bytes_cases[of fmt] by auto
    ultimately have "8 \<le> row_pitch" by simp
    then have "8 * ((h + 3) div 4) \<le> row_pitch * ((h + 3) div 4)"
      by (rule mult_le_mono1)
    also note fit
    finally have "8 * ((h + 3) div 4) < (2 ^ 64 :: nat)" .
    then have small: "h + 3 < 2 ^ 64" by simp
    have "max 1 ((h + 3) div 4) = (h + 3) div 4" using h1 by (simp add: max_def)
    with second[OF small] fit show ?thesis by (simp add: u64_id)
  qed
  from dvd second third show ?thesis by blast
qed

text \<open>
  Claim C4 as stated fails at height 0: the block row count has a floor of 1, so the
  slice pitch equals the row pitch and not the row pitch times \<open>ceil (0 / 4) = 0\<close>.
\<close>

theorem ComputePitch_block_compressed_counterexample:
  "ComputePitch Arch64 DXGI_FORMAT_BC1_UNORM 4 0 CP_FLAGS_NONE = Inr (8, 8) \<and>
   (8 :: nat) \<noteq> 8 * ((0 + 3) div 4)"
  by (simp add: ComputePitch_def ComputePitch_switch_def bc_pitch_def has_flag_def
      CP_FLAGS_NONE_def CP_FLAGS_BAD_DXTN_TAILS_def dxgi u64_def size_t_def UINT32_MAX_def)

theorem ComputePitch_block_compressed_witness:
  "ComputePitch Arch64 DXGI_FORMAT_BC3_UNORM 10 7 CP_FLAGS_NONE = Inr (48, 96) \<and>
   block_bytes DXGI_FORMAT_BC3_UNORM dvd 48 \<and> (96::nat) = 48 * ((7 + 3) div 4)"
proof -
  have bc: "IsCompressed DXGI_FORMAT_BC3_UNORM" by (simp add: IsCompressed_def dxgi)
  have ok: "ComputePitch Arch64 DXGI_FORMAT_BC3_UNORM 10 7 CP_FLAGS_NONE = Inr (48, 96)"
    by (simp add: ComputePitch_def ComputePitch_switch_def bc_pitch_def has_flag_def
      CP_FLAGS_NONE_def CP_FLAGS_BAD_DXTN_TAILS_def dxgi u64_def size_t_def UINT32_MAX_def)
  have h: "(7::nat) < 2 ^ size_bits Arch64" by simp
  from ComputePitch_block_compressed[OF bc ok h] ok show ?thesis by simp
qed

section \<open>Properties of the image layout\<close>

lemma next_mip_le: "next_mip x \<le> x"
  by (simp add: next_mip_def)

lemma next_mip_le_trans: "x \<le> b \<Longrightarrow> next_mip x \<le> b"
  using next_mip_le[of x] by simp

lemma next_mip_pos: "1 \<le> x \<Longrightarrow> 1 \<le> next_mip x"
  by (auto simp: next_mip_def)

lemma ComputePitch_slice_small:
  assumes "ComputePitch a fmt w h flags = Inr (rp, sp)" "w \<le> 16384" "h \<le> 16384"
  shows "sp \<le> 2 ^ 38"
  using ComputePitch_switch_small[OF assms(2,3), of fmt flags] ComputePitch_Inr_switch[OF assms(1)]
  by simp

lemma size_t_small: "x < 2 ^ 32 \<Longrightarrow> size_t a x = x"
  by (cases a) (simp_all add: size_t_def)

lemma write_image_length [simp]: "length (write_image images i w h f rp sp px) = length images"
  by (simp add: write_image_def)

lemma laid_out_write:
  assumes inv: "laid_out a fmt flags W H n px images"
    and idx: "n < length images"
    and cp: "ComputePitch a fmt w h flags = Inr (rp, sp)"
    and top: "n = 0 \<longrightarrow> w = W \<and> h = H"
  shows "laid_out a fmt flags W H (n + 1) (px + sp) (write_image images n w h fmt rp sp px)"
proof -
  let ?X = "\<lparr>img_width = w, img_height = h, img_format = fmt,
             rowPitch = rp, slicePitch = sp, pixels = px\<rparr>"
  let ?im = "images[n := ?X]"
  have old: "?im ! j = images ! j" if "j < n" for j using that by simp
  have new: "?im ! n = ?X" using idx by simp
  have sums: "(\<Sum>j<i. slicePitch (?im ! j)) = (\<Sum>j<i. slicePitch (images ! j))"
    if "i \<le> n" for i
    using that by (intro sum.cong) auto
  from inv have px: "px = (\<Sum>j<n. slicePitch (images ! j))"
    and first: "0 < n \<longrightarrow> img_width (images ! 0) = W \<and> img_height (images ! 0) = H"
    and each: "\<And>i. i < n \<Longrightarrow>
         img_format (images ! i) = fmt \<and>
         ComputePitch a fmt (img_width (images ! i)) (img_height (images ! i)) flags
           = Inr (rowPitch (images ! i), slicePitch (images ! i)) \<and>
         pixels (images ! i) = (\<Sum>j<i. slicePitch (images ! j))"
    by (simp_all add: laid_out_def)
  have c1: "n + 1 \<le> length ?im" using idx by simp
  have c2: "px + sp = (\<Sum>j<n + 1. slicePitch (?im ! j))"
    using px new sums[of n] by simp
  have c3: "img_width (?im ! 0) = W \<and> img_height (?im ! 0) = H"
  proof (cases "n = 0")
    case True
    with top new show ?thesis by simp
  next
    case False
    with first old[of 0] show ?thesis by simp
  qed
  have c4: "img_format (?im ! i) = fmt \<and>
         ComputePitch a fmt (img_width (?im ! i)) (img_height (?im ! i)) flags
           = Inr (rowPitch (?im ! i), slicePitch (?im ! i)) \<and>
         pixels (?im ! i) = (\<Sum>j<i. slicePitch (?im ! j))" if "i < n + 1" for i
  proof (cases "i = n")
    case True
    show ?thesis unfolding True new sums[OF le_refl] using cp px by simp
  next
    case False
    with that have i: "i < n" by simp
    then have "i \<le> n" by simp
    from each[OF i] show ?thesis unfolding old[OF i] sums[OF \<open>i \<le> n\<close>] .
  qed
  from c1 c2 c3 c4 show ?thesis
    unfolding laid_out_def write_image_def by blast
qed

lemma mips_layout:
  assumes "Determine_mips a fmt flags k w h t n = Some (t', n')"
    and "w \<le> 16384" "h \<le> 16384"
    and "t + k * 2 ^ 38 < 2 ^ 64" "n + k < 2 ^ 32"
    and "n = 0 \<longrightarrow> w = W \<and> h = H"
  shows "n' = n + k \<and> t \<le> t' \<and> t' \<le> t + k * 2 ^ 38 \<and>
         (\<forall>images pEnd. n' \<le> length images \<longrightarrow> t' \<le> pEnd \<longrightarrow> laid_out a fmt flags W H n t images \<longrightarrow>
            (\<exists>images'. Setup_mips a fmt flags (length images) pEnd k w h n t images
                          = Some (n', t', images') \<and>
                        length images' = length images \<and> laid_out a fmt flags W H n' t' images'))"
  using assms
proof (induction k arbitrary: w h t n)
  case 0
  then show ?case by simp
next
  case (Suc k)
  from Suc.prems(1) obtain rp sp where
    cp: "ComputePitch a fmt w h flags = Inr (rp, sp)"
    by (auto split: sum.splits)
  from ComputePitch_slice_small[OF cp Suc.prems(2,3)] have sp: "sp \<le> 2 ^ 38" .
  have t1: "u64 (t + u64 sp) = t + sp"
    using sp Suc.prems(4) by (simp add: u64_def)
  have n1: "size_t a (n + 1) = n + 1"
    using Suc.prems(5) by (simp add: size_t_small)
  from Suc.prems(1) cp t1 n1 have rest:
    "Determine_mips a fmt flags k (next_mip w) (next_mip h) (t + sp) (n + 1) = Some (t', n')"
    by simp
  have b1: "(t + sp) + k * 2 ^ 38 < 2 ^ 64" using sp Suc.prems(4) by simp
  have b2: "(n + 1) + k < 2 ^ 32" using Suc.prems(5) by simp
  have b3: "n + 1 = 0 \<longrightarrow> next_mip w = W \<and> next_mip h = H" by simp
  note IH = Suc.IH[OF rest next_mip_le_trans[OF Suc.prems(2)] next_mip_le_trans[OF Suc.prems(3)]
      b1 b2 b3]
  from IH have f1: "n' = n + Suc k" and f2: "t + sp \<le> t'" and f3: "t' \<le> t + sp + k * 2 ^ 38"
    by simp_all
  have sim: "\<exists>images'. Setup_mips a fmt flags (length images) pEnd (Suc k) w h n t images
                          = Some (n', t', images') \<and>
                        length images' = length images \<and> laid_out a fmt flags W H n' t' images'"
    if hyp: "n' \<le> length images" "t' \<le> pEnd" "laid_out a fmt flags W H n t images"
    for images pEnd
  proof -
    let ?im = "write_image images n w h fmt rp sp t"
    have idx: "n < length images" using hyp(1) f1 by simp
    have inv: "laid_out a fmt flags W H (n + 1) (t + sp) ?im"
      by (rule laid_out_write[OF hyp(3) idx cp Suc.prems(6)])
    have len: "length ?im = length images" by simp
    from IH have "n' \<le> length ?im \<longrightarrow> t' \<le> pEnd \<longrightarrow> laid_out a fmt flags W H (n + 1) (t + sp) ?im \<longrightarrow>
                 (\<exists>images'. Setup_mips a fmt flags (length ?im) pEnd k (next_mip w) (next_mip h)
                     (n + 1) (t + sp) ?im = Some (n', t', images') \<and>
                   length images' = length ?im \<and> laid_out a fmt flags W H n' t' images')"
      by blast
    then have "\<exists>images'. Setup_mips a fmt flags (length images) pEnd k (next_mip w) (next_mip h)
                     (n + 1) (t + sp) ?im = Some (n', t', images') \<and>
                   length images' = length images \<and> laid_out a fmt flags W H n' t' images'"
      using hyp(1,2) inv unfolding len by blast
    then obtain images' where
      "Setup_mips a fmt flags (length images) pEnd k (next_mip w) (next_mip h)
                     (n + 1) (t + sp) ?im = Some (n', t', images')"
      "length images' = length images" "laid_out a fmt flags W H n' t' images'" by auto
    moreover have "\<not> t + sp > pEnd" using f2 hyp(2) by simp
    ultimately show ?thesis
      using idx cp n1 by (simp add: Let_def)
  qed
  from f1 f2 f3 sp sim show ?case by auto
qed


lemma items_layout:
  assumes "Determine_items a fmt flags k levels w h t n = Some (t', n')"
    and "w \<le> 16384" "h \<le> 16384"
    and "t + k * (levels * 2 ^ 38) < 2 ^ 64" "n + k * levels < 2 ^ 32"
    and "n = 0 \<longrightarrow> w = W \<and> h = H"
  shows "n' = n + k * levels \<and> t \<le> t' \<and> t' \<le> t + k * (levels * 2 ^ 38) \<and>
         (\<forall>images pEnd. n' \<le> length images \<longrightarrow> t' \<le> pEnd \<longrightarrow> laid_out a fmt flags W H n t images \<longrightarrow>
            (\<exists>images'. Setup_items a fmt flags (length images) pEnd k levels w h n t images
                          = Some (n', t', images') \<and>
                        length images' = length images \<and> laid_out a fmt flags W H n' t' images'))"
  using assms
proof (induction k arbitrary: t n)
  case 0
  then show ?case by simp
next
  case (Suc k)
  from Suc.prems(1) obtain t1 n1 where
    m: "Determine_mips a fmt flags levels w h t n = Some (t1, n1)" and
    r: "Determine_items a fmt flags k levels w h t1 n1 = Some (t', n')"
    by (auto split: option.splits)
  have mb1: "t + levels * 2 ^ 38 < 2 ^ 64" using Suc.prems(4) by simp
  have mb2: "n + levels < 2 ^ 32" using Suc.prems(5) by simp
  note M = mips_layout[OF m Suc.prems(2,3) mb1 mb2 Suc.prems(6)]
  from M have n1: "n1 = n + levels" and t1: "t \<le> t1" "t1 \<le> t + levels * 2 ^ 38" by simp_all
  have b1: "t1 + k * (levels * 2 ^ 38) < 2 ^ 64" using t1 Suc.prems(4) by simp
  have b2: "n1 + k * levels < 2 ^ 32" using n1 Suc.prems(5) by simp
  have b3: "n1 = 0 \<longrightarrow> w = W \<and> h = H" using n1 Suc.prems(6) by simp
  note IH = Suc.IH[OF r Suc.prems(2,3) b1 b2 b3]
  from IH have f1: "n' = n1 + k * levels" and f2: "t1 \<le> t'" by simp_all
  have sim: "\<exists>images'. Setup_items a fmt flags (length images) pEnd (Suc k) levels w h n t images
                          = Some (n', t', images') \<and>
                        length images' = length images \<and> laid_out a fmt flags W H n' t' images'"
    if hyp: "n' \<le> length images" "t' \<le> pEnd" "laid_out a fmt flags W H n t images" for images pEnd
  proof -
    have "n1 \<le> length images" "t1 \<le> pEnd" using hyp f1 f2 by simp_all
    with M hyp(3) obtain im1 where
      s1: "Setup_mips a fmt flags (length images) pEnd levels w h n t images = Some (n1, t1, im1)"
      and l1: "length im1 = length images" and i1: "laid_out a fmt flags W H n1 t1 im1" by blast
    from IH have "n' \<le> length im1 \<longrightarrow> t' \<le> pEnd \<longrightarrow> laid_out a fmt flags W H n1 t1 im1 \<longrightarrow>
        (\<exists>images'. Setup_items a fmt flags (length im1) pEnd k levels w h n1 t1 im1
                          = Some (n', t', images') \<and>
                        length images' = length im1 \<and> laid_out a fmt flags W H n' t' images')" by blast
    then obtain images' where
      "Setup_items a fmt flags (length images) pEnd k levels w h n1 t1 im1 = Some (n', t', images')"
      "length images' = length images" "laid_out a fmt flags W H n' t' images'"
      using hyp i1 unfolding l1 by blast
    then show ?thesis using s1 by simp
  qed
  have f3: "t' \<le> t + Suc k * (levels * 2 ^ 38)" using IH t1 by simp
  from n1 f1 t1 f2 f3 sim show ?case by auto
qed

lemma slices_layout:
  assumes "t + d * sp < 2 ^ 64" "n + d < 2 ^ 32"
    and "ComputePitch a fmt w h flags = Inr (rp, sp)"
    and "n = 0 \<longrightarrow> w = W \<and> h = H"
  shows "Determine_slices a d sp t n = (t + d * sp, n + d) \<and>
         (\<forall>images pEnd. n + d \<le> length images \<longrightarrow> t + d * sp \<le> pEnd \<longrightarrow> laid_out a fmt flags W H n t images \<longrightarrow>
            (\<exists>images'. Setup_slices a fmt (length images) pEnd d w h rp sp n t images
                          = Some (n + d, t + d * sp, images') \<and>
                        length images' = length images \<and> laid_out a fmt flags W H (n + d) (t + d * sp) images'))"
  using assms
proof (induction d arbitrary: t n)
  case 0
  then show ?case by simp
next
  case (Suc d)
  have sp: "sp < 2 ^ 64" using Suc.prems(1) by simp
  have t1: "u64 (t + u64 sp) = t + sp"
    using sp Suc.prems(1) by (simp add: u64_def)
  have n1: "size_t a (n + 1) = n + 1"
    using Suc.prems(2) by (simp add: size_t_small)
  have b1: "(t + sp) + d * sp < 2 ^ 64" using Suc.prems(1) by (simp add: add.assoc)
  have b2: "(n + 1) + d < 2 ^ 32" using Suc.prems(2) by simp
  have b3: "n + 1 = 0 \<longrightarrow> w = W \<and> h = H" by simp
  note IH = Suc.IH[OF b1 b2 Suc.prems(3) b3]
  have det: "Determine_slices a (Suc d) sp t n = (t + Suc d * sp, n + Suc d)"
    using IH t1 n1 by (simp add: add.assoc)
  have sim: "\<exists>images'. Setup_slices a fmt (length images) pEnd (Suc d) w h rp sp n t images
                          = Some (n + Suc d, t + Suc d * sp, images') \<and>
                        length images' = length images \<and>
                        laid_out a fmt flags W H (n + Suc d) (t + Suc d * sp) images'"
    if hyp: "n + Suc d \<le> length images" "t + Suc d * sp \<le> pEnd"
      "laid_out a fmt flags W H n t images" for images pEnd
  proof -
    let ?im = "write_image images n w h fmt rp sp t"
    have idx: "n < length images" using hyp(1) by simp
    have inv: "laid_out a fmt flags W H (n + 1) (t + sp) ?im"
      by (rule laid_out_write[OF hyp(3) idx Suc.prems(3,4)])
    have len: "length ?im = length images" by simp
    from IH have "(n + 1) + d \<le> length ?im \<longrightarrow> (t + sp) + d * sp \<le> pEnd \<longrightarrow>
                  laid_out a fmt flags W H (n + 1) (t + sp) ?im \<longrightarrow>
                 (\<exists>images'. Setup_slices a fmt (length ?im) pEnd d w h rp sp (n + 1) (t + sp) ?im
                     = Some ((n + 1) + d, (t + sp) + d * sp, images') \<and>
                   length images' = length ?im \<and> laid_out a fmt flags W H ((n + 1) + d) ((t + sp) + d * sp) images')"
      by blast
    moreover have "(n + 1) + d \<le> length images" "(t + sp) + d * sp \<le> pEnd"
      using hyp by (simp_all add: add.assoc)
    ultimately obtain images' where
      "Setup_slices a fmt (length images) pEnd d w h rp sp (n + 1) (t + sp) ?im
                     = Some ((n + 1) + d, (t + sp) + d * sp, images')"
      "length images' = length images" "laid_out a fmt flags W H ((n + 1) + d) ((t + sp) + d * sp) images'"
      using inv unfolding len by blast
    moreover have "\<not> t + sp > pEnd" using hyp(2) by simp
    ultimately show ?thesis
      using idx n1 by (simp add: Let_def add.assoc)
  qed
  from det sim show ?case by blast
qed

lemma volume_layout:
  assumes "Determine_volume a fmt flags k w h d t n = Some (t', n')"
    and "w \<le> 16384" "h \<le> 16384" "1 \<le> d" "d \<le> 2048"
    and "t + k * (2048 * 2 ^ 38) < 2 ^ 64" "n + k * 2048 < 2 ^ 32"
    and "n = 0 \<longrightarrow> w = W \<and> h = H"
  shows "n' = n + (\<Sum>l<k. mip_depth d l) \<and> n + k \<le> n' \<and> t \<le> t' \<and> t' \<le> t + k * (2048 * 2 ^ 38) \<and>
         (\<forall>images pEnd. n' \<le> length images \<longrightarrow> t' \<le> pEnd \<longrightarrow> laid_out a fmt flags W H n t images \<longrightarrow>
            (\<exists>images'. Setup_volume a fmt flags (length images) pEnd k w h d n t images
                          = Some (n', t', images') \<and>
                        length images' = length images \<and> laid_out a fmt flags W H n' t' images'))"
  using assms
proof (induction k arbitrary: w h d t n)
  case 0
  then show ?case by simp
next
  case (Suc k)
  from Suc.prems(1) obtain rp sp where
    cp: "ComputePitch a fmt w h flags = Inr (rp, sp)"
    by (auto split: sum.splits)
  from ComputePitch_slice_small[OF cp Suc.prems(2,3)] have sp: "sp \<le> 2 ^ 38" .
  have "d * sp \<le> 2048 * 2 ^ 38" using sp Suc.prems(5) by (rule mult_le_mono[rotated])
  then have dsp: "d * sp \<le> 2048 * 2 ^ 38" .
  have sb1: "t + d * sp < 2 ^ 64" using dsp Suc.prems(6) by simp
  have sb2: "n + d < 2 ^ 32" using Suc.prems(5,7) by simp
  note S = slices_layout[OF sb1 sb2 cp Suc.prems(8)]
  from S have ds: "Determine_slices a d sp t n = (t + d * sp, n + d)" by simp
  from Suc.prems(1) cp ds have r:
    "Determine_volume a fmt flags k (next_mip w) (next_mip h) (next_mip d) (t + d * sp) (n + d)
       = Some (t', n')" by simp
  have b1: "(t + d * sp) + k * (2048 * 2 ^ 38) < 2 ^ 64" using dsp Suc.prems(6) by simp
  have b2: "(n + d) + k * 2048 < 2 ^ 32" using Suc.prems(5,7) by simp
  have b3: "n + d = 0 \<longrightarrow> next_mip w = W \<and> next_mip h = H" using Suc.prems(4) by simp
  note IH = Suc.IH[OF r next_mip_le_trans[OF Suc.prems(2)] next_mip_le_trans[OF Suc.prems(3)]
      next_mip_pos[OF Suc.prems(4)] next_mip_le_trans[OF Suc.prems(5)] b1 b2 b3]
  from IH have f1: "n + d + k \<le> n'" and f2: "t + d * sp \<le> t'" by simp_all
  have nm: "next_mip d = max 1 (d div 2)" using Suc.prems(4) by (auto simp: next_mip_def)
  from IH have "n' = n + d + (\<Sum>l<k. mip_depth (next_mip d) l)" by simp
  then have f0: "n' = n + (\<Sum>l<Suc k. mip_depth d l)"
    by (simp only: sum_mip_depth_Suc nm add.assoc)
  have sim: "\<exists>images'. Setup_volume a fmt flags (length images) pEnd (Suc k) w h d n t images
                          = Some (n', t', images') \<and>
                        length images' = length images \<and> laid_out a fmt flags W H n' t' images'"
    if hyp: "n' \<le> length images" "t' \<le> pEnd" "laid_out a fmt flags W H n t images" for images pEnd
  proof -
    have "n + d \<le> length images" "t + d * sp \<le> pEnd" using hyp f1 f2 by simp_all
    with S hyp(3) obtain im1 where
      s1: "Setup_slices a fmt (length images) pEnd d w h rp sp n t images
             = Some (n + d, t + d * sp, im1)"
      and l1: "length im1 = length images" and i1: "laid_out a fmt flags W H (n + d) (t + d * sp) im1" by blast
    from IH have "n' \<le> length im1 \<longrightarrow> t' \<le> pEnd \<longrightarrow> laid_out a fmt flags W H (n + d) (t + d * sp) im1 \<longrightarrow>
        (\<exists>images'. Setup_volume a fmt flags (length im1) pEnd k (next_mip w) (next_mip h)
                       (next_mip d) (n + d) (t + d * sp) im1 = Some (n', t', images') \<and>
                        length images' = length im1 \<and> laid_out a fmt flags W H n' t' images')" by blast
    then obtain images' where
      "Setup_volume a fmt flags (length images) pEnd k (next_mip w) (next_mip h)
                       (next_mip d) (n + d) (t + d * sp) im1 = Some (n', t', images')"
      "length images' = length images" "laid_out a fmt flags W H n' t' images'"
      using hyp i1 unfolding l1 by blast
    then show ?thesis using s1 cp by simp
  qed
  have f3: "t' \<le> t + Suc k * (2048 * 2 ^ 38)" using IH dsp by simp
  from f0 f1 f2 f3 Suc.prems(4) sim show ?case by auto
qed


lemma laid_out_0: "laid_out a fmt flags W H 0 0 images"
  by (simp add: laid_out_def)

lemma laid_out_final:
  assumes inv: "laid_out a fmt flags W H n t images" and len: "length images = n" and pos: "1 \<le> n"
  shows "img_width (images ! 0) = W \<and> img_height (images ! 0) = H \<and>
         (\<forall>i<n. img_format (images ! i) = fmt \<and>
                 ComputePitch a fmt (img_width (images ! i)) (img_height (images ! i)) flags
                   = Inr (rowPitch (images ! i), slicePitch (images ! i)) \<and>
                 pixels (images ! i) = (\<Sum>j<i. slicePitch (images ! j))) \<and>
         (\<Sum>j<n. slicePitch (images ! j)) = t \<and>
         pixels (last images) + slicePitch (last images) = t"
proof -
  obtain m where n: "n = Suc m" using pos by (cases n) auto
  have ne: "images \<noteq> []" using len n by auto
  have l: "last images = images ! m" using len n ne by (simp add: last_conv_nth)
  from inv have t: "t = (\<Sum>j<n. slicePitch (images ! j))"
    and p: "pixels (images ! m) = (\<Sum>j<m. slicePitch (images ! j))"
    by (simp_all add: laid_out_def n)
  have "pixels (last images) + slicePitch (last images) = t"
    unfolding l p t n by simp
  with inv pos show ?thesis by (simp add: laid_out_def)
qed

text \<open>
  What \<^verbatim>\<open>SetupImageArray\<close> leaves below the final index does not depend on what the
  array held before the call.
\<close>

lemma take_write_image:
  assumes "n < length images" "length other = length images" "take n other = take n images"
    and "m \<le> n + 1"
  shows "take m (write_image other n w h f rp sp px) = take m (write_image images n w h f rp sp px)"
proof -
  have "take (Suc n) (write_image other n w h f rp sp px)
          = take (Suc n) (write_image images n w h f rp sp px)"
    using assms(1-3) by (simp add: write_image_def take_Suc_conv_app_nth)
  then have "take m (take (Suc n) (write_image other n w h f rp sp px))
               = take m (take (Suc n) (write_image images n w h f rp sp px))" by simp
  then show ?thesis using assms(4) by (simp add: min_def)
qed

lemma size_t_le_self: "size_t a x \<le> x"
  by (simp add: size_t_def)

lemma Setup_mips_indep:
  assumes "Setup_mips a fmt flags nI pEnd k w h n t images = Some (n', t', im')"
    and "nI \<le> length images" "length other = length images" "take n other = take n images"
  shows "\<exists>im2. Setup_mips a fmt flags nI pEnd k w h n t other = Some (n', t', im2) \<and>
               length im' = length images \<and> length im2 = length images \<and>
               take n' im2 = take n' im'"
  using assms
proof (induction k arbitrary: w h n t images other)
  case 0
  then show ?case by simp
next
  case (Suc k)
  from Suc.prems(1) have idx: "n < nI" by (simp split: if_splits)
  with Suc.prems(1) obtain rp sp where
    cp: "ComputePitch a fmt w h flags = Inr (rp, sp)"
    by (auto split: sum.splits)
  let ?i1 = "write_image images n w h fmt rp sp t"
  let ?o1 = "write_image other n w h fmt rp sp t"
  from Suc.prems(1) idx cp have fit: "\<not> t + sp > pEnd" and
    rest: "Setup_mips a fmt flags nI pEnd k (next_mip w) (next_mip h)
             (size_t a (n + 1)) (t + sp) ?i1 = Some (n', t', im')"
    by (simp_all add: Let_def split: if_splits)
  have n: "n < length images" using idx Suc.prems(2) by simp
  have tk: "take (size_t a (n + 1)) ?o1 = take (size_t a (n + 1)) ?i1"
    by (rule take_write_image[OF n Suc.prems(3,4) size_t_le_self])
  have "\<exists>im2. Setup_mips a fmt flags nI pEnd k (next_mip w) (next_mip h)
             (size_t a (n + 1)) (t + sp) ?o1 = Some (n', t', im2) \<and>
           length im' = length ?i1 \<and> length im2 = length ?i1 \<and> take n' im2 = take n' im'"
    by (rule Suc.IH[OF rest _ _ tk]) (simp_all add: Suc.prems(2,3))
  then show ?case using idx cp fit by (simp add: Let_def)
qed

lemma Setup_items_indep:
  assumes "Setup_items a fmt flags nI pEnd k levels w h n t images = Some (n', t', im')"
    and "nI \<le> length images" "length other = length images" "take n other = take n images"
  shows "\<exists>im2. Setup_items a fmt flags nI pEnd k levels w h n t other = Some (n', t', im2) \<and>
               length im' = length images \<and> length im2 = length images \<and>
               take n' im2 = take n' im'"
  using assms
proof (induction k arbitrary: n t images other)
  case 0
  then show ?case by simp
next
  case (Suc k)
  from Suc.prems(1) obtain n1 t1 i1 where
    m: "Setup_mips a fmt flags nI pEnd levels w h n t images = Some (n1, t1, i1)" and
    r: "Setup_items a fmt flags nI pEnd k levels w h n1 t1 i1 = Some (n', t', im')"
    by (auto split: option.splits)
  from Setup_mips_indep[OF m Suc.prems(2,3,4)] obtain o1 where
    mo: "Setup_mips a fmt flags nI pEnd levels w h n t other = Some (n1, t1, o1)" and
    l: "length i1 = length images" "length o1 = length images" and
    tk: "take n1 o1 = take n1 i1" by blast
  have "\<exists>im2. Setup_items a fmt flags nI pEnd k levels w h n1 t1 o1 = Some (n', t', im2) \<and>
               length im' = length i1 \<and> length im2 = length i1 \<and> take n' im2 = take n' im'"
    by (rule Suc.IH[OF r _ _ tk]) (simp_all add: l Suc.prems(2))
  then show ?case using mo l by simp
qed

lemma Setup_slices_indep:
  assumes "Setup_slices a fmt nI pEnd k w h rp sp n t images = Some (n', t', im')"
    and "nI \<le> length images" "length other = length images" "take n other = take n images"
  shows "\<exists>im2. Setup_slices a fmt nI pEnd k w h rp sp n t other = Some (n', t', im2) \<and>
               length im' = length images \<and> length im2 = length images \<and>
               take n' im2 = take n' im'"
  using assms
proof (induction k arbitrary: n t images other)
  case 0
  then show ?case by simp
next
  case (Suc k)
  from Suc.prems(1) have idx: "n < nI" by (simp split: if_splits)
  let ?i1 = "write_image images n w h fmt rp sp t"
  let ?o1 = "write_image other n w h fmt rp sp t"
  from Suc.prems(1) idx have fit: "\<not> t + sp > pEnd" and
    rest: "Setup_slices a fmt nI pEnd k w h rp sp (size_t a (n + 1)) (t + sp) ?i1
             = Some (n', t', im')"
    by (simp_all add: Let_def split: if_splits)
  have n: "n < length images" using idx Suc.prems(2) by simp
  have tk: "take (size_t a (n + 1)) ?o1 = take (size_t a (n + 1)) ?i1"
    by (rule take_write_image[OF n Suc.prems(3,4) size_t_le_self])
  have "\<exists>im2. Setup_slices a fmt nI pEnd k w h rp sp (size_t a (n + 1)) (t + sp) ?o1
                 = Some (n', t', im2) \<and>
           length im' = length ?i1 \<and> length im2 = length ?i1 \<and> take n' im2 = take n' im'"
    by (rule Suc.IH[OF rest _ _ tk]) (simp_all add: Suc.prems(2,3))
  then show ?case using idx fit by (simp add: Let_def)
qed

lemma Setup_volume_indep:
  assumes "Setup_volume a fmt flags nI pEnd k w h d n t images = Some (n', t', im')"
    and "nI \<le> length images" "length other = length images" "take n other = take n images"
  shows "\<exists>im2. Setup_volume a fmt flags nI pEnd k w h d n t other = Some (n', t', im2) \<and>
               length im' = length images \<and> length im2 = length images \<and>
               take n' im2 = take n' im'"
  using assms
proof (induction k arbitrary: w h d n t images other)
  case 0
  then show ?case by simp
next
  case (Suc k)
  from Suc.prems(1) obtain rp sp where
    cp: "ComputePitch a fmt w h flags = Inr (rp, sp)"
    by (auto split: sum.splits)
  with Suc.prems(1) obtain n1 t1 i1 where
    m: "Setup_slices a fmt nI pEnd d w h rp sp n t images = Some (n1, t1, i1)" and
    r: "Setup_volume a fmt flags nI pEnd k (next_mip w) (next_mip h) (next_mip d) n1 t1 i1
          = Some (n', t', im')"
    by (auto split: option.splits)
  from Setup_slices_indep[OF m Suc.prems(2,3,4)] obtain o1 where
    mo: "Setup_slices a fmt nI pEnd d w h rp sp n t other = Some (n1, t1, o1)" and
    l: "length i1 = length images" "length o1 = length images" and
    tk: "take n1 o1 = take n1 i1" by blast
  have "\<exists>im2. Setup_volume a fmt flags nI pEnd k (next_mip w) (next_mip h) (next_mip d) n1 t1 o1
                 = Some (n', t', im2) \<and>
               length im' = length i1 \<and> length im2 = length i1 \<and> take n' im2 = take n' im'"
    by (rule Suc.IH[OF r _ _ tk]) (simp_all add: l Suc.prems(2))
  then show ?case using cp mo l by simp
qed

text \<open>
  The width and the height \<^verbatim>\<open>SetupImageArray\<close> writes into each descriptor, by the
  position of the descriptor in the traversal.
\<close>

lemma next_mip_funpow: "1 \<le> x \<Longrightarrow> (next_mip ^^ j) x = mip_extent x j"
proof (induction j arbitrary: x)
  case 0
  then show ?case by (simp add: mip_extent_def)
next
  case (Suc j)
  have n: "next_mip x = max 1 (x div 2)" using Suc.prems by (auto simp: next_mip_def)
  have "1 \<le> next_mip x" using Suc.prems by (rule next_mip_pos)
  from Suc.IH[OF this] show ?case
    by (simp only: funpow_Suc_right o_apply mip_extent_def n)
qed

lemma nth_write_image_other:
  "i \<noteq> n \<Longrightarrow> write_image images n w h f rp sp px ! i = images ! i"
  by (simp add: write_image_def)

lemma nth_write_image_same:
  "n < length images \<Longrightarrow>
   write_image images n w h f rp sp px
     ! n = \<lparr>img_width = w, img_height = h, img_format = f,
            rowPitch = rp, slicePitch = sp, pixels = px\<rparr>"
  by (simp add: write_image_def)

lemma Setup_mips_dims:
  assumes "Setup_mips a fmt flags nI pEnd k w h n t images = Some (n', t', im')"
    and "nI \<le> length images" "n + k < 2 ^ 32"
  shows "n' = n + k \<and> length im' = length images \<and>
         (\<forall>i<n. im' ! i = images ! i) \<and>
         (\<forall>j<k. img_width (im' ! (n + j)) = (next_mip ^^ j) w \<and>
                 img_height (im' ! (n + j)) = (next_mip ^^ j) h)"
  using assms
proof (induction k arbitrary: w h n t images)
  case 0
  then show ?case by simp
next
  case (Suc k)
  from Suc.prems(1) have idx: "n < nI" by (simp split: if_splits)
  with Suc.prems(1) obtain rp sp where
    cp: "ComputePitch a fmt w h flags = Inr (rp, sp)"
    by (auto split: sum.splits)
  let ?i1 = "write_image images n w h fmt rp sp t"
  have n1: "size_t a (n + 1) = n + 1"
    using Suc.prems(3) by (simp add: size_t_small)
  from Suc.prems(1) idx cp n1 have
    rest: "Setup_mips a fmt flags nI pEnd k (next_mip w) (next_mip h) (n + 1) (t + sp) ?i1
             = Some (n', t', im')"
    by (simp add: Let_def split: if_splits)
  have l: "nI \<le> length ?i1" using Suc.prems(2) by simp
  have b: "(n + 1) + k < 2 ^ 32" using Suc.prems(3) by simp
  note IH = Suc.IH[OF rest l b]
  from IH have f1: "n' = n + Suc k" and f2: "length im' = length images"
    and frame: "\<And>i. i < n + 1 \<Longrightarrow> im' ! i = ?i1 ! i"
    and dims: "\<And>j. j < k \<Longrightarrow> img_width (im' ! (n + 1 + j)) = (next_mip ^^ j) (next_mip w) \<and>
                 img_height (im' ! (n + 1 + j)) = (next_mip ^^ j) (next_mip h)"
    by simp_all
  have nl: "n < length images" using idx Suc.prems(2) by simp
  have f3: "im' ! i = images ! i" if "i < n" for i
    using frame[of i] that by (simp add: nth_write_image_other)
  have f4: "img_width (im' ! (n + j)) = (next_mip ^^ j) w \<and>
            img_height (im' ! (n + j)) = (next_mip ^^ j) h" if "j < Suc k" for j
  proof (cases j)
    case 0
    have "im' ! n = ?i1 ! n" by (rule frame) simp
    then show ?thesis using 0 by (simp add: nth_write_image_same[OF nl])
  next
    case (Suc j')
    with that have "j' < k" by simp
    from dims[OF this] show ?thesis unfolding Suc
      by (simp only: funpow_Suc_right o_apply add_Suc_right add_Suc add_0_right One_nat_def)
  qed
  from f1 f2 f3 f4 show ?case by blast
qed

lemma Setup_items_dims:
  assumes "Setup_items a fmt flags nI pEnd k levels w h n t images = Some (n', t', im')"
    and "nI \<le> length images" "n + k * levels < 2 ^ 32"
  shows "n' = n + k * levels \<and> length im' = length images \<and>
         (\<forall>i<n. im' ! i = images ! i) \<and>
         (\<forall>item<k. \<forall>j<levels.
            img_width (im' ! (n + item * levels + j)) = (next_mip ^^ j) w \<and>
            img_height (im' ! (n + item * levels + j)) = (next_mip ^^ j) h)"
  using assms
proof (induction k arbitrary: n t images)
  case 0
  then show ?case by simp
next
  case (Suc k)
  from Suc.prems(1) obtain n1 t1 i1 where
    m: "Setup_mips a fmt flags nI pEnd levels w h n t images = Some (n1, t1, i1)" and
    r: "Setup_items a fmt flags nI pEnd k levels w h n1 t1 i1 = Some (n', t', im')"
    by (auto split: option.splits)
  have b0: "n + levels < 2 ^ 32" using Suc.prems(3) by simp
  note M = Setup_mips_dims[OF m Suc.prems(2) b0]
  from M have n1: "n1 = n + levels" and l1: "length i1 = length images"
    and frame1: "\<And>i. i < n \<Longrightarrow> i1 ! i = images ! i"
    and dims1: "\<And>j. j < levels \<Longrightarrow> img_width (i1 ! (n + j)) = (next_mip ^^ j) w \<and>
                 img_height (i1 ! (n + j)) = (next_mip ^^ j) h"
    by simp_all
  have l: "nI \<le> length i1" using Suc.prems(2) l1 by simp
  have b: "n1 + k * levels < 2 ^ 32" using Suc.prems(3) n1 by simp
  note IH = Suc.IH[OF r l b]
  from IH have f1: "n' = n + Suc k * levels" and f2: "length im' = length images"
    and frame: "\<And>i. i < n1 \<Longrightarrow> im' ! i = i1 ! i"
    and dims: "\<And>item j. item < k \<Longrightarrow> j < levels \<Longrightarrow>
                 img_width (im' ! (n1 + item * levels + j)) = (next_mip ^^ j) w \<and>
                 img_height (im' ! (n1 + item * levels + j)) = (next_mip ^^ j) h"
    using n1 l1 by simp_all
  have f3: "im' ! i = images ! i" if "i < n" for i
    using frame[of i] frame1[of i] that n1 by simp
  have f4: "img_width (im' ! (n + item * levels + j)) = (next_mip ^^ j) w \<and>
            img_height (im' ! (n + item * levels + j)) = (next_mip ^^ j) h"
    if "item < Suc k" "j < levels" for item j
  proof (cases item)
    case 0
    have "im' ! (n + j) = i1 ! (n + j)" using that(2) n1 by (intro frame) simp
    with dims1[OF that(2)] show ?thesis using 0 by simp
  next
    case (Suc item')
    with that have "item' < k" by simp
    from dims[OF this that(2)] show ?thesis unfolding Suc n1
      by (simp add: add.assoc add.commute add.left_commute)
  qed
  from f1 f2 f3 f4 show ?case by blast
qed

lemma Setup_slices_dims:
  assumes "Setup_slices a fmt nI pEnd k w h rp sp n t images = Some (n', t', im')"
    and "nI \<le> length images" "n + k < 2 ^ 32"
  shows "n' = n + k \<and> length im' = length images \<and>
         (\<forall>i<n. im' ! i = images ! i) \<and>
         (\<forall>j<k. img_width (im' ! (n + j)) = w \<and> img_height (im' ! (n + j)) = h)"
  using assms
proof (induction k arbitrary: n t images)
  case 0
  then show ?case by simp
next
  case (Suc k)
  from Suc.prems(1) have idx: "n < nI" by (simp split: if_splits)
  let ?i1 = "write_image images n w h fmt rp sp t"
  have n1: "size_t a (n + 1) = n + 1"
    using Suc.prems(3) by (simp add: size_t_small)
  from Suc.prems(1) idx n1 have
    rest: "Setup_slices a fmt nI pEnd k w h rp sp (n + 1) (t + sp) ?i1 = Some (n', t', im')"
    by (simp add: Let_def split: if_splits)
  have l: "nI \<le> length ?i1" using Suc.prems(2) by simp
  have b: "(n + 1) + k < 2 ^ 32" using Suc.prems(3) by simp
  note IH = Suc.IH[OF rest l b]
  from IH have f1: "n' = n + Suc k" and f2: "length im' = length images"
    and frame: "\<And>i. i < n + 1 \<Longrightarrow> im' ! i = ?i1 ! i"
    and dims: "\<And>j. j < k \<Longrightarrow> img_width (im' ! (n + 1 + j)) = w \<and>
                 img_height (im' ! (n + 1 + j)) = h"
    by simp_all
  have nl: "n < length images" using idx Suc.prems(2) by simp
  have f3: "im' ! i = images ! i" if "i < n" for i
    using frame[of i] that by (simp add: nth_write_image_other)
  have f4: "img_width (im' ! (n + j)) = w \<and> img_height (im' ! (n + j)) = h"
    if "j < Suc k" for j
  proof (cases j)
    case 0
    have "im' ! n = ?i1 ! n" by (rule frame) simp
    then show ?thesis using 0 by (simp add: nth_write_image_same[OF nl])
  next
    case (Suc j')
    with that have "j' < k" by simp
    from dims[OF this] show ?thesis unfolding Suc by simp
  qed
  from f1 f2 f3 f4 show ?case by blast
qed

lemma Setup_volume_dims:
  assumes "Setup_volume a fmt flags nI pEnd k w h d n t images = Some (n', t', im')"
    and "nI \<le> length images" "1 \<le> d" "n + (\<Sum>l<k. mip_depth d l) < 2 ^ 32"
  shows "n' = n + (\<Sum>l<k. mip_depth d l) \<and> length im' = length images \<and>
         (\<forall>i<n. im' ! i = images ! i) \<and>
         (\<forall>m<k. \<forall>s<mip_depth d m.
            img_width (im' ! (n + (\<Sum>l<m. mip_depth d l) + s)) = (next_mip ^^ m) w \<and>
            img_height (im' ! (n + (\<Sum>l<m. mip_depth d l) + s)) = (next_mip ^^ m) h)"
  using assms
proof (induction k arbitrary: w h d n t images)
  case 0
  then show ?case by simp
next
  case (Suc k)
  let ?d = "max 1 (d div 2)"
  have nm: "next_mip d = ?d" using Suc.prems(3) by (auto simp: next_mip_def)
  have total: "n + d + (\<Sum>l<k. mip_depth ?d l) < 2 ^ 32"
    using Suc.prems(4) by (simp only: sum_mip_depth_Suc add.assoc)
  from Suc.prems(1) obtain rp sp where
    cp: "ComputePitch a fmt w h flags = Inr (rp, sp)"
    by (auto split: sum.splits)
  with Suc.prems(1) obtain n1 t1 i1 where
    m: "Setup_slices a fmt nI pEnd d w h rp sp n t images = Some (n1, t1, i1)" and
    r: "Setup_volume a fmt flags nI pEnd k (next_mip w) (next_mip h) (next_mip d) n1 t1 i1
          = Some (n', t', im')"
    by (auto split: option.splits)
  have b0: "n + d < 2 ^ 32" using total by simp
  note S = Setup_slices_dims[OF m Suc.prems(2) b0]
  from S have n1: "n1 = n + d" and l1: "length i1 = length images"
    and frame1: "\<And>i. i < n \<Longrightarrow> i1 ! i = images ! i"
    and dims1: "\<And>j. j < d \<Longrightarrow> img_width (i1 ! (n + j)) = w \<and> img_height (i1 ! (n + j)) = h"
    by simp_all
  have l: "nI \<le> length i1" using Suc.prems(2) l1 by simp
  have d1: "1 \<le> next_mip d" using Suc.prems(3) by (rule next_mip_pos)
  have b: "n1 + (\<Sum>l<k. mip_depth (next_mip d) l) < 2 ^ 32" using total n1 nm by simp
  note IH = Suc.IH[OF r l d1 b]
  from IH have f1: "n' = n + (\<Sum>l<Suc k. mip_depth d l)"
    unfolding n1 nm by (simp only: sum_mip_depth_Suc add.assoc)
  from IH have f2: "length im' = length images"
    and frame: "\<And>i. i < n1 \<Longrightarrow> im' ! i = i1 ! i"
    and dims: "\<And>m s. m < k \<Longrightarrow> s < mip_depth ?d m \<Longrightarrow>
                 img_width (im' ! (n + d + (\<Sum>l<m. mip_depth ?d l) + s))
                   = (next_mip ^^ m) (next_mip w) \<and>
                 img_height (im' ! (n + d + (\<Sum>l<m. mip_depth ?d l) + s))
                   = (next_mip ^^ m) (next_mip h)"
    using n1 l1 nm by simp_all
  have f3: "im' ! i = images ! i" if "i < n" for i
    using frame[of i] frame1[of i] that n1 by simp
  have f4: "img_width (im' ! (n + (\<Sum>l<m. mip_depth d l) + s)) = (next_mip ^^ m) w \<and>
            img_height (im' ! (n + (\<Sum>l<m. mip_depth d l) + s)) = (next_mip ^^ m) h"
    if "m < Suc k" "s < mip_depth d m" for m s
  proof (cases m)
    case 0
    with that(2) have s: "s < d" by simp
    have "im' ! (n + s) = i1 ! (n + s)" using s n1 by (intro frame) simp
    with dims1[OF s] show ?thesis using 0 by simp
  next
    case (Suc m')
    with that have m': "m' < k" and s: "s < mip_depth ?d m'"
      by (simp_all add: mip_depth_Suc)
    from dims[OF m' s] show ?thesis unfolding Suc
      by (simp only: sum_mip_depth_Suc funpow_Suc_right o_apply add.assoc)
  qed
  from f1 f2 f3 f4 show ?case by blast
qed

text \<open>
  Claim C6. Both functions are functions of their arguments alone, so repeated calls
  agree. For every valid metadata on which \<^verbatim>\<open>DetermineImageArray\<close> succeeds with a
  count and a total size, \<^verbatim>\<open>SetupImageArray\<close> on a buffer of exactly that size and an
  array of exactly that count succeeds; its loops end with the index at the count and
  the cursor at the total size; and what it leaves in the array does not depend on what
  the array held. The count is the number of subresources of the metadata
  (items times levels, or the slices of all levels of a volume). The descriptor of mip
  level \<open>mip\<close> of item \<open>item\<close> stands at index \<open>item * mipLevels + mip\<close>, that of slice
  \<open>s\<close> of level \<open>mip\<close> of a volume after the slices of the earlier levels; its width
  and height are those of the metadata halved \<open>mip\<close> times with a floor of 1. Every one
  of the descriptors carries the format, the pitches \<^verbatim>\<open>ComputePitch\<close> gives for its
  width and height, and the offset at which the descriptor before it ends; the first is
  the top-level image at offset 0; the slice pitches add up to the total size, so the
  byte range of the last descriptor ends exactly at the total size.
\<close>

theorem layout_plan_then_materialize:
  assumes valid: "valid_metadata md"
    and plan: "DetermineImageArray a md cpFlags = Some (nImages, pixelSize)"
    and arr: "length images = nImages"
  shows "\<exists>images'. SetupImageArray a pixelSize md cpFlags images nImages = Some images' \<and>
           (if dimension md = TEX_DIMENSION_TEXTURE3D
            then Setup_volume a (format md) cpFlags nImages pixelSize (mipLevels md)
                   (width md) (height md) (depth md) 0 0 images
            else Setup_items a (format md) cpFlags nImages pixelSize (arraySize md)
                   (mipLevels md) (width md) (height md) 0 0 images)
             = Some (nImages, pixelSize, images') \<and>
           (\<forall>other. length other = nImages \<longrightarrow>
              SetupImageArray a pixelSize md cpFlags other nImages = Some images') \<and>
           length images' = nImages \<and> 1 \<le> nImages \<and>
           nImages = (if dimension md = TEX_DIMENSION_TEXTURE3D
                      then (\<Sum>l<mipLevels md. mip_depth (depth md) l)
                      else arraySize md * mipLevels md) \<and>
           img_width (images' ! 0) = width md \<and> img_height (images' ! 0) = height md \<and>
           (if dimension md = TEX_DIMENSION_TEXTURE3D
            then (\<forall>mip<mipLevels md. \<forall>s<mip_depth (depth md) mip.
                    img_width (images' ! ((\<Sum>l<mip. mip_depth (depth md) l) + s))
                      = mip_extent (width md) mip \<and>
                    img_height (images' ! ((\<Sum>l<mip. mip_depth (depth md) l) + s))
                      = mip_extent (height md) mip)
            else (\<forall>item<arraySize md. \<forall>mip<mipLevels md.
                    img_width (images' ! (item * mipLevels md + mip))
                      = mip_extent (width md) mip \<and>
                    img_height (images' ! (item * mipLevels md + mip))
                      = mip_extent (height md) mip)) \<and>
           (\<forall>i<nImages.
              img_format (images' ! i) = format md \<and>
              ComputePitch a (format md) (img_width (images' ! i)) (img_height (images' ! i)) cpFlags
                = Inr (rowPitch (images' ! i), slicePitch (images' ! i)) \<and>
              pixels (images' ! i) = (\<Sum>j<i. slicePitch (images' ! j))) \<and>
           (\<Sum>j<nImages. slicePitch (images' ! j)) = pixelSize \<and>
           pixels (last images') + slicePitch (last images') = pixelSize"
proof -
  from valid have v: "1 \<le> width md" "width md \<le> 16384" "1 \<le> height md" "height md \<le> 16384"
    "1 \<le> depth md" "depth md \<le> 2048" "1 \<le> arraySize md" "arraySize md \<le> 2048"
    "1 \<le> mipLevels md" "mipLevels md \<le> 15"
    by (simp_all add: valid_metadata_def)
  have top: "(0::nat) = 0 \<longrightarrow> width md = width md \<and> height md = height md" by simp
  have not3: "dimension md \<noteq> TEX_DIMENSION_TEXTURE3D"
    if "dimension md = TEX_DIMENSION_TEXTURE1D \<or> dimension md = TEX_DIMENSION_TEXTURE2D"
    using that by (auto simp: TEX_DIMENSION_TEXTURE1D_def TEX_DIMENSION_TEXTURE2D_def
        TEX_DIMENSION_TEXTURE3D_def)
  have out: "nImages = n' \<and> pixelSize = t'"
    if "(if a = Arch32 \<and> t' > UINT32_MAX then None else Some (n', size_t a t'))
          = Some (nImages, pixelSize)" "t' < 2 ^ 64" for n' t'
    using that by (cases a) (auto split: if_splits)
  have same: "im2 = im'"
    if "length im' = nImages" "length im2 = nImages" "take nImages im2 = take nImages im'"
    for im' im2 :: "Image list"
    using that by simp
  show ?thesis
  proof (cases "dimension md = TEX_DIMENSION_TEXTURE1D \<or> dimension md = TEX_DIMENSION_TEXTURE2D")
    case True
    with plan obtain t' n' where
      d: "Determine_items a (format md) cpFlags (arraySize md) (mipLevels md)
            (width md) (height md) 0 0 = Some (t', n')"
      and o: "(if a = Arch32 \<and> t' > UINT32_MAX then None else Some (n', size_t a t'))
          = Some (nImages, pixelSize)"
      by (auto simp: DetermineImageArray_def split: option.splits)
    have "arraySize md * mipLevels md \<le> 2048 * 15"
      using v by (intro mult_le_mono) simp_all
    then have am: "arraySize md * mipLevels md \<le> 30720" by simp
    have "mipLevels md * 2 ^ 38 \<le> 15 * 2 ^ 38" using v by simp
    then have "arraySize md * (mipLevels md * 2 ^ 38) \<le> 2048 * (15 * 2 ^ 38)"
      using v by (intro mult_le_mono) simp_all
    then have b1: "0 + arraySize md * (mipLevels md * 2 ^ 38) < 2 ^ 64" by simp
    have b2: "0 + arraySize md * mipLevels md < 2 ^ 32" using am by simp
    note L = items_layout[OF d v(2) v(4) b1 b2 top]
    from L have n': "n' = arraySize md * mipLevels md" and
      t': "t' \<le> arraySize md * (mipLevels md * 2 ^ 38)" by simp_all
    have "1 * 1 \<le> arraySize md * mipLevels md" using v by (intro mult_le_mono) simp_all
    then have pos: "1 \<le> n'" using n' by simp
    have t64: "t' < 2 ^ 64" using t' b1 by simp
    from out[OF o t64] have eq: "nImages = n'" "pixelSize = t'" by simp_all
    from L have "n' \<le> length images \<longrightarrow> t' \<le> pixelSize \<longrightarrow>
         laid_out a (format md) cpFlags (width md) (height md) 0 0 images \<longrightarrow>
       (\<exists>images'. Setup_items a (format md) cpFlags (length images) pixelSize (arraySize md)
                     (mipLevels md) (width md) (height md) 0 0 images = Some (n', t', images') \<and>
                   length images' = length images \<and>
                   laid_out a (format md) cpFlags (width md) (height md) n' t' images')" by blast
    then obtain images'' where
      s: "Setup_items a (format md) cpFlags nImages pixelSize (arraySize md)
                     (mipLevels md) (width md) (height md) 0 0 images = Some (n', t', images'')"
      and r: "length images'' = length images"
        "laid_out a (format md) cpFlags (width md) (height md) n' t' images''"
      using eq arr laid_out_0 by auto
    have run: "SetupImageArray a pixelSize md cpFlags images nImages = Some images''"
      using True s v by (simp add: SetupImageArray_def)
    have indep: "SetupImageArray a pixelSize md cpFlags other nImages = Some images''"
      if lo: "length other = nImages" for other
    proof -
      have "nImages \<le> length images" "length other = length images" "take 0 other = take 0 images"
        using arr lo by simp_all
      from Setup_items_indep[OF s this] obtain im2 where
        s2: "Setup_items a (format md) cpFlags nImages pixelSize (arraySize md)
                     (mipLevels md) (width md) (height md) 0 0 other = Some (n', t', im2)"
        and l2: "length im2 = length images" and tk: "take n' im2 = take n' images''" by blast
      have "im2 = images''" using l2 r(1) tk arr eq by simp
      then show ?thesis using True s2 v by (simp add: SetupImageArray_def)
    qed
    have len: "length images'' = n'" using r(1) arr eq by simp
    note F = laid_out_final[OF r(2) len pos]
    have cnt: "nImages = (if dimension md = TEX_DIMENSION_TEXTURE3D
                      then (\<Sum>l<mipLevels md. mip_depth (depth md) l)
                      else arraySize md * mipLevels md)"
      using not3[OF True] eq n' by simp
    have walk: "(if dimension md = TEX_DIMENSION_TEXTURE3D
            then Setup_volume a (format md) cpFlags nImages pixelSize (mipLevels md)
                   (width md) (height md) (depth md) 0 0 images
            else Setup_items a (format md) cpFlags nImages pixelSize (arraySize md)
                   (mipLevels md) (width md) (height md) 0 0 images)
             = Some (nImages, pixelSize, images'')"
      using not3[OF True] s eq by simp
    have "nImages \<le> length images" using arr by simp
    from Setup_items_dims[OF s this b2]
    have "\<forall>item<arraySize md. \<forall>mip<mipLevels md.
            img_width (images'' ! (0 + item * mipLevels md + mip)) = (next_mip ^^ mip) (width md) \<and>
            img_height (images'' ! (0 + item * mipLevels md + mip)) = (next_mip ^^ mip) (height md)"
      by blast
    then have "\<forall>item<arraySize md. \<forall>mip<mipLevels md.
            img_width (images'' ! (item * mipLevels md + mip)) = mip_extent (width md) mip \<and>
            img_height (images'' ! (item * mipLevels md + mip)) = mip_extent (height md) mip"
      by (simp add: next_mip_funpow[OF v(1)] next_mip_funpow[OF v(3)])
    then have dims: "(if dimension md = TEX_DIMENSION_TEXTURE3D
            then (\<forall>mip<mipLevels md. \<forall>s<mip_depth (depth md) mip.
                    img_width (images'' ! ((\<Sum>l<mip. mip_depth (depth md) l) + s))
                      = mip_extent (width md) mip \<and>
                    img_height (images'' ! ((\<Sum>l<mip. mip_depth (depth md) l) + s))
                      = mip_extent (height md) mip)
            else (\<forall>item<arraySize md. \<forall>mip<mipLevels md.
                    img_width (images'' ! (item * mipLevels md + mip))
                      = mip_extent (width md) mip \<and>
                    img_height (images'' ! (item * mipLevels md + mip))
                      = mip_extent (height md) mip))"
      using not3[OF True] by simp
    from run walk indep len pos cnt dims F show ?thesis unfolding eq by blast
  next
    case False
    with plan have dim: "dimension md = TEX_DIMENSION_TEXTURE3D"
      by (auto simp: DetermineImageArray_def split: if_splits)
    with plan False obtain t' n' where
      d: "Determine_volume a (format md) cpFlags (mipLevels md)
            (width md) (height md) (depth md) 0 0 = Some (t', n')"
      and o: "(if a = Arch32 \<and> t' > UINT32_MAX then None else Some (n', size_t a t'))
          = Some (nImages, pixelSize)"
      by (auto simp: DetermineImageArray_def split: option.splits)
    have "mipLevels md * (2048 * 2 ^ 38) \<le> 15 * (2048 * 2 ^ 38)" using v by simp
    then have b1: "0 + mipLevels md * (2048 * 2 ^ 38) < 2 ^ 64" by simp
    have "mipLevels md * 2048 \<le> 15 * 2048" using v by simp
    then have b2: "0 + mipLevels md * 2048 < 2 ^ 32" by simp
    note L = volume_layout[OF d v(2) v(4) v(5) v(6) b1 b2 top]
    from L have n': "0 + mipLevels md \<le> n'" and
      nsum: "n' = 0 + (\<Sum>l<mipLevels md. mip_depth (depth md) l)" and
      t': "t' \<le> 0 + mipLevels md * (2048 * 2 ^ 38)" by simp_all
    have pos: "1 \<le> n'" using n' v by simp
    have t64: "t' < 2 ^ 64" using t' b1 by simp
    from out[OF o t64] have eq: "nImages = n'" "pixelSize = t'" by simp_all
    from L have "n' \<le> length images \<longrightarrow> t' \<le> pixelSize \<longrightarrow>
         laid_out a (format md) cpFlags (width md) (height md) 0 0 images \<longrightarrow>
       (\<exists>images'. Setup_volume a (format md) cpFlags (length images) pixelSize
                     (mipLevels md) (width md) (height md) (depth md) 0 0 images
                       = Some (n', t', images') \<and>
                   length images' = length images \<and>
                   laid_out a (format md) cpFlags (width md) (height md) n' t' images')" by blast
    then obtain images'' where
      s: "Setup_volume a (format md) cpFlags nImages pixelSize
                     (mipLevels md) (width md) (height md) (depth md) 0 0 images
            = Some (n', t', images'')"
      and r: "length images'' = length images"
        "laid_out a (format md) cpFlags (width md) (height md) n' t' images''"
      using eq arr laid_out_0 by auto
    have run: "SetupImageArray a pixelSize md cpFlags images nImages = Some images''"
      using False dim s v by (simp add: SetupImageArray_def)
    have indep: "SetupImageArray a pixelSize md cpFlags other nImages = Some images''"
      if lo: "length other = nImages" for other
    proof -
      have "nImages \<le> length images" "length other = length images" "take 0 other = take 0 images"
        using arr lo by simp_all
      from Setup_volume_indep[OF s this] obtain im2 where
        s2: "Setup_volume a (format md) cpFlags nImages pixelSize
                     (mipLevels md) (width md) (height md) (depth md) 0 0 other
               = Some (n', t', im2)"
        and l2: "length im2 = length images" and tk: "take n' im2 = take n' images''" by blast
      have "im2 = images''" using l2 r(1) tk arr eq by simp
      then show ?thesis using False dim s2 v by (simp add: SetupImageArray_def)
    qed
    have len: "length images'' = n'" using r(1) arr eq by simp
    note F = laid_out_final[OF r(2) len pos]
    have cnt: "nImages = (if dimension md = TEX_DIMENSION_TEXTURE3D
                      then (\<Sum>l<mipLevels md. mip_depth (depth md) l)
                      else arraySize md * mipLevels md)"
      using dim eq nsum by simp
    have walk: "(if dimension md = TEX_DIMENSION_TEXTURE3D
            then Setup_volume a (format md) cpFlags nImages pixelSize (mipLevels md)
                   (width md) (height md) (depth md) 0 0 images
            else Setup_items a (format md) cpFlags nImages pixelSize (arraySize md)
                   (mipLevels md) (width md) (height md) 0 0 images)
             = Some (nImages, pixelSize, images'')"
      using dim s eq by simp
    have "nImages \<le> length images" using arr by simp
    moreover have "(\<Sum>l<mipLevels md. mip_depth (depth md) l) \<le> mipLevels md * depth md"
      by (rule sum_mip_depth_le[OF v(5)])
    moreover have "mipLevels md * depth md \<le> 15 * 2048"
      using v by (intro mult_le_mono) simp_all
    ultimately have "nImages \<le> length images"
      "0 + (\<Sum>l<mipLevels md. mip_depth (depth md) l) < 2 ^ 32" by simp_all
    from Setup_volume_dims[OF s this(1) v(5) this(2)]
    have "\<forall>mip<mipLevels md. \<forall>s<mip_depth (depth md) mip.
            img_width (images'' ! (0 + (\<Sum>l<mip. mip_depth (depth md) l) + s))
              = (next_mip ^^ mip) (width md) \<and>
            img_height (images'' ! (0 + (\<Sum>l<mip. mip_depth (depth md) l) + s))
              = (next_mip ^^ mip) (height md)"
      by blast
    then have "\<forall>mip<mipLevels md. \<forall>s<mip_depth (depth md) mip.
            img_width (images'' ! ((\<Sum>l<mip. mip_depth (depth md) l) + s))
              = mip_extent (width md) mip \<and>
            img_height (images'' ! ((\<Sum>l<mip. mip_depth (depth md) l) + s))
              = mip_extent (height md) mip"
      by (simp add: next_mip_funpow[OF v(1)] next_mip_funpow[OF v(3)])
    then have dims: "(if dimension md = TEX_DIMENSION_TEXTURE3D
            then (\<forall>mip<mipLevels md. \<forall>s<mip_depth (depth md) mip.
                    img_width (images'' ! ((\<Sum>l<mip. mip_depth (depth md) l) + s))
                      = mip_extent (width md) mip \<and>
                    img_height (images'' ! ((\<Sum>l<mip. mip_depth (depth md) l) + s))
                      = mip_extent (height md) mip)
            else (\<forall>item<arraySize md. \<forall>mip<mipLevels md.
                    img_width (images'' ! (item * mipLevels md + mip))
                      = mip_extent (width md) mip \<and>
                    img_height (images'' ! (item * mipLevels md + mip))
                      = mip_extent (height md) mip))"
      using dim by simp
    from run walk indep len pos cnt dims F show ?thesis unfolding eq by blast
  qed
qed

lemma demo_pitch:
  "ComputePitch Arch64 DXGI_FORMAT_R8G8B8A8_UNORM w h CP_FLAGS_NONE =
     Inr (size_t Arch64 (u64 (u64 (u64 w * 32) + 7) div 8),
          size_t Arch64 (u64 (u64 (u64 (u64 w * 32) + 7) div 8 * u64 h)))"
  by (simp add: ComputePitch_def ComputePitch_switch_def linear_pitch_def BitsPerPixel_def
      has_flag_def CP_FLAGS_NONE_def dxgi Let_def)

lemma demo_plan: "DetermineImageArray Arch64 demo_array CP_FLAGS_NONE = Some (6, 168)"
proof -
  have e: "arraySize demo_array = Suc (Suc 0)" "mipLevels demo_array = Suc (Suc (Suc 0))"
    "format demo_array = DXGI_FORMAT_R8G8B8A8_UNORM"
    by (simp_all add: demo_array_def dxgi)
  show ?thesis
    unfolding DetermineImageArray_def e
    by (simp add: demo_array_def demo_pitch next_mip_def u64_def size_t_def
        TEX_DIMENSION_TEXTURE2D_def TEX_DIMENSION_TEXTURE1D_def)
qed

theorem layout_plan_then_materialize_witness:
  "DetermineImageArray Arch64 demo_array CP_FLAGS_NONE = Some (6, 168) \<and>
   (\<exists>images'. SetupImageArray Arch64 168 demo_array CP_FLAGS_NONE (replicate 6 blank_image) 6
                 = Some images' \<and>
               length images' = 6 \<and>
               img_width (images' ! 0) = 4 \<and> img_height (images' ! 0) = 4 \<and>
               img_width (images' ! 5) = 1 \<and> img_height (images' ! 5) = 1 \<and>
               pixels (images' ! 0) = 0 \<and>
               pixels (images' ! 1) = slicePitch (images' ! 0) \<and>
               (\<Sum>j<6. slicePitch (images' ! j)) = 168 \<and>
               pixels (last images') + slicePitch (last images') = 168)"
proof -
  have v: "valid_metadata demo_array" by (simp add: valid_metadata_def demo_array_def)
  have l: "length (replicate 6 blank_image) = 6" by simp
  have d2: "dimension demo_array \<noteq> TEX_DIMENSION_TEXTURE3D"
    by (simp add: demo_array_def TEX_DIMENSION_TEXTURE2D_def TEX_DIMENSION_TEXTURE3D_def)
  from layout_plan_then_materialize[OF v demo_plan l] obtain images' where
    r: "SetupImageArray Arch64 168 demo_array CP_FLAGS_NONE (replicate 6 blank_image) 6
          = Some images'"
      "length images' = 6"
      "img_width (images' ! 0) = width demo_array" "img_height (images' ! 0) = height demo_array"
      "\<forall>i<6. img_format (images' ! i) = format demo_array \<and>
              ComputePitch Arch64 (format demo_array) (img_width (images' ! i))
                (img_height (images' ! i)) CP_FLAGS_NONE
                = Inr (rowPitch (images' ! i), slicePitch (images' ! i)) \<and>
              pixels (images' ! i) = (\<Sum>j<i. slicePitch (images' ! j))"
      "(\<Sum>j<6. slicePitch (images' ! j)) = 168"
      "pixels (last images') + slicePitch (last images') = 168"
    and dims: "if dimension demo_array = TEX_DIMENSION_TEXTURE3D
            then (\<forall>mip<mipLevels demo_array. \<forall>s<mip_depth (depth demo_array) mip.
                    img_width (images' ! ((\<Sum>l<mip. mip_depth (depth demo_array) l) + s))
                      = mip_extent (width demo_array) mip \<and>
                    img_height (images' ! ((\<Sum>l<mip. mip_depth (depth demo_array) l) + s))
                      = mip_extent (height demo_array) mip)
            else (\<forall>item<arraySize demo_array. \<forall>mip<mipLevels demo_array.
                    img_width (images' ! (item * mipLevels demo_array + mip))
                      = mip_extent (width demo_array) mip \<and>
                    img_height (images' ! (item * mipLevels demo_array + mip))
                      = mip_extent (height demo_array) mip)"
    by blast
  from r(5) have "pixels (images' ! 0) = (\<Sum>j<0. slicePitch (images' ! j))"
    "pixels (images' ! 1) = (\<Sum>j<1. slicePitch (images' ! j))" by simp_all
  then have p: "pixels (images' ! 0) = 0" "pixels (images' ! 1) = slicePitch (images' ! 0)"
    by simp_all
  have wh: "width demo_array = 4" "height demo_array = 4" "arraySize demo_array = 2"
    "mipLevels demo_array = 3"
    by (simp_all add: demo_array_def)
  have e: "mip_extent 4 2 = 1" by code_simp
  from dims d2 have "\<forall>item<2. \<forall>mip<3.
                    img_width (images' ! (item * 3 + mip)) = mip_extent 4 mip \<and>
                    img_height (images' ! (item * 3 + mip)) = mip_extent 4 mip"
    unfolding wh by simp
  from this[rule_format, of 1 2]
  have q: "img_width (images' ! 5) = 1" "img_height (images' ! 5) = 1"
    unfolding e by simp_all
  from r p q demo_plan show ?thesis unfolding wh by blast
qed

section \<open>Properties of the scanline transcoder\<close>

text \<open>
  Claim C9. \<^verbatim>\<open>ExpandScanline\<close> on a source row of one 5:6:5 pixel holding the 16-bit
  value \<open>0xF800\<close>, with destination format RGBA8 and a four-byte destination, succeeds
  and writes the 32-bit pixel \<open>0xFF0000FF\<close>: red \<open>0xFF\<close>, green and blue \<open>0x00\<close>,
  alpha \<open>0xFF\<close>, whatever the destination held and whatever the flags.
\<close>

theorem ExpandScanline_565_red:
  "ExpandScanline [d0, d1, d2, d3] 4 DXGI_FORMAT_R8G8B8A8_UNORM
                  [0x00, 0xF8] 2 DXGI_FORMAT_B5G6R5_UNORM tflags
     = (True, [0xFF, 0x00, 0x00, 0xFF]) \<and>
   load16 [0x00, 0xF8] 0 = 0xF800 \<and>
   load32 [0xFF, 0x00, 0x00, 0xFF] 0 = 0xFF0000FF \<and>
   chan8 0 0xFF0000FF = 0xFF \<and> chan8 1 0xFF0000FF = 0x00 \<and>
   chan8 2 0xFF0000FF = 0x00 \<and> chan8 3 0xFF0000FF = 0xFF"
proof -
  have l: "load16 [0x00, 0xF8] 0 = 0xF800" by (simp add: load16_def)
  have e: "expand_565 0xF800 = 0xFF0000FF" by (simp add: expand_565_def)
  have s: "store32 [d0, d1, d2, d3] 0 0xFF0000FF = [0xFF, 0x00, 0x00, 0xFF]"
    by (simp add: store32_def)
  have loop: "expand_loop expand_565 [0x00, 0xF8] 2 4 0 0 [d0, d1, d2, d3] = [0xFF, 0x00, 0x00, 0xFF]"
    by (subst expand_loop.simps, simp add: l e s, subst expand_loop.simps, simp)
  have ld: "load32 [0xFF, 0x00, 0x00, 0xFF] 0 = 0xFF0000FF" by (simp add: load32_def)
  show ?thesis
    by (simp add: ExpandScanline_def dxgi loop l ld chan8_def)
qed

lemma m8: "(0xff :: 32 word) = mask 8" by (simp add: mask_eq_exp_minus_1)
lemma m8_8: "(0xff00 :: 32 word) = push_bit 8 (mask 8)" by (simp add: mask_eq_exp_minus_1)
lemma m8_16: "(0xff0000 :: 32 word) = push_bit 16 (mask 8)" by (simp add: mask_eq_exp_minus_1)
lemma m8_24: "(0xff000000 :: 32 word) = push_bit 24 (mask 8)" by (simp add: mask_eq_exp_minus_1)
lemma m10: "(0x3ff :: 32 word) = mask 10" by (simp add: mask_eq_exp_minus_1)
lemma m10_10: "(0xffc00 :: 32 word) = push_bit 10 (mask 10)" by (simp add: mask_eq_exp_minus_1)
lemma m10_20: "(0x3ff00000 :: 32 word) = push_bit 20 (mask 10)" by (simp add: mask_eq_exp_minus_1)
lemma m2_30: "(0xC0000000 :: 32 word) = push_bit 30 (mask 2)" by (simp add: mask_eq_exp_minus_1)
lemma m8b: "(0xff :: 8 word) = mask 8" by (simp add: mask_eq_exp_minus_1)
lemma m2: "(3 :: 32 word) = mask 2" by (simp add: mask_eq_exp_minus_1)

lemma swizzle_8888_chan:
  "chan8 0 (swizzle_8888 fl t) = chan8 2 t"
  "chan8 2 (swizzle_8888 fl t) = chan8 0 t"
  "chan8 1 (swizzle_8888 fl t) = chan8 1 t"
  "chan8 3 (swizzle_8888 fl t) = (if has_flag fl TEXP_SCANLINE_SETALPHA then 0xff else chan8 3 t)"
  unfolding chan8_def swizzle_8888_def Let_def m8 m8_8 m8_16 m8_24 m8b
  by (rule bit_word_eqI; auto simp: bit_simps)+

lemma swizzle_1010102_chan:
  "chan10 0 (swizzle_1010102 fl t) = chan10 2 t"
  "chan10 2 (swizzle_1010102 fl t) = chan10 0 t"
  "chan10 1 (swizzle_1010102 fl t) = chan10 1 t"
  "alpha2 (swizzle_1010102 fl t) = (if has_flag fl TEXP_SCANLINE_SETALPHA then 3 else alpha2 t)"
  unfolding chan10_def alpha2_def swizzle_1010102_def Let_def m10 m10_10 m10_20 m2_30 m2
  by (rule bit_word_eqI; auto simp: bit_simps dest: bit_imp_le_length)+

lemma swizzle_yuy2_chan:
  "chan8 0 (swizzle_yuy2 t) = chan8 1 t"
  "chan8 1 (swizzle_yuy2 t) = chan8 0 t"
  "chan8 2 (swizzle_yuy2 t) = chan8 3 t"
  "chan8 3 (swizzle_yuy2 t) = chan8 2 t"
  unfolding chan8_def swizzle_yuy2_def Let_def m8 m8_8 m8_16 m8_24 m8b
  by (rule bit_word_eqI; auto simp: bit_simps dest: bit_imp_le_length)+

lemma word_of_chans:
  "(ucast (chan8 0 v) OR push_bit 8 (ucast (chan8 1 v)) OR
     push_bit 16 (ucast (chan8 2 v)) OR push_bit 24 (ucast (chan8 3 v)) :: 32 word) = v"
  unfolding chan8_def
  apply (rule bit_word_eqI)
  subgoal for n
    by (cases "24 \<le> n"; cases "16 \<le> n"; cases "8 \<le> n"; auto simp: bit_simps not_le)
  done

lemma store32_chan:
  "store32 mem off v = mem[off := chan8 0 v, off + 1 := chan8 1 v,
                           off + 2 := chan8 2 v, off + 3 := chan8 3 v]"
  by (simp add: store32_def chan8_def)

lemma length_store32 [simp]: "length (store32 mem off v) = length mem"
  by (simp add: store32_def)

lemma nth_store32_other:
  "k < off \<or> off + 3 < k \<Longrightarrow> store32 mem off v ! k = mem ! k"
  by (auto simp: store32_def)

lemma load32_store32_same:
  "off + 3 < length mem \<Longrightarrow> load32 (store32 mem off v) off = v"
  using word_of_chans[of v] by (simp add: load32_def store32_chan)

lemma load32_cong:
  "(\<And>k. off \<le> k \<Longrightarrow> k \<le> off + 3 \<Longrightarrow> m1 ! k = m2 ! k) \<Longrightarrow> load32 m1 off = load32 m2 off"
  by (simp add: load32_def)

lemma load32_store32_other:
  "off' + 3 < off \<or> off + 3 < off' \<Longrightarrow> load32 (store32 mem off v) off' = load32 mem off'"
  by (rule load32_cong) (auto simp: nth_store32_other)

lemma swizzle_inplace_pixels:
  "n \<le> length mem \<Longrightarrow>
   length (swizzle_inplace f mem n count) = length mem \<and>
   (\<forall>k<count. swizzle_inplace f mem n count ! k = mem ! k) \<and>
   (\<forall>j. count + 4 * j + 3 < n \<longrightarrow>
        load32 (swizzle_inplace f mem n count) (count + 4 * j) = f (load32 mem (count + 4 * j)))"
proof (induction f mem n count rule: swizzle_inplace.induct)
  case (1 f mem n count)
  show ?case
  proof (cases "count < n - 3")
    case False
    then have "swizzle_inplace f mem n count = mem" by (simp add: swizzle_inplace.simps)
    with False show ?thesis by auto
  next
    case True
    let ?m = "store32 mem count (f (load32 mem count))"
    let ?r = "swizzle_inplace f ?m n (count + 4)"
    have r: "swizzle_inplace f mem n count = ?r"
      using True by (subst swizzle_inplace.simps) simp
    have inb: "count + 3 < length mem" using True "1.prems" by simp
    have "n \<le> length ?m" using "1.prems" by simp
    from "1.IH"[OF True this] have
      a: "length ?r = length mem" and
      b: "\<And>k. k < count + 4 \<Longrightarrow> ?r ! k = ?m ! k" and
      c: "\<And>j. count + 4 + 4 * j + 3 < n \<Longrightarrow>
             load32 ?r (count + 4 + 4 * j) = f (load32 ?m (count + 4 + 4 * j))"
      by simp_all
    have b': "?r ! k = mem ! k" if "k < count" for k
      using b[of k] that by (simp add: nth_store32_other)
    have c': "load32 ?r (count + 4 * j) = f (load32 mem (count + 4 * j))"
      if "count + 4 * j + 3 < n" for j
    proof (cases j)
      case 0
      have "load32 ?r count = load32 ?m count"
        by (rule load32_cong) (simp add: b)
      also have "\<dots> = f (load32 mem count)" by (rule load32_store32_same[OF inb])
      finally show ?thesis using 0 by simp
    next
      case (Suc i)
      have "load32 ?r (count + 4 + 4 * i) = f (load32 ?m (count + 4 + 4 * i))"
        using that Suc by (intro c) simp
      also have "load32 ?m (count + 4 + 4 * i) = load32 mem (count + 4 + 4 * i)"
        by (rule load32_store32_other) simp
      finally show ?thesis using Suc by (simp add: add.assoc)
    qed
    from a b' c' show ?thesis unfolding r by blast
  qed
qed

lemma swizzle_copy_pixels:
  "n \<le> length dst \<Longrightarrow>
   length (swizzle_copy f src dst n count) = length dst \<and>
   (\<forall>k<count. swizzle_copy f src dst n count ! k = dst ! k) \<and>
   (\<forall>j. count + 4 * j + 3 < n \<longrightarrow>
        load32 (swizzle_copy f src dst n count) (count + 4 * j) = f (load32 src (count + 4 * j)))"
proof (induction f src dst n count rule: swizzle_copy.induct)
  case (1 f src dst n count)
  show ?case
  proof (cases "count < n - 3")
    case False
    then have "swizzle_copy f src dst n count = dst" by (simp add: swizzle_copy.simps)
    with False show ?thesis by auto
  next
    case True
    let ?m = "store32 dst count (f (load32 src count))"
    let ?r = "swizzle_copy f src ?m n (count + 4)"
    have r: "swizzle_copy f src dst n count = ?r"
      using True by (subst swizzle_copy.simps) simp
    have inb: "count + 3 < length dst" using True "1.prems" by simp
    have "n \<le> length ?m" using "1.prems" by simp
    from "1.IH"[OF True this] have
      a: "length ?r = length dst" and
      b: "\<And>k. k < count + 4 \<Longrightarrow> ?r ! k = ?m ! k" and
      c: "\<And>j. count + 4 + 4 * j + 3 < n \<Longrightarrow>
             load32 ?r (count + 4 + 4 * j) = f (load32 src (count + 4 + 4 * j))"
      by simp_all
    have b': "?r ! k = dst ! k" if "k < count" for k
      using b[of k] that by (simp add: nth_store32_other)
    have c': "load32 ?r (count + 4 * j) = f (load32 src (count + 4 * j))"
      if "count + 4 * j + 3 < n" for j
    proof (cases j)
      case 0
      have "load32 ?r count = load32 ?m count"
        by (rule load32_cong) (simp add: b)
      also have "\<dots> = f (load32 src count)" by (rule load32_store32_same[OF inb])
      finally show ?thesis using 0 by simp
    next
      case (Suc i)
      have "load32 ?r (count + 4 + 4 * i) = f (load32 src (count + 4 + 4 * i))"
        using that Suc by (intro c) simp
      then show ?thesis using Suc by (simp add: add.assoc)
    qed
    from a b' c' show ?thesis unfolding r by blast
  qed
qed

lemma swizzle_pixels_pixel:
  assumes "outSize \<le> length dst" "source_fits src inSize"
    and "4 * i + 3 < swizzle_extent outSize src inSize"
  shows "load32 (swizzle_pixels f dst outSize src inSize) (4 * i)
           = f (load32 (source_memory dst src) (4 * i))"
proof (cases src)
  case None
  with assms swizzle_inplace_pixels[of outSize dst f 0] show ?thesis
    by (simp add: swizzle_pixels_def source_memory_def swizzle_extent_def)
next
  case (Some s)
  have "min outSize inSize \<le> length dst" using assms(1) by simp
  from swizzle_copy_pixels[OF this, of f s 0] assms Some show ?thesis
    by (simp add: swizzle_pixels_def source_memory_def swizzle_extent_def)
qed


lemma swizzle_formats_disjoint:
  "fmt \<in> set swizzle_formats_8888 \<Longrightarrow> fmt \<notin> set swizzle_formats_1010102"
  by (auto simp: swizzle_formats_8888_def swizzle_formats_1010102_def dxgi)

lemma swizzle_example:
  "SwizzleScanline [0x44, 0x33, 0x22, 0x11] 4 None 4 DXGI_FORMAT_B8G8R8A8_UNORM TEXP_SCANLINE_NONE
     = [0x22, 0x33, 0x44, 0x11]"
proof -
  have l: "load32 [0x44, 0x33, 0x22, 0x11] 0 = 0x11223344" by (simp add: load32_def)
  have f: "swizzle_8888 TEXP_SCANLINE_NONE 0x11223344 = 0x11443322"
    by (simp add: swizzle_8888_def has_flag_def TEXP_SCANLINE_NONE_def)
  have st: "store32 [0x44, 0x33, 0x22, 0x11] 0 0x11443322 = [0x22, 0x33, 0x44, 0x11]"
    by (simp add: store32_def)
  have loop: "swizzle_inplace (swizzle_8888 TEXP_SCANLINE_NONE) [0x44, 0x33, 0x22, 0x11] 4 0
                = [0x22, 0x33, 0x44, 0x11]"
    by (subst swizzle_inplace.simps, simp add: l f st, subst swizzle_inplace.simps, simp)
  show ?thesis
    by (simp add: SwizzleScanline_def swizzle_formats_8888_def swizzle_formats_1010102_def dxgi
        swizzle_pixels_def loop)
qed

lemma swizzle_yuy2_not_swapped:
  "DXGI_FORMAT_YUY2 \<notin> set swizzle_formats_8888"
  "DXGI_FORMAT_YUY2 \<notin> set swizzle_formats_1010102"
  by (simp_all add: swizzle_formats_8888_def swizzle_formats_1010102_def dxgi)

lemma swizzle_yuy2_example:
  "SwizzleScanline [0x11, 0x22, 0x33, 0x44] 4 None 4 DXGI_FORMAT_YUY2 TEXP_SCANLINE_LEGACY
     = [0x22, 0x11, 0x44, 0x33]"
proof -
  have l: "load32 [0x11, 0x22, 0x33, 0x44] 0 = 0x44332211" by (simp add: load32_def)
  have f: "swizzle_yuy2 0x44332211 = 0x33441122"
    by (simp add: swizzle_yuy2_def)
  have st: "store32 [0x11, 0x22, 0x33, 0x44] 0 0x33441122 = [0x22, 0x11, 0x44, 0x33]"
    by (simp add: store32_def)
  have loop: "swizzle_inplace swizzle_yuy2 [0x11, 0x22, 0x33, 0x44] 4 0
                = [0x22, 0x11, 0x44, 0x33]"
    by (subst swizzle_inplace.simps, simp add: l f st, subst swizzle_inplace.simps, simp)
  show ?thesis
    by (simp add: SwizzleScanline_def swizzle_yuy2_not_swapped has_flag_def
        TEXP_SCANLINE_LEGACY_def swizzle_pixels_def loop)
qed

text \<open>
  Claim C5, as the code has it. Given buffers that hold the sizes passed:
  for the nine RGBA8/BGRA8 formats of the switch and scanlines of at least 4 bytes,
  \<^verbatim>\<open>SwizzleScanline\<close> swaps channels 0 and 2 (R and B) of every whole pixel, keeps
  channel 1, and keeps alpha unless the set-alpha flag forces it to \<open>0xff\<close>, in place
  and while copying; for the five 10:10:10:2 formats it does the same with the 10-bit
  channels only when the legacy flag is set; for YUY2 with the legacy flag and at least
  4 bytes it exchanges the two bytes of each 16-bit half of every whole 4-byte group
  (bytes 0 and 1, bytes 2 and 3), so that the bytes \<open>11 22 33 44\<close> become
  \<open>22 11 44 33\<close>; in every other case it copies \<open>min outSize inSize\<close> bytes, and
  changes nothing in place. In place, the BGRA8 pixel \<open>0x11223344\<close> becomes
  \<open>0x11443322\<close>.
\<close>

theorem SwizzleScanline_behaviour:
  assumes "outSize \<le> length dst" and "source_fits src inSize"
  shows
    "(fmt \<in> set swizzle_formats_8888 \<and> 4 \<le> inSize \<and> 4 \<le> outSize \<longrightarrow>
        (\<forall>i. 4 * i + 3 < swizzle_extent outSize src inSize \<longrightarrow>
           (let p = load32 (source_memory dst src) (4 * i);
                q = load32 (SwizzleScanline dst outSize src inSize fmt tflags) (4 * i)
            in chan8 0 q = chan8 2 p \<and> chan8 2 q = chan8 0 p \<and> chan8 1 q = chan8 1 p \<and>
               chan8 3 q = (if has_flag tflags TEXP_SCANLINE_SETALPHA then 0xff else chan8 3 p)))) \<and>
     (fmt \<in> set swizzle_formats_1010102 \<and> 4 \<le> inSize \<and> 4 \<le> outSize \<and>
      has_flag tflags TEXP_SCANLINE_LEGACY \<longrightarrow>
        (\<forall>i. 4 * i + 3 < swizzle_extent outSize src inSize \<longrightarrow>
           (let p = load32 (source_memory dst src) (4 * i);
                q = load32 (SwizzleScanline dst outSize src inSize fmt tflags) (4 * i)
            in chan10 0 q = chan10 2 p \<and> chan10 2 q = chan10 0 p \<and> chan10 1 q = chan10 1 p \<and>
               alpha2 q = (if has_flag tflags TEXP_SCANLINE_SETALPHA then 3 else alpha2 p)))) \<and>
     (fmt = DXGI_FORMAT_YUY2 \<and> 4 \<le> inSize \<and> 4 \<le> outSize \<and>
      has_flag tflags TEXP_SCANLINE_LEGACY \<longrightarrow>
        (\<forall>i. 4 * i + 3 < swizzle_extent outSize src inSize \<longrightarrow>
           (let p = load32 (source_memory dst src) (4 * i);
                q = load32 (SwizzleScanline dst outSize src inSize fmt tflags) (4 * i)
            in chan8 0 q = chan8 1 p \<and> chan8 1 q = chan8 0 p \<and>
               chan8 2 q = chan8 3 p \<and> chan8 3 q = chan8 2 p))) \<and>
     (\<not> (fmt \<in> set swizzle_formats_8888 \<and> 4 \<le> inSize \<and> 4 \<le> outSize) \<and>
      \<not> (fmt \<in> set swizzle_formats_1010102 \<and> 4 \<le> inSize \<and> 4 \<le> outSize \<and>
         has_flag tflags TEXP_SCANLINE_LEGACY) \<and>
      \<not> (fmt = DXGI_FORMAT_YUY2 \<and> 4 \<le> inSize \<and> 4 \<le> outSize \<and>
         has_flag tflags TEXP_SCANLINE_LEGACY) \<longrightarrow>
        SwizzleScanline dst outSize src inSize fmt tflags =
          (case src of None \<Rightarrow> dst
           | Some s \<Rightarrow> take (min outSize inSize) s @ drop (min outSize inSize) dst)) \<and>
     SwizzleScanline [0x44, 0x33, 0x22, 0x11] 4 None 4 DXGI_FORMAT_B8G8R8A8_UNORM TEXP_SCANLINE_NONE
       = [0x22, 0x33, 0x44, 0x11] \<and>
     load32 [0x44, 0x33, 0x22, 0x11] 0 = 0x11223344 \<and>
     load32 [0x22, 0x33, 0x44, 0x11] 0 = 0x11443322 \<and>
     SwizzleScanline [0x11, 0x22, 0x33, 0x44] 4 None 4 DXGI_FORMAT_YUY2 TEXP_SCANLINE_LEGACY
       = [0x22, 0x11, 0x44, 0x33]"
proof -
  have c1: "fmt \<in> set swizzle_formats_8888 \<and> 4 \<le> inSize \<and> 4 \<le> outSize \<longrightarrow>
        (\<forall>i. 4 * i + 3 < swizzle_extent outSize src inSize \<longrightarrow>
           (let p = load32 (source_memory dst src) (4 * i);
                q = load32 (SwizzleScanline dst outSize src inSize fmt tflags) (4 * i)
            in chan8 0 q = chan8 2 p \<and> chan8 2 q = chan8 0 p \<and> chan8 1 q = chan8 1 p \<and>
               chan8 3 q = (if has_flag tflags TEXP_SCANLINE_SETALPHA then 0xff else chan8 3 p)))"
  proof (intro impI allI)
    fix i
    assume a: "fmt \<in> set swizzle_formats_8888 \<and> 4 \<le> inSize \<and> 4 \<le> outSize"
      and i: "4 * i + 3 < swizzle_extent outSize src inSize"
    from a have "SwizzleScanline dst outSize src inSize fmt tflags
                   = swizzle_pixels (swizzle_8888 tflags) dst outSize src inSize"
      by (simp add: SwizzleScanline_def swizzle_formats_disjoint)
    with swizzle_pixels_pixel[OF assms i, of "swizzle_8888 tflags"]
    have eq: "load32 (SwizzleScanline dst outSize src inSize fmt tflags) (4 * i)
                = swizzle_8888 tflags (load32 (source_memory dst src) (4 * i))" by simp
    show "let p = load32 (source_memory dst src) (4 * i);
              q = load32 (SwizzleScanline dst outSize src inSize fmt tflags) (4 * i)
          in chan8 0 q = chan8 2 p \<and> chan8 2 q = chan8 0 p \<and> chan8 1 q = chan8 1 p \<and>
             chan8 3 q = (if has_flag tflags TEXP_SCANLINE_SETALPHA then 0xff else chan8 3 p)"
      unfolding Let_def eq by (simp only: swizzle_8888_chan simp_thms)
  qed
  have c2: "fmt \<in> set swizzle_formats_1010102 \<and> 4 \<le> inSize \<and> 4 \<le> outSize \<and>
      has_flag tflags TEXP_SCANLINE_LEGACY \<longrightarrow>
        (\<forall>i. 4 * i + 3 < swizzle_extent outSize src inSize \<longrightarrow>
           (let p = load32 (source_memory dst src) (4 * i);
                q = load32 (SwizzleScanline dst outSize src inSize fmt tflags) (4 * i)
            in chan10 0 q = chan10 2 p \<and> chan10 2 q = chan10 0 p \<and> chan10 1 q = chan10 1 p \<and>
               alpha2 q = (if has_flag tflags TEXP_SCANLINE_SETALPHA then 3 else alpha2 p)))"
  proof (intro impI allI)
    fix i
    assume a: "fmt \<in> set swizzle_formats_1010102 \<and> 4 \<le> inSize \<and> 4 \<le> outSize \<and>
                 has_flag tflags TEXP_SCANLINE_LEGACY"
      and i: "4 * i + 3 < swizzle_extent outSize src inSize"
    from a have "SwizzleScanline dst outSize src inSize fmt tflags
                   = swizzle_pixels (swizzle_1010102 tflags) dst outSize src inSize"
      by (simp add: SwizzleScanline_def)
    with swizzle_pixels_pixel[OF assms i, of "swizzle_1010102 tflags"]
    have eq: "load32 (SwizzleScanline dst outSize src inSize fmt tflags) (4 * i)
                = swizzle_1010102 tflags (load32 (source_memory dst src) (4 * i))" by simp
    show "let p = load32 (source_memory dst src) (4 * i);
              q = load32 (SwizzleScanline dst outSize src inSize fmt tflags) (4 * i)
          in chan10 0 q = chan10 2 p \<and> chan10 2 q = chan10 0 p \<and> chan10 1 q = chan10 1 p \<and>
             alpha2 q = (if has_flag tflags TEXP_SCANLINE_SETALPHA then 3 else alpha2 p)"
      unfolding Let_def eq by (simp only: swizzle_1010102_chan simp_thms)
  qed
  have c4: "fmt = DXGI_FORMAT_YUY2 \<and> 4 \<le> inSize \<and> 4 \<le> outSize \<and>
      has_flag tflags TEXP_SCANLINE_LEGACY \<longrightarrow>
        (\<forall>i. 4 * i + 3 < swizzle_extent outSize src inSize \<longrightarrow>
           (let p = load32 (source_memory dst src) (4 * i);
                q = load32 (SwizzleScanline dst outSize src inSize fmt tflags) (4 * i)
            in chan8 0 q = chan8 1 p \<and> chan8 1 q = chan8 0 p \<and>
               chan8 2 q = chan8 3 p \<and> chan8 3 q = chan8 2 p))"
  proof (intro impI allI)
    fix i
    assume a: "fmt = DXGI_FORMAT_YUY2 \<and> 4 \<le> inSize \<and> 4 \<le> outSize \<and>
                 has_flag tflags TEXP_SCANLINE_LEGACY"
      and i: "4 * i + 3 < swizzle_extent outSize src inSize"
    from a have "SwizzleScanline dst outSize src inSize fmt tflags
                   = swizzle_pixels swizzle_yuy2 dst outSize src inSize"
      by (simp add: SwizzleScanline_def swizzle_yuy2_not_swapped)
    with swizzle_pixels_pixel[OF assms i, of swizzle_yuy2]
    have eq: "load32 (SwizzleScanline dst outSize src inSize fmt tflags) (4 * i)
                = swizzle_yuy2 (load32 (source_memory dst src) (4 * i))" by simp
    show "let p = load32 (source_memory dst src) (4 * i);
              q = load32 (SwizzleScanline dst outSize src inSize fmt tflags) (4 * i)
          in chan8 0 q = chan8 1 p \<and> chan8 1 q = chan8 0 p \<and>
             chan8 2 q = chan8 3 p \<and> chan8 3 q = chan8 2 p"
      unfolding Let_def eq by (simp only: swizzle_yuy2_chan simp_thms)
  qed
  have c3: "\<not> (fmt \<in> set swizzle_formats_8888 \<and> 4 \<le> inSize \<and> 4 \<le> outSize) \<and>
      \<not> (fmt \<in> set swizzle_formats_1010102 \<and> 4 \<le> inSize \<and> 4 \<le> outSize \<and>
         has_flag tflags TEXP_SCANLINE_LEGACY) \<and>
      \<not> (fmt = DXGI_FORMAT_YUY2 \<and> 4 \<le> inSize \<and> 4 \<le> outSize \<and>
         has_flag tflags TEXP_SCANLINE_LEGACY) \<longrightarrow>
        SwizzleScanline dst outSize src inSize fmt tflags =
          (case src of None \<Rightarrow> dst
           | Some s \<Rightarrow> take (min outSize inSize) s @ drop (min outSize inSize) dst)"
    by (auto simp: SwizzleScanline_def swizzle_fallthrough_def memcpy_def split: option.splits)
  have l1: "load32 [0x44, 0x33, 0x22, 0x11] 0 = 0x11223344" by (simp add: load32_def)
  have l2: "load32 [0x22, 0x33, 0x44, 0x11] 0 = 0x11443322" by (simp add: load32_def)
  from c1 c2 c4 c3 swizzle_example l1 l2 swizzle_yuy2_example show ?thesis by blast
qed

text \<open>
  Claim C5 as stated fails for the 10:10:10:2 formats when the legacy flag is not set:
  the pixel \<open>0x000003FF\<close> (red all ones, blue zero) is left as it is.
\<close>

theorem SwizzleScanline_behaviour_counterexample:
  "SwizzleScanline [0xFF, 0x03, 0x00, 0x00] 4 None 4 DXGI_FORMAT_R10G10B10A2_UNORM TEXP_SCANLINE_NONE
     = [0xFF, 0x03, 0x00, 0x00] \<and>
   load32 [0xFF, 0x03, 0x00, 0x00] 0 = 0x3FF \<and>
   chan10 0 0x3FF = 0x3FF \<and> chan10 2 0x3FF = 0"
  by (simp add: SwizzleScanline_def swizzle_formats_1010102_def dxgi has_flag_def
      TEXP_SCANLINE_NONE_def TEXP_SCANLINE_LEGACY_def swizzle_fallthrough_def load32_def
      chan10_def)

theorem SwizzleScanline_behaviour_witness:
  "chan8 0 (load32 (SwizzleScanline [0x44, 0x33, 0x22, 0x11] 4 None 4
                      DXGI_FORMAT_B8G8R8A8_UNORM TEXP_SCANLINE_NONE) 0) = 0x22 \<and>
   chan8 2 (load32 (SwizzleScanline [0x44, 0x33, 0x22, 0x11] 4 None 4
                      DXGI_FORMAT_B8G8R8A8_UNORM TEXP_SCANLINE_NONE) 0) = 0x44"
proof -
  have h1: "(4::nat) \<le> length [0x44, 0x33, 0x22, 0x11 :: byte]" by simp
  have h2: "source_fits None 4" by (simp add: source_fits_def)
  have f: "DXGI_FORMAT_B8G8R8A8_UNORM \<in> set swizzle_formats_8888"
    by (simp add: swizzle_formats_8888_def)
  have e: "4 * 0 + 3 < swizzle_extent 4 None 4" by (simp add: swizzle_extent_def)
  have l: "load32 (source_memory [0x44, 0x33, 0x22, 0x11] None) (4 * 0) = 0x11223344"
    by (simp add: load32_def source_memory_def)
  have c: "chan8 2 (0x11223344 :: 32 word) = 0x22" "chan8 0 (0x11223344 :: 32 word) = 0x44"
    by (simp_all add: chan8_def)
  from SwizzleScanline_behaviour[OF h1 h2, of DXGI_FORMAT_B8G8R8A8_UNORM TEXP_SCANLINE_NONE] f e
  have "let p = load32 (source_memory [0x44, 0x33, 0x22, 0x11] None) (4 * 0);
            q = load32 (SwizzleScanline [0x44, 0x33, 0x22, 0x11] 4 None 4
                          DXGI_FORMAT_B8G8R8A8_UNORM TEXP_SCANLINE_NONE) (4 * 0)
        in chan8 0 q = chan8 2 p \<and> chan8 2 q = chan8 0 p \<and> chan8 1 q = chan8 1 p \<and>
           chan8 3 q = (if has_flag TEXP_SCANLINE_NONE TEXP_SCANLINE_SETALPHA then 0xff
                        else chan8 3 p)"
    by blast
  then show ?thesis unfolding l Let_def c by simp
qed

section \<open>Properties of the header decoder\<close>

lemma decode_finish_fields:
  assumes "decode_finish md cf = Some (md', cf')"
  shows "width md' = width md \<and> height md' = height md \<and> depth md' = depth md \<and>
         arraySize md' = arraySize md \<and> mipLevels md' = mipLevels md \<and>
         dimension md' = dimension md \<and> format md' = format md \<and> cf' = cf \<and>
         width md \<le> 16384 \<and> height md \<le> 16384 \<and> mipLevels md \<le> 15 \<and>
         arraySize md \<le> 2048 \<and> depth md \<le> 2048"
  using assms
  by (auto simp: decode_finish_def Let_def SetAlphaMode_def split: if_splits)

lemma unat_times_6: "size_t Arch64 (unat (w :: 32 word) * 6) = unat w * 6"
proof -
  have "unat w < 2 ^ 32" using unsigned_less[of w, where 'a = nat] by simp
  then have "unat w * 6 < 2 ^ 64" by simp
  then show ?thesis by (simp add: size_t_def)
qed

lemma decode_dx10_fields:
  assumes "decode_dx10 a p n hdr md cf = Some (md', cf')"
  shows "mipLevels md' = mipLevels md \<and> (a = Arch64 \<longrightarrow> 1 \<le> arraySize md') \<and>
         (dimension md' \<noteq> TEX_DIMENSION_TEXTURE3D \<longrightarrow> depth md' = 1)"
  using assms
  by (auto simp: decode_dx10_def Let_def unat_times_6 split: if_splits option.splits)

lemma decode_legacy_fields:
  assumes "decode_legacy hdr md cf = Some (md', cf')"
  shows "mipLevels md' = mipLevels md \<and> 1 \<le> arraySize md' \<and>
         (dimension md' \<noteq> TEX_DIMENSION_TEXTURE3D \<longrightarrow> depth md' = 1)"
  using assms
  by (auto simp: decode_legacy_def Let_def split: if_splits option.splits prod.splits)

text \<open>
  Claim C2, as the code has it. Whenever \<^verbatim>\<open>DecodeDDSHeader\<close> succeeds, the metadata has
  between 1 and 15 mip levels, an array size of at most 2048 that is at least 1 on a
  64-bit target, a depth of at most 2048 that is exactly 1 unless the texture is a volume,
  and a width and a height of at most 16384. Width, height and the depth of a volume are
  copied from the header and have no lower bound.
\<close>

theorem DecodeDDSHeader_metadata_ranges:
  assumes "DecodeDDSHeader a pSource nbytes convFlags = Some (md, convFlags')"
  shows "1 \<le> mipLevels md \<and> mipLevels md \<le> 15 \<and>
         (a = Arch64 \<longrightarrow> 1 \<le> arraySize md) \<and> arraySize md \<le> 2048 \<and>
         (dimension md \<noteq> TEX_DIMENSION_TEXTURE3D \<longrightarrow> depth md = 1) \<and> depth md \<le> 2048 \<and>
         width md \<le> 16384 \<and> height md \<le> 16384"
proof -
  let ?hdr = "read_DDS_HEADER pSource sizeof_uint32_t"
  let ?m0 = "zero_metadata\<lparr>mipLevels := unat (mipMapCount ?hdr)\<rparr>"
  let ?m1 = "if mipLevels ?m0 = 0 then ?m0\<lparr>mipLevels := 1\<rparr> else ?m0"
  have m1: "1 \<le> mipLevels ?m1" by simp
  from assms obtain md1 cf1 where
    br: "(if has_flag (pf_flags (ddspf ?hdr)) DDS_FOURCC \<and>
             MAKEFOURCC (CHR ''D'') (CHR ''X'') (CHR ''1'') (CHR ''0'') = fourCC (ddspf ?hdr)
          then decode_dx10 a pSource nbytes ?hdr ?m1 convFlags
          else decode_legacy ?hdr ?m1 convFlags) = Some (md1, cf1)"
    and fin: "decode_finish md1 cf1 = Some (md, convFlags')"
    by (auto simp: DecodeDDSHeader_def Let_def split: if_splits option.splits)
  from br have mid: "mipLevels md1 = mipLevels ?m1 \<and> (a = Arch64 \<longrightarrow> 1 \<le> arraySize md1) \<and>
         (dimension md1 \<noteq> TEX_DIMENSION_TEXTURE3D \<longrightarrow> depth md1 = 1)"
    using decode_dx10_fields[of a pSource nbytes ?hdr ?m1 convFlags md1 cf1]
      decode_legacy_fields[of ?hdr ?m1 convFlags md1 cf1]
    by (auto split: if_splits)
  from decode_finish_fields[OF fin] mid m1 show ?thesis by auto
qed

lemma fourcc_DXT1: "MAKEFOURCC (CHR ''D'') (CHR ''X'') (CHR ''T'') (CHR ''1'') = 0x31545844"
  by (simp add: MAKEFOURCC_def)

lemma fourcc_DX10: "MAKEFOURCC (CHR ''D'') (CHR ''X'') (CHR ''1'') (CHR ''0'') = 0x30315844"
  by (simp add: MAKEFOURCC_def)

lemma fourcc_NVTT: "MAKEFOURCC (CHR ''N'') (CHR ''V'') (CHR ''T'') (CHR ''T'') = 0x5454564E"
  by (simp add: MAKEFOURCC_def)

lemma upt_0_11: "[0..<11] = [0, 1, 2, 3, 4, 5, 6, 7, 8, 9, 10 :: nat]"
  by code_simp

lemma length_demo_header: "length demo_header = 128"
  by (simp add: demo_header_def)

lemma demo_header_read:
  "read_DDS_HEADER (demo_header @ rest) 4 =
     \<lparr>hdr_size = 124, hdr_flags = 0x00800000, hdr_height = 0, hdr_width = 0,
      pitchOrLinearSize = 0, hdr_depth = 0, mipMapCount = 0,
      reserved1 = [0, 0, 0, 0, 0, 0, 0, 0, 0, 0, 0],
      ddspf = \<lparr>pf_size = 32, pf_flags = 4, fourCC = 0x31545844, RGBBitCount = 0,
                RBitMask = 0, GBitMask = 0, BBitMask = 0, ABitMask = 0\<rparr>,
      caps = 0, caps2 = 0, caps3 = 0, caps4 = 0, reserved2 = 0\<rparr>"
  unfolding read_DDS_HEADER_def upt_0_11 list.map
  by (simp add: read_DDS_PIXELFORMAT_def load32_def demo_header_def nth_append)

lemma demo_header_magic: "load32 (demo_header @ rest) 0 = DDS_MAGIC"
  by (simp add: load32_def demo_header_def DDS_MAGIC_def)

lemma demo_legacy_format:
  "GetDXGIFormat (read_DDS_HEADER (demo_header @ rest) 4)
     (ddspf (read_DDS_HEADER (demo_header @ rest) 4)) 0
     = (DXGI_FORMAT_BC1_UNORM, 0)"
  unfolding demo_header_read
  by (simp add: GetDXGIFormat_def fourcc_NVTT g_LegacyDDSMap_def legacy_matches_def legacy_def
      DDSPF_DXT1_def pixelformat_def fourcc_DXT1 has_flag_def DDS_FOURCC_def CONV_FLAGS_NONE_def)

lemma demo_header_decodes:
  assumes "128 \<le> n"
  shows "DecodeDDSHeader a (demo_header @ rest) n 0 = Some (demo_metadata, 0)"
proof -
  have "decode_legacy (read_DDS_HEADER (demo_header @ rest) 4)
          (zero_metadata\<lparr>mipLevels := 1\<rparr>) 0 = Some (demo_metadata, 0)"
    unfolding decode_legacy_def Let_def demo_legacy_format
    by (simp add: demo_header_read has_flag_def DDS_HEADER_FLAGS_VOLUME_def zero_metadata_def
        demo_metadata_def dxgi)
  moreover have "decode_finish demo_metadata 0 = Some (demo_metadata, 0)"
    by (simp add: decode_finish_def has_flag_def demo_metadata_def)
  ultimately show ?thesis
    unfolding DecodeDDSHeader_def Let_def sizeof_uint32_t_def
    using assms
    by (simp add: demo_header_magic demo_header_read sizeof_DDS_HEADER_def
        sizeof_DDS_PIXELFORMAT_def has_flag_def DDS_FOURCC_def fourcc_DX10 zero_metadata_def)
qed

text \<open>
  Claim C2 as stated fails: the 128-byte legacy header \<open>demo_header\<close>, a DXT1 volume
  whose width, height and depth fields are 0, decodes successfully to a metadata with
  width, height and depth 0.
\<close>

theorem DecodeDDSHeader_zero_dimensions:
  "DecodeDDSHeader Arch64 demo_header 128 0 = Some (demo_metadata, 0) \<and>
   width demo_metadata = 0 \<and> height demo_metadata = 0 \<and> depth demo_metadata = 0"
  using demo_header_decodes[of 128 Arch64 "[]"] by (simp add: demo_metadata_def)

theorem DecodeDDSHeader_metadata_ranges_witness:
  "DecodeDDSHeader Arch64 demo_header 128 0 = Some (demo_metadata, 0) \<and>
   mipLevels demo_metadata = 1 \<and> arraySize demo_metadata = 1 \<and>
   width demo_metadata \<le> 16384 \<and> height demo_metadata \<le> 16384 \<and>
   depth demo_metadata \<le> 2048"
proof -
  have d: "DecodeDDSHeader Arch64 demo_header 128 0 = Some (demo_metadata, 0)"
    using demo_header_decodes[of 128 Arch64 "[]"] by simp
  from DecodeDDSHeader_metadata_ranges[OF d] d show ?thesis
    by (simp add: demo_metadata_def)
qed

section \<open>The loader and a failing layout allocation\<close>

lemma FAILED_to_bool: "FAILED hr \<Longrightarrow> HRESULT_to_bool hr"
  by (simp add: FAILED_def HRESULT_to_bool_def)

lemma LoadFromDDSFile_failed_Initialize:
  assumes len: "sizeof_DDS_HEADER + sizeof_uint32_t \<le> length bytes"
    and dec: "DecodeDDSHeader a
                (take (min (size_t a (length bytes)) MAX_HEADER_SIZE) bytes @
                 replicate (MAX_HEADER_SIZE - min (size_t a (length bytes)) MAX_HEADER_SIZE) 0)
                (min (size_t a (length bytes)) MAX_HEADER_SIZE) 0 = Some (mdata, convFlags)"
    and pal: "read_palette env bytes convFlags
                (if \<not> has_flag convFlags CONV_FLAGS_DX10
                 then sizeof_uint32_t + sizeof_DDS_HEADER else MAX_HEADER_SIZE)
                = Some (pal8, offset)"
    and rem: "size_t a (length bytes - offset) \<noteq> 0"
    and init: "Initialize a env mdata CP_FLAGS_NONE (Release img) = (hr, img')"
    and failed: "FAILED hr"
  shows "LoadFromDDSFile a env (Some bytes) img = (True, None, img')"
  using len rem failed FAILED_to_bool[OF failed]
  unfolding LoadFromDDSFile_def Let_def
  by (simp add: dec pal init)

text \<open>
  Claim C1 against the code. The file made of \<open>demo_header\<close> and one more byte has a
  header that decodes; \<^verbatim>\<open>Initialize\<close> rejects its metadata with \<^verbatim>\<open>E_INVALIDARG\<close>, a
  failure; and \<^verbatim>\<open>LoadFromDDSFile\<close> returns \<^verbatim>\<open>true\<close>, because \<^verbatim>\<open>return hr;\<close> converts
  the nonzero code to \<^verbatim>\<open>bool\<close>. This holds on both targets, whatever the allocator and
  the pixel passes do.
\<close>

theorem LoadFromDDSFile_zero_width:
  "Initialize a env demo_metadata CP_FLAGS_NONE (Release img) = (E_INVALIDARG, Release img) \<and>
   FAILED E_INVALIDARG \<and>
   LoadFromDDSFile a env (Some (demo_header @ [0])) img = (True, None, Release img)"
proof -
  let ?bytes = "demo_header @ [0]"
  have init: "Initialize a env demo_metadata CP_FLAGS_NONE (Release img)
                = (E_INVALIDARG, Release img)"
    by (simp add: Initialize_def Initialize_mips_def demo_metadata_def IsValid_def
        IsPalettized_def dxgi TEX_DIMENSION_TEXTURE1D_def TEX_DIMENSION_TEXTURE2D_def
        TEX_DIMENSION_TEXTURE3D_def)
  have failed: "FAILED E_INVALIDARG" by (simp add: FAILED_def E_INVALIDARG_def)
  have sz: "size_t a 129 = 129" by (cases a) (simp_all add: size_t_def)
  have hl: "min (size_t a (length ?bytes)) MAX_HEADER_SIZE = 129"
    by (simp add: length_demo_header sz MAX_HEADER_SIZE_def sizeof_uint32_t_def
        sizeof_DDS_HEADER_def sizeof_DDS_HEADER_DXT10_def)
  have len: "sizeof_DDS_HEADER + sizeof_uint32_t \<le> length ?bytes"
    by (simp add: length_demo_header sizeof_uint32_t_def sizeof_DDS_HEADER_def)
  have hdr: "take 129 ?bytes @ replicate (MAX_HEADER_SIZE - 129) 0
               = demo_header @ ([0] @ replicate (MAX_HEADER_SIZE - 129) 0)"
    by (simp add: length_demo_header)
  have dec: "DecodeDDSHeader a
                (take (min (size_t a (length ?bytes)) MAX_HEADER_SIZE) ?bytes @
                 replicate (MAX_HEADER_SIZE - min (size_t a (length ?bytes)) MAX_HEADER_SIZE) 0)
                (min (size_t a (length ?bytes)) MAX_HEADER_SIZE) 0 = Some (demo_metadata, 0)"
    unfolding hl hdr by (rule demo_header_decodes) simp
  have pal: "read_palette env ?bytes 0
                (if \<not> has_flag 0 CONV_FLAGS_DX10
                 then sizeof_uint32_t + sizeof_DDS_HEADER else MAX_HEADER_SIZE)
                = Some (None, 128)"
    by (simp add: read_palette_def has_flag_def sizeof_uint32_t_def sizeof_DDS_HEADER_def)
  have rem: "size_t a (length ?bytes - 128) \<noteq> 0"
    by (cases a) (simp_all add: length_demo_header size_t_def)
  from LoadFromDDSFile_failed_Initialize[OF len dec pal rem init failed] init failed
  show ?thesis by simp
qed

end
